(* ===== verification/Prelude.thy ===== *)
theory Prelude
  imports
    Main
    "HOL-Library.Word"
    "HOL-Library.AList"
    "HOL-Library.Multiset"
    "HOL-Library.Sublist"
    "HOL-Library.Char_ord"
    "HOL-Library.List_Lexorder"
    "HOL-Library.Code_Target_Nat"
begin

section \<open>Shared types, Go maps, Go strings\<close>

text \<open>
  This theory holds what every component uses: the names of Go's machine types, Go's
  built-in map with its unspecified iteration order, Go's byte strings with the functions of
  the package \<^verbatim>\<open>strings\<close> the program calls, the error values, and the theorem
  collections the component proofs draw on.
\<close>

named_theorems gomap_simps \<open>how reading a Go map reacts to writing it\<close>
named_theorems wf_intros \<open>operations that keep the well-formedness of a Go map\<close>

subsection \<open>Machine types\<close>

text \<open>
  \<^verbatim>\<open>int64\<close> is a 64-bit word: \<open>+\<close> and \<open>-\<close> wrap around as in Go and \<open>sint\<close> reads the
  signed value. \<^verbatim>\<open>float64\<close> is its IEEE 754 bit pattern. A Go string and a \<^verbatim>\<open>[]byte\<close> are
  byte sequences, and a \<open>char\<close> is a byte.
\<close>

type_synonym int64 = "64 word"
type_synonym float64 = "64 word"
type_synonym bytes = "char list"

subsection \<open>Error values\<close>

text \<open>
  Go's \<^verbatim>\<open>error\<close> values as the program makes and inspects them. \<open>Sentinel\<close> is a package
  variable made by \<^verbatim>\<open>errors.New\<close> (compared by identity, here by its text); \<open>Wrapf\<close> is
  \<^verbatim>\<open>fmt.Errorf("...%w", args..., err)\<close> with its format and string arguments; \<open>NumError\<close> is
  \<^verbatim>\<open>*strconv.NumError\<close> with the function, the input and the reason; \<open>PgError\<close> is
  \<^verbatim>\<open>*pgconn.PgError\<close> with its SQLSTATE code; \<open>UrlError\<close> is \<^verbatim>\<open>*url.Error\<close> with what its
  methods \<^verbatim>\<open>Timeout\<close> and \<^verbatim>\<open>Temporary\<close> return; \<open>Opaque\<close> is every other error.
\<close>

datatype num_reason = ErrSyntax | ErrRange

datatype error =
    Sentinel string
  | Wrapf string "string list" error
  | NumError string string num_reason
  | PgError string
  | UrlError bool bool
  | Opaque string

text \<open>\<^verbatim>\<open>errors.Is\<close> for a sentinel: the error itself or one it wraps.\<close>

fun errors_Is :: "error \<Rightarrow> string \<Rightarrow> bool" where
  "errors_Is (Sentinel m) t = (m = t)"
| "errors_Is (Wrapf _ _ e) t = errors_Is e t"
| "errors_Is _ t = False"

text \<open>
  The result of a Go method that returns only an error and changes a state: the error
  (\<open>None\<close> is \<^verbatim>\<open>nil\<close>) and the new state.
\<close>

type_synonym 's eff = "error option \<times> 's"

subsection \<open>Go maps\<close>

text \<open>
  A Go map is an association list with distinct keys; writing a key replaces its value or
  adds it. Go leaves the iteration order of \<^verbatim>\<open>for k, v := range m\<close> open, so every definition
  that ranges over a map takes the order as an argument: \<open>go_range ord m\<close> visits the entries
  in the order \<open>ord m\<close> whenever that is a rearrangement of the map's entries. As \<open>ord\<close>
  varies this covers every order Go may choose, and no other sequence.
\<close>

type_synonym ('k, 'v) gomap = "('k \<times> 'v) list"

definition make_map :: "('k, 'v) gomap" where
  "make_map = []"

definition map_get :: "('k, 'v) gomap \<Rightarrow> 'k \<Rightarrow> 'v option" where
  "map_get m k = map_of m k"

definition map_set :: "('k, 'v) gomap \<Rightarrow> 'k \<Rightarrow> 'v \<Rightarrow> ('k, 'v) gomap" where
  "map_set m k v = AList.update k v m"

definition wf_map :: "('k, 'v) gomap \<Rightarrow> bool" where
  "wf_map m \<longleftrightarrow> distinct (map fst m)"

type_synonym ('k, 'v) map_order = "('k, 'v) gomap \<Rightarrow> ('k \<times> 'v) list"

definition go_range :: "('k, 'v) map_order \<Rightarrow> ('k, 'v) gomap \<Rightarrow> ('k \<times> 'v) list" where
  "go_range ord m = (if mset (ord m) = mset m then ord m else m)"

lemma map_get_make [gomap_simps, simp]: "map_get make_map = Map.empty"
  by (simp add: map_get_def make_map_def fun_eq_iff)

lemma map_get_set [gomap_simps, simp]: "map_get (map_set m k v) = (map_get m)(k \<mapsto> v)"
  by (simp add: map_get_def map_set_def fun_eq_iff update_conv')

lemma wf_make [wf_intros, simp]: "wf_map make_map"
  by (simp add: wf_map_def make_map_def)

lemma wf_set [wf_intros, simp]: "wf_map m \<Longrightarrow> wf_map (map_set m k v)"
  by (simp add: wf_map_def map_set_def distinct_update)

lemma mset_go_range [simp]: "mset (go_range ord m) = mset m"
  by (simp add: go_range_def)

lemma set_go_range [simp]: "set (go_range ord m) = set m"
  by (metis mset_go_range set_mset_mset)

lemma length_go_range [simp]: "length (go_range ord m) = length m"
  by (metis mset_go_range size_mset)

lemma wf_go_range [wf_intros, simp]: "wf_map (go_range ord m) = wf_map m"
  unfolding wf_map_def by (metis mset_eq_imp_distinct_iff mset_go_range mset_map)

lemma get_go_range [gomap_simps, simp]: "wf_map m \<Longrightarrow> map_get (go_range ord m) = map_get m"
  unfolding map_get_def
  by (metis map_of_inject_set set_go_range wf_go_range wf_map_def)

lemma go_range_covers: "mset xs = mset m \<Longrightarrow> go_range (\<lambda>_. xs) m = xs"
  by (simp add: go_range_def)

lemma wf_map_in_iff: "wf_map m \<Longrightarrow> (k, v) \<in> set m \<longleftrightarrow> map_get m k = Some v"
  by (simp add: wf_map_def map_get_def)

text \<open>Filling a map while ranging over the entries of another.\<close>

lemma foldl_map_set_wf [wf_intros]:
  "wf_map r \<Longrightarrow> wf_map (foldl (\<lambda>r (k, v). map_set r (f k) (g v)) r xs)"
  by (induction xs arbitrary: r) auto

lemma foldl_map_set_get:
  "map_get (foldl (\<lambda>r (k, v). map_set r (f k) (g v)) r xs) =
     map_get r ++ map_of (rev (map (\<lambda>(k, v). (f k, g v)) xs))"
proof (induction xs arbitrary: r)
  case (Cons x xs)
  obtain k v where "x = (k, v)" by (cases x)
  then show ?case by (simp add: Cons.IH map_add_assoc) (simp add: fun_upd_def)
qed simp

text \<open>With distinct new keys, the filled map has the old entries of other keys and the new ones.\<close>

lemma foldl_map_set_Some:
  assumes "inj f" and "wf_map xs"
  shows "map_get (foldl (\<lambda>r (k, v). map_set r (f k) (g v)) r xs) key = Some u \<longleftrightarrow>
    (\<exists>k v. (k, v) \<in> set xs \<and> key = f k \<and> u = g v) \<or>
    (key \<notin> f ` fst ` set xs \<and> map_get r key = Some u)"
proof -
  let ?ys = "map (\<lambda>(k, v). (f k, g v)) xs"
  have fst_ys: "map fst ?ys = map f (map fst xs)" by (simp add: case_prod_unfold)
  have "distinct (map fst (rev ?ys))"
    using assms by (simp only: rev_map [symmetric] fst_ys distinct_rev distinct_map wf_map_def)
      (auto intro: inj_on_subset)
  then have "map_of (rev ?ys) key = Some u \<longleftrightarrow> (key, u) \<in> set ?ys" by simp
  also have "\<dots> \<longleftrightarrow> (\<exists>k v. (k, v) \<in> set xs \<and> key = f k \<and> u = g v)" by force
  finally have "map_of (rev ?ys) key = Some u \<longleftrightarrow> (\<exists>k v. (k, v) \<in> set xs \<and> key = f k \<and> u = g v)" .
  moreover have "map_of (rev ?ys) key = None \<longleftrightarrow> key \<notin> f ` fst ` set xs"
    by (auto simp: map_of_eq_None_iff image_image case_prod_unfold)
  ultimately show ?thesis
    unfolding foldl_map_set_get map_add_Some_iff by simp
qed

end
