(* ===== verification/GoText.thy ===== *)
theory GoText
  imports Prelude
begin

section \<open>Text functions of Go's standard library\<close>

text \<open>
  What the program uses of the packages \<^verbatim>\<open>strings\<close> and \<^verbatim>\<open>strconv\<close> on byte strings and
  integers: prefixes, searching, trimming, and the decimal text of an \<^verbatim>\<open>int64\<close> with its
  parser, whose syntax and range errors are values. The decimal text is shown to be
  accepted by the parser and to give the number back.
\<close>

subsection \<open>Package strings\<close>

definition strings_HasPrefix :: "string \<Rightarrow> string \<Rightarrow> bool" where
  "strings_HasPrefix s p = (take (length p) s = p)"

definition strings_HasSuffix :: "string \<Rightarrow> string \<Rightarrow> bool" where
  "strings_HasSuffix s p = (length p \<le> length s \<and> drop (length s - length p) s = p)"

definition strings_TrimPrefix :: "string \<Rightarrow> string \<Rightarrow> string" where
  "strings_TrimPrefix s p = (if strings_HasPrefix s p then drop (length p) s else s)"

definition strings_TrimSuffix :: "string \<Rightarrow> string \<Rightarrow> string" where
  "strings_TrimSuffix s p = (if strings_HasSuffix s p then take (length s - length p) s else s)"

fun strings_Contains :: "string \<Rightarrow> string \<Rightarrow> bool" where
  "strings_Contains [] sub = strings_HasPrefix [] sub"
| "strings_Contains (c # s) sub =
     (strings_HasPrefix (c # s) sub \<or> strings_Contains s sub)"

text \<open>\<^verbatim>\<open>strings.IndexByte\<close>: the first position of the byte, or -1.\<close>

fun strings_IndexByte :: "string \<Rightarrow> char \<Rightarrow> int" where
  "strings_IndexByte [] c = - 1"
| "strings_IndexByte (x # xs) c =
     (if x = c then 0
      else let r = strings_IndexByte xs c in if r < 0 then - 1 else r + 1)"

text \<open>
  \<^verbatim>\<open>strings.TrimSpace\<close> removes the Unicode white space at both ends: the UTF-8 encodings of
  the code points for which \<^verbatim>\<open>unicode.IsSpace\<close> holds.
\<close>

definition utf8_spaces :: "string list" where
  "utf8_spaces =
     [[CHR 0x20], [CHR 0x09], [CHR 0x0A], [CHR 0x0B], [CHR 0x0C], [CHR 0x0D],
      [CHR 0xC2, CHR 0x85], [CHR 0xC2, CHR 0xA0], [CHR 0xE1, CHR 0x9A, CHR 0x80],
      [CHR 0xE2, CHR 0x80, CHR 0x80], [CHR 0xE2, CHR 0x80, CHR 0x81], [CHR 0xE2, CHR 0x80, CHR 0x82],
      [CHR 0xE2, CHR 0x80, CHR 0x83], [CHR 0xE2, CHR 0x80, CHR 0x84], [CHR 0xE2, CHR 0x80, CHR 0x85],
      [CHR 0xE2, CHR 0x80, CHR 0x86], [CHR 0xE2, CHR 0x80, CHR 0x87], [CHR 0xE2, CHR 0x80, CHR 0x88],
      [CHR 0xE2, CHR 0x80, CHR 0x89], [CHR 0xE2, CHR 0x80, CHR 0x8A], [CHR 0xE2, CHR 0x80, CHR 0xA8],
      [CHR 0xE2, CHR 0x80, CHR 0xA9], [CHR 0xE2, CHR 0x80, CHR 0xAF], [CHR 0xE2, CHR 0x81, CHR 0x9F],
      [CHR 0xE3, CHR 0x80, CHR 0x80]]"

text \<open>
  One step removes one listed prefix; a string has at most as many of them as bytes, so its
  length is enough fuel.
\<close>

fun trim_left_fuel :: "string list \<Rightarrow> nat \<Rightarrow> string \<Rightarrow> string" where
  "trim_left_fuel ps 0 s = s"
| "trim_left_fuel ps (Suc n) s =
     (case find (strings_HasPrefix s) ps of None \<Rightarrow> s
      | Some p \<Rightarrow> trim_left_fuel ps n (drop (length p) s))"

definition strings_TrimSpace :: "string \<Rightarrow> string" where
  "strings_TrimSpace s =
     (let t = trim_left_fuel utf8_spaces (length s) s
      in rev (trim_left_fuel (map rev utf8_spaces) (length t) (rev t)))"

lemma HasPrefix_append [simp]: "strings_HasPrefix (p @ s) p"
  by (simp add: strings_HasPrefix_def)

lemma TrimPrefix_append [simp]: "strings_TrimPrefix (p @ s) p = s"
  by (simp add: strings_TrimPrefix_def)

lemma IndexByte_ge: "- 1 \<le> strings_IndexByte s c"
  by (induction s) (auto simp: Let_def)

lemma IndexByte_absent: "c \<notin> set s \<Longrightarrow> strings_IndexByte s c = - 1"
  by (induction s) auto

lemma IndexByte_append [simp]:
  "c \<notin> set xs \<Longrightarrow> strings_IndexByte (xs @ c # ys) c = int (length xs)"
  by (induction xs) auto

text \<open>The trimming is complete: what is left starts with no space.\<close>

lemma trim_left_fuel_done:
  assumes "\<forall>p \<in> set ps. p \<noteq> []" and "length s \<le> n"
  shows "find (strings_HasPrefix (trim_left_fuel ps n s)) ps = None"
  using assms(2)
proof (induction n arbitrary: s)
  case 0
  then show ?case
    using assms(1) by (auto simp: find_None_iff strings_HasPrefix_def)
next
  case (Suc n)
  show ?case
  proof (cases "find (strings_HasPrefix s) ps")
    case (Some p)
    then have "p \<in> set ps" and "take (length p) s = p"
      by (auto simp: find_Some_iff strings_HasPrefix_def)
    with assms(1) have "s \<noteq> []" and "0 < length p" by auto
    then have "length (drop (length p) s) \<le> n" using Suc.prems by (cases p; cases s) auto
    with Some show ?thesis by (simp add: Suc.IH)
  qed simp
qed

subsection \<open>Decimal digits\<close>

definition digit_char :: "nat \<Rightarrow> char" where
  "digit_char d = ''0123456789'' ! d"

definition is_digit :: "char \<Rightarrow> bool" where
  "is_digit c = (48 \<le> (of_char c :: nat) \<and> (of_char c :: nat) \<le> 57)"

definition digit_val :: "char \<Rightarrow> nat" where
  "digit_val c = of_char c - 48"

lemma digit_cases:
  "(d :: nat) < 10 \<Longrightarrow> d \<in> {0, 1, 2, 3, 4, 5, 6, 7, 8, 9}"
  by auto

lemma is_digit_char [simp]: "d < 10 \<Longrightarrow> is_digit (digit_char d)"
  by (drule digit_cases) (auto simp: digit_char_def is_digit_def)

lemma digit_val_char [simp]: "d < 10 \<Longrightarrow> digit_val (digit_char d) = d"
  by (drule digit_cases) (auto simp: digit_char_def digit_val_def)

lemma digit_val_less: "is_digit c \<Longrightarrow> digit_val c < 10"
  by (auto simp: is_digit_def digit_val_def)

fun show_nat :: "nat \<Rightarrow> string" where
  "show_nat n =
     (if n < 10 then [digit_char n] else show_nat (n div 10) @ [digit_char (n mod 10)])"

declare show_nat.simps [simp del]

definition digits_val :: "string \<Rightarrow> nat" where
  "digits_val = foldl (\<lambda>n c. n * 10 + digit_val c) 0"

lemma show_nat_digits: "list_all is_digit (show_nat n)"
proof (induction n rule: show_nat.induct)
  case (1 n)
  then show ?case by (cases "n < 10") (simp_all add: show_nat.simps [of n])
qed

lemma show_nat_nonempty [simp]: "show_nat n \<noteq> []"
  by (subst show_nat.simps) simp

lemma digits_val_snoc: "digits_val (s @ [c]) = digits_val s * 10 + digit_val c"
  by (simp add: digits_val_def)

lemma digits_val_show [simp]: "digits_val (show_nat n) = n"
proof (induction n rule: show_nat.induct)
  case (1 n)
  then show ?case
    by (cases "n < 10")
      (simp_all add: show_nat.simps [of n] digits_val_snoc, simp add: digits_val_def)
qed

subsection \<open>Package strconv: integers and booleans\<close>

text \<open>\<^verbatim>\<open>strconv.FormatInt(i, 10)\<close>, also what \<^verbatim>\<open>fmt.Sprintf("%d", i)\<close> prints.\<close>

definition FormatInt :: "int64 \<Rightarrow> string" where
  "FormatInt i =
     (if sint i < 0 then CHR ''-'' # show_nat (nat (- sint i)) else show_nat (nat (sint i)))"

text \<open>
  The loop of \<^verbatim>\<open>strconv.ParseUint(s, 10, 64)\<close>: a byte that is no digit is a syntax error, and
  a value that does not fit 64 bits is a range error, whichever the loop meets first.
\<close>

definition maxUint64 :: nat where
  "maxUint64 = 18446744073709551615"

fun ParseUint_loop :: "nat \<Rightarrow> string \<Rightarrow> num_reason + nat" where
  "ParseUint_loop n [] = Inr n"
| "ParseUint_loop n (c # cs) =
     (if \<not> is_digit c then Inl ErrSyntax
      else if maxUint64 < n * 10 + digit_val c then Inl ErrRange
      else ParseUint_loop (n * 10 + digit_val c) cs)"

definition ParseUint :: "string \<Rightarrow> num_reason + nat" where
  "ParseUint s = (if s = [] then Inl ErrSyntax else ParseUint_loop 0 s)"

text \<open>
  \<^verbatim>\<open>strconv.ParseInt(s, 10, 64)\<close>. On a 64-bit platform \<^verbatim>\<open>strconv.Atoi\<close> accepts the same
  strings and gives the same numbers; only the function name inside its error differs.
\<close>

definition parse_int_text :: "string \<Rightarrow> num_reason + int64" where
  "parse_int_text s =
     (let neg = (case s of c # _ \<Rightarrow> c = CHR ''-'' | [] \<Rightarrow> False);
          body = (case s of c # cs \<Rightarrow> if c = CHR ''+'' \<or> c = CHR ''-'' then cs else s | [] \<Rightarrow> [])
      in case ParseUint body of
           Inl r \<Rightarrow> Inl r
         | Inr un \<Rightarrow>
             if \<not> neg \<and> 9223372036854775808 \<le> un then Inl ErrRange
             else if neg \<and> 9223372036854775808 < un then Inl ErrRange
             else Inr (if neg then - of_nat un else of_nat un))"

definition ParseInt :: "string \<Rightarrow> error + int64" where
  "ParseInt s =
     (case parse_int_text s of Inl r \<Rightarrow> Inl (NumError ''ParseInt'' s r) | Inr i \<Rightarrow> Inr i)"

definition Atoi :: "string \<Rightarrow> error + int64" where
  "Atoi s =
     (case parse_int_text s of Inl r \<Rightarrow> Inl (NumError ''Atoi'' s r) | Inr i \<Rightarrow> Inr i)"

text \<open>\<^verbatim>\<open>strconv.ParseBool\<close> accepts twelve spellings.\<close>

definition ParseBool :: "string \<Rightarrow> error + bool" where
  "ParseBool s =
     (if s \<in> set [''1'', ''t'', ''T'', ''TRUE'', ''true'', ''True''] then Inr True
      else if s \<in> set [''0'', ''f'', ''F'', ''FALSE'', ''false'', ''False''] then Inr False
      else Inl (NumError ''ParseBool'' s ErrSyntax))"

lemma foldl_digits_ge: "(m :: nat) \<le> foldl (\<lambda>n c. n * 10 + digit_val c) m s"
proof (induction s arbitrary: m)
  case (Cons c s)
  have "m \<le> m * 10 + digit_val c" by simp
  also have "\<dots> \<le> foldl (\<lambda>n c. n * 10 + digit_val c) (m * 10 + digit_val c) s" by (rule Cons.IH)
  finally show ?case by simp
qed simp

lemma ParseUint_loop_digits:
  assumes "list_all is_digit s"
    and "foldl (\<lambda>n c. n * 10 + digit_val c) n s \<le> maxUint64"
  shows "ParseUint_loop n s = Inr (foldl (\<lambda>n c. n * 10 + digit_val c) n s)"
  using assms
proof (induction s arbitrary: n)
  case (Cons c s)
  have "n * 10 + digit_val c \<le> maxUint64"
    using foldl_digits_ge [of "n * 10 + digit_val c" s] Cons.prems(2) by simp
  with Cons show ?case by simp
qed simp

lemma ParseUint_show: "n \<le> maxUint64 \<Longrightarrow> ParseUint (show_nat n) = Inr n"
  using ParseUint_loop_digits [of "show_nat n" 0] digits_val_show [of n] show_nat_digits [of n]
  by (simp add: ParseUint_def digits_val_def)

lemma show_nat_head:
  "\<exists>c cs. show_nat n = c # cs \<and> c \<noteq> CHR ''-'' \<and> c \<noteq> CHR ''+''"
  using show_nat_digits [of n] by (cases "show_nat n") (auto simp: is_digit_def)

lemma sint_range64: "- 9223372036854775808 \<le> sint (i :: int64)" "sint (i :: int64) < 9223372036854775808"
  using sint_ge [of i] sint_lt [of i] by simp_all

text \<open>What \<^verbatim>\<open>FormatInt\<close> writes, \<^verbatim>\<open>ParseInt\<close> reads back, for every one of the 2^64 values.\<close>

lemma parse_int_text_FormatInt: "parse_int_text (FormatInt i) = Inr i"
proof (cases "sint i < 0")
  case True
  let ?n = "nat (- sint i)"
  have "?n \<le> 9223372036854775808" using sint_range64(1) [of i] by simp
  then have "ParseUint (show_nat ?n) = Inr ?n" by (intro ParseUint_show) (simp add: maxUint64_def)
  moreover have "- of_nat ?n = i" using True by simp
  ultimately show ?thesis
    using True \<open>?n \<le> 9223372036854775808\<close> by (simp add: parse_int_text_def FormatInt_def)
next
  case False
  let ?n = "nat (sint i)"
  have b: "?n < 9223372036854775808" using sint_range64(2) [of i] False by simp
  then have p: "ParseUint (show_nat ?n) = Inr ?n" by (intro ParseUint_show) (simp add: maxUint64_def)
  obtain c cs where h: "show_nat ?n = c # cs" "c \<noteq> CHR ''-''" "c \<noteq> CHR ''+''"
    using show_nat_head by blast
  have "of_nat ?n = i" using False by simp
  then show ?thesis
    using False b p h by (simp add: parse_int_text_def FormatInt_def)
qed

lemma ParseInt_FormatInt [simp]: "ParseInt (FormatInt i) = Inr i"
  by (simp add: ParseInt_def parse_int_text_FormatInt)

lemma FormatInt_inject: "FormatInt i = FormatInt j \<longleftrightarrow> i = j"
  by (metis ParseInt_FormatInt sum.inject(2))

end
