(* ===== verification/Float64.thy ===== *)
theory Float64
  imports GoText
begin

section \<open>64-bit floating point numbers and their text\<close>

text \<open>
  A \<^verbatim>\<open>float64\<close> is its IEEE 754 bit pattern: a sign bit, 11 exponent bits and 52 fraction bits.
  The program never computes with gauge values: it parses them, prints them and moves them.
  So this theory holds the classification of the patterns, the correctly rounded conversion
  of a rational to the nearest pattern (ties to even), \<^verbatim>\<open>strconv.ParseFloat\<close>, and the
  shortest decimal text that \<^verbatim>\<open>strconv.FormatFloat(x, 'f', -1, 64)\<close> and
  \<^verbatim>\<open>fmt.Sprintf("%g", x)\<close> print. Values are exact rationals, numerator over denominator.
\<close>

subsection \<open>Bit patterns\<close>

definition f64_neg :: "float64 \<Rightarrow> bool" where
  "f64_neg w = (9223372036854775808 \<le> unat w)"

definition f64_mag :: "float64 \<Rightarrow> nat" where
  "f64_mag w = unat w mod 9223372036854775808"

definition f64_exp :: "float64 \<Rightarrow> nat" where
  "f64_exp w = f64_mag w div 4503599627370496"

definition f64_frac :: "float64 \<Rightarrow> nat" where
  "f64_frac w = f64_mag w mod 4503599627370496"

definition IsNaN :: "float64 \<Rightarrow> bool" where
  "IsNaN w = (f64_exp w = 2047 \<and> f64_frac w \<noteq> 0)"

definition IsInf :: "float64 \<Rightarrow> bool" where
  "IsInf w = (f64_exp w = 2047 \<and> f64_frac w = 0)"

definition f64_finite :: "float64 \<Rightarrow> bool" where
  "f64_finite w = (f64_exp w \<noteq> 2047)"

text \<open>The magnitude of a finite pattern is \<open>f64_sig * 2 ^ f64_pow\<close>.\<close>

definition f64_sig :: "float64 \<Rightarrow> nat" where
  "f64_sig w = (if f64_exp w = 0 then f64_frac w else f64_frac w + 4503599627370496)"

definition f64_pow :: "float64 \<Rightarrow> int" where
  "f64_pow w = int (if f64_exp w = 0 then 1 else f64_exp w) - 1075"

definition f64_NaN :: float64 where "f64_NaN = 0x7FF8000000000001"
definition f64_Inf :: float64 where "f64_Inf = 0x7FF0000000000000"

definition with_sign :: "bool \<Rightarrow> float64 \<Rightarrow> float64" where
  "with_sign neg w = (if neg then w + 9223372036854775808 else w)"

subsection \<open>Rational numbers\<close>

text \<open>\<open>scale p q b k\<close> is \<open>p / q * b ^ k\<close> as a numerator and a denominator.\<close>

definition scale :: "nat \<Rightarrow> nat \<Rightarrow> nat \<Rightarrow> int \<Rightarrow> nat \<times> nat" where
  "scale p q b k = (if 0 \<le> k then (p * b ^ nat k, q) else (p, q * b ^ nat (- k)))"

fun bit_len :: "nat \<Rightarrow> nat" where
  "bit_len n = (if n = 0 then 0 else Suc (bit_len (n div 2)))"

declare bit_len.simps [simp del]

text \<open>
  The exponent of the last significand bit for \<open>p / q\<close>: the one that leaves 53 bits before
  it, never below that of the denormals.
\<close>

definition round_exp :: "nat \<Rightarrow> nat \<Rightarrow> int" where
  "round_exp p q =
     (let e = int (bit_len p) - int (bit_len q) - 53;
          (a, b) = scale p q 2 (- e)
      in max (if 9007199254740992 * b \<le> a then e + 1 else e) (- 1074))"

definition round_half_even :: "nat \<Rightarrow> nat \<Rightarrow> nat" where
  "round_half_even a b =
     (let m = a div b; r = a mod b
      in if b < 2 * r \<or> (2 * r = b \<and> odd m) then m + 1 else m)"

text \<open>
  The magnitude bits nearest to \<open>p / q\<close>. A significand rounded up to \<open>2 ^ 53\<close> carries into
  the exponent field by the addition itself; a result at or above the pattern of infinity
  is an overflow.
\<close>

definition round_mag :: "nat \<Rightarrow> nat \<Rightarrow> nat" where
  "round_mag p q =
     (if p = 0 then 0
      else let e = round_exp p q; (a, b) = scale p q 2 (- e)
           in nat (e + 1074) * 4503599627370496 + round_half_even a b)"

definition overflow_mag :: nat where
  "overflow_mag = 9218868437227405312"

definition to_float64 :: "bool \<Rightarrow> nat \<Rightarrow> nat \<Rightarrow> float64 option" where
  "to_float64 neg p q =
     (let b = round_mag p q
      in if overflow_mag \<le> b then None else Some (with_sign neg (of_nat b)))"

text \<open>Go's conversion \<^verbatim>\<open>float64(u)\<close> of an unsigned integer: it never overflows.\<close>

definition float64_of_uint :: "nat \<Rightarrow> float64" where
  "float64_of_uint n = of_nat (round_mag n 1)"

subsection \<open>ParseFloat\<close>

definition lower :: "char \<Rightarrow> char" where
  "lower c = (if 65 \<le> (of_char c :: nat) \<and> (of_char c :: nat) \<le> 90
              then char_of (of_char c + 32 :: nat) else c)"

definition is_hex_letter :: "char \<Rightarrow> bool" where
  "is_hex_letter c = (97 \<le> (of_char (lower c) :: nat) \<and> (of_char (lower c) :: nat) \<le> 102)"

definition hex_letter_val :: "char \<Rightarrow> nat" where
  "hex_letter_val c = of_char (lower c) - 87"

text \<open>
  \<^verbatim>\<open>underscoreOK\<close> of strconv. Its state is the class of the last byte seen: the beginning,
  a digit (or base prefix), an underscore, or another byte.
\<close>

datatype saw = SawStart | SawDigit | SawUnderscore | SawOther

fun underscore_loop :: "bool \<Rightarrow> saw \<Rightarrow> string \<Rightarrow> bool" where
  "underscore_loop hex saw [] = (saw \<noteq> SawUnderscore)"
| "underscore_loop hex saw (c # cs) =
     (if is_digit c \<or> (hex \<and> is_hex_letter c) then underscore_loop hex SawDigit cs
      else if c = CHR ''_'' then saw = SawDigit \<and> underscore_loop hex SawUnderscore cs
      else saw \<noteq> SawUnderscore \<and> underscore_loop hex SawOther cs)"

definition strip_sign :: "string \<Rightarrow> string" where
  "strip_sign s =
     (case s of c # cs \<Rightarrow> if c = CHR ''+'' \<or> c = CHR ''-'' then cs else s | [] \<Rightarrow> [])"

definition underscoreOK :: "string \<Rightarrow> bool" where
  "underscoreOK s =
     (case strip_sign s of
        z # x # cs \<Rightarrow>
          if z = CHR ''0'' \<and> lower x \<in> set ''box'' then underscore_loop (lower x = CHR ''x'') SawDigit cs
          else underscore_loop False SawStart (z # x # cs)
      | t \<Rightarrow> underscore_loop False SawStart t)"

text \<open>
  The mantissa loop of \<^verbatim>\<open>readFloat\<close>: the value of the digits, how many of them follow the
  point, whether a point and a digit were seen, and the rest.
\<close>

fun read_mant :: "bool \<Rightarrow> nat \<Rightarrow> nat \<Rightarrow> bool \<Rightarrow> bool \<Rightarrow> string \<Rightarrow> nat \<times> nat \<times> bool \<times> string" where
  "read_mant hex m frac dot dig [] = (m, frac, dig, [])"
| "read_mant hex m frac dot dig (c # cs) =
     (let frac' = (if dot then frac + 1 else frac)
      in if c = CHR ''_'' then read_mant hex m frac dot dig cs
         else if c = CHR ''.'' then
           (if dot then (m, frac, dig, c # cs) else read_mant hex m frac True dig cs)
         else if is_digit c then
           read_mant hex (m * (if hex then 16 else 10) + digit_val c) frac' dot True cs
         else if hex \<and> is_hex_letter c then
           read_mant hex (m * 16 + hex_letter_val c) frac' dot True cs
         else (m, frac, dig, c # cs))"

text \<open>The exponent's digits; from 10000 on the loop stops counting.\<close>

fun read_exp :: "nat \<Rightarrow> string \<Rightarrow> nat \<times> string" where
  "read_exp e [] = (e, [])"
| "read_exp e (c # cs) =
     (if c = CHR ''_'' then read_exp e cs
      else if is_digit c then read_exp (if e < 10000 then e * 10 + digit_val c else e) cs
      else (e, c # cs))"

text \<open>
  The whole of \<^verbatim>\<open>readFloat\<close> for a string it consumes completely: the sign, whether the base
  is 16, the digits' value and the power of 10 (of 2 in base 16) it is multiplied by.
\<close>

definition readFloat :: "string \<Rightarrow> (bool \<times> bool \<times> nat \<times> int) option" where
  "readFloat s =
     (let neg = (case s of c # _ \<Rightarrow> c = CHR ''-'' | [] \<Rightarrow> False);
          t = strip_sign s;
          hex = (case t of z # x # _ # _ \<Rightarrow> z = CHR ''0'' \<and> lower x = CHR ''x'' | _ \<Rightarrow> False);
          (m, frac, dig, r) = read_mant hex 0 0 False False (if hex then drop 2 t else t);
          fexp = (if hex then 4 * int frac else int frac)
      in if \<not> dig \<or> (CHR ''_'' \<in> set s \<and> \<not> underscoreOK s) then None
         else case r of
           [] \<Rightarrow> if hex then None else Some (neg, False, m, - fexp)
         | c # cs \<Rightarrow>
             if lower c \<noteq> (if hex then CHR ''p'' else CHR ''e'') then None
             else let eneg = (case cs of d # _ \<Rightarrow> d = CHR ''-'' | [] \<Rightarrow> False);
                      ds = strip_sign cs;
                      (e, rest) = read_exp 0 ds
                  in if ds = [] \<or> \<not> is_digit (hd ds) \<or> rest \<noteq> [] then None
                     else Some (neg, hex, m, (if eneg then - int e else int e) - fexp))"

text \<open>The spellings of infinity and not-a-number, in any letter case.\<close>

definition special_float :: "string \<Rightarrow> float64 option" where
  "special_float s =
     (let l = map lower s
      in if l \<in> set [''inf'', ''infinity'', ''+inf'', ''+infinity''] then Some f64_Inf
         else if l \<in> set [''-inf'', ''-infinity''] then Some (with_sign True f64_Inf)
         else if l = ''nan'' then Some f64_NaN
         else None)"

definition ParseFloat :: "string \<Rightarrow> error + float64" where
  "ParseFloat s =
     (case special_float s of
        Some w \<Rightarrow> Inr w
      | None \<Rightarrow>
          (case readFloat s of
             None \<Rightarrow> Inl (NumError ''ParseFloat'' s ErrSyntax)
           | Some (neg, hex, m, k) \<Rightarrow>
               let (p, q) = scale m 1 (if hex then 2 else 10) k
               in (case to_float64 neg p q of
                     None \<Rightarrow> Inl (NumError ''ParseFloat'' s ErrRange)
                   | Some w \<Rightarrow> Inr w)))"

subsection \<open>FormatFloat\<close>

text \<open>
  The position of the decimal point: \<open>10 ^ (dp - 1) \<le> p / q < 10 ^ dp\<close>. Below one it is
  found by multiplying by ten.
\<close>

function lead_zeros :: "nat \<Rightarrow> nat \<Rightarrow> nat" where
  "lead_zeros p q = (if p = 0 \<or> q \<le> p * 10 then 0 else Suc (lead_zeros (p * 10) q))"
  by pat_completeness auto
termination
  by (relation "measure (\<lambda>(p, q). q - p)") auto

declare lead_zeros.simps [simp del]

definition decimal_point :: "nat \<Rightarrow> nat \<Rightarrow> int" where
  "decimal_point p q =
     (if q \<le> p then int (length (show_nat (p div q))) else - int (lead_zeros p q))"

definition reads_as :: "nat \<Rightarrow> nat \<Rightarrow> int \<Rightarrow> bool" where
  "reads_as mag d k = (case scale d 1 10 k of (p, q) \<Rightarrow> round_mag p q = mag)"

text \<open>
  The shortest decimal of at least \<open>n\<close> digits that reads back as the magnitude \<open>mag\<close> of
  \<open>p / q\<close>: among the two neighbours with \<open>n\<close> digits those that read back, the nearer one
  of two (an even last digit on a tie), else one digit more. The result is the decimal's
  digits as a number and the power of ten.
\<close>

fun shortest :: "nat \<Rightarrow> nat \<Rightarrow> nat \<Rightarrow> nat \<Rightarrow> int \<Rightarrow> nat \<Rightarrow> (nat \<times> int) option" where
  "shortest 0 mag p q dp n = None"
| "shortest (Suc fuel) mag p q dp n =
     (let k = dp - int n;
          (a, b) = scale p q 10 (- k);
          d = a div b; r = a mod b;
          down = reads_as mag d k;
          up = (r \<noteq> 0 \<and> reads_as mag (d + 1) k)
      in if down \<and> up then
           Some (if b < 2 * r \<or> (2 * r = b \<and> odd d) then d + 1 else d, k)
         else if down then Some (d, k)
         else if up then Some (d + 1, k)
         else shortest fuel mag p q dp (n + 1))"

text \<open>
  1400 digits are enough for every pattern: the smallest positive one, \<open>2 ^ -1074\<close>, has
  fewer, and with all its digits a number reads back as itself.
\<close>

definition shortest_decimal :: "float64 \<Rightarrow> (nat \<times> int) option" where
  "shortest_decimal w =
     (case scale (f64_sig w) 1 2 (f64_pow w) of
        (p, q) \<Rightarrow> shortest 1400 (f64_mag w) p q (decimal_point p q) 1)"

definition strip_zeros :: "string \<Rightarrow> string" where
  "strip_zeros s = rev (dropWhile (\<lambda>c. c = CHR ''0'') (rev s))"

text \<open>
  The decimal slice of strconv: its digits without trailing zeros, and the point's place.
  Zero has no digits.
\<close>

definition f64_digits :: "float64 \<Rightarrow> string \<times> int" where
  "f64_digits w =
     (if f64_mag w = 0 then ([], 0)
      else case shortest_decimal w of
             None \<Rightarrow> ([], 0)
           | Some (d, k) \<Rightarrow> (strip_zeros (show_nat d), int (length (show_nat d)) + k))"

definition fmtF :: "bool \<Rightarrow> string \<Rightarrow> int \<Rightarrow> string" where
  "fmtF neg ds dp =
     (if neg then ''-'' else []) @
     (if 0 < dp then take (nat dp) ds @ replicate (nat dp - length ds) (CHR ''0'') else ''0'') @
     (if int (length ds) - dp \<le> 0 then []
      else CHR ''.'' # replicate (nat (- dp)) (CHR ''0'') @ drop (nat dp) ds)"

definition fmtE :: "bool \<Rightarrow> string \<Rightarrow> int \<Rightarrow> string" where
  "fmtE neg ds dp =
     (let e = (if ds = [] then 0 else dp - 1);
          es = show_nat (nat (abs e))
      in (if neg then ''-'' else []) @
         (case ds of [] \<Rightarrow> ''0'' | d # r \<Rightarrow> d # (if r = [] then [] else CHR ''.'' # r)) @
         [CHR ''e'', if e < 0 then CHR ''-'' else CHR ''+''] @
         (if length es < 2 then CHR ''0'' # es else es))"

definition FormatFloat_f :: "float64 \<Rightarrow> string" where
  "FormatFloat_f w =
     (if IsNaN w then ''NaN''
      else if IsInf w then (if f64_neg w then ''-Inf'' else ''+Inf'')
      else case f64_digits w of (ds, dp) \<Rightarrow> fmtF (f64_neg w) ds dp)"

text \<open>
  The exponent form, and \<^verbatim>\<open>fmt.Sprintf("%g", x)\<close>: with the shortest precision it takes the
  exponent form when the decimal exponent is below -4 or at least 6.
\<close>

definition FormatFloat_e :: "float64 \<Rightarrow> string" where
  "FormatFloat_e w =
     (if IsNaN w then ''NaN''
      else if IsInf w then (if f64_neg w then ''-Inf'' else ''+Inf'')
      else case f64_digits w of (ds, dp) \<Rightarrow> fmtE (f64_neg w) ds dp)"

definition Sprintf_g :: "float64 \<Rightarrow> string" where
  "Sprintf_g w =
     (case f64_digits w of
        (ds, dp) \<Rightarrow>
          if IsNaN w \<or> IsInf w then FormatFloat_f w
          else if dp - 1 < - 4 \<or> 6 \<le> dp - 1 then FormatFloat_e w
          else FormatFloat_f w)"

subsection \<open>Classification\<close>

lemma f64_mag_bound: "f64_mag w < 9223372036854775808"
  by (simp add: f64_mag_def)

lemma f64_exp_bound: "f64_exp w \<le> 2047"
  using f64_mag_bound [of w] unfolding f64_exp_def by linarith

text \<open>Every pattern is a finite number, an infinity or not a number, and only one of them.\<close>

lemma f64_trichotomy:
  "(f64_finite w \<and> \<not> IsInf w \<and> \<not> IsNaN w) \<or> (\<not> f64_finite w \<and> IsInf w \<noteq> IsNaN w)"
  by (auto simp: f64_finite_def IsInf_def IsNaN_def)

lemma f64_NaN_IsNaN: "IsNaN f64_NaN"
  by (simp add: IsNaN_def f64_NaN_def f64_exp_def f64_frac_def f64_mag_def)

end
