(* ===== verification/Json.thy ===== *)
theory Json
  imports Float64
begin

section \<open>JSON text\<close>

text \<open>
  What the program uses of \<^verbatim>\<open>encoding/json\<close>, on bytes: the escaping of strings, the text of
  numbers, and the scanner that accepts exactly one JSON value and hands the rest back. The
  scanner works like Go's: a stack of open arrays and objects and a loop over the bytes, so
  that it needs no recursion and the depth limit is the height of the stack.
\<close>

abbreviation ord :: "char \<Rightarrow> nat" where "ord c \<equiv> of_char c"
abbreviation quote :: char where "quote \<equiv> CHR 0x22"
abbreviation backslash :: char where "backslash \<equiv> CHR 0x5C"

subsection \<open>UTF-8\<close>

definition cont_byte :: "char \<Rightarrow> bool" where
  "cont_byte c = (0x80 \<le> ord c \<and> ord c \<le> 0xBF)"

text \<open>
  The length of the valid multi-byte encoding at the head of the bytes, 0 where
  \<^verbatim>\<open>utf8.DecodeRune\<close> reports an error: no overlong forms, surrogates or values past U+10FFFF.
\<close>

definition utf8_size :: "bytes \<Rightarrow> nat" where
  "utf8_size bs =
     (case bs of
        a # b # r \<Rightarrow>
          if 0xC2 \<le> ord a \<and> ord a \<le> 0xDF then (if cont_byte b then 2 else 0)
          else if 0xE0 \<le> ord a \<and> ord a \<le> 0xEF then
            (if (if ord a = 0xE0 then 0xA0 else 0x80) \<le> ord b \<and>
                ord b \<le> (if ord a = 0xED then 0x9F else 0xBF) \<and>
                (case r of c # _ \<Rightarrow> cont_byte c | [] \<Rightarrow> False) then 3 else 0)
          else if 0xF0 \<le> ord a \<and> ord a \<le> 0xF4 then
            (if (if ord a = 0xF0 then 0x90 else 0x80) \<le> ord b \<and>
                ord b \<le> (if ord a = 0xF4 then 0x8F else 0xBF) \<and>
                (case r of c # d # _ \<Rightarrow> cont_byte c \<and> cont_byte d | _ \<Rightarrow> False) then 4 else 0)
          else 0
      | _ \<Rightarrow> 0)"

function utf8_valid :: "bytes \<Rightarrow> bool" where
  "utf8_valid [] = True"
| "utf8_valid (c # cs) =
     (if ord c < 0x80 then utf8_valid cs
      else utf8_size (c # cs) \<noteq> 0 \<and> utf8_valid (drop (utf8_size (c # cs) - 1) cs))"
  by pat_completeness auto
termination
  by (relation "measure length") auto

text \<open>\<^verbatim>\<open>utf8.AppendRune\<close> for a code point.\<close>

definition encode_rune :: "nat \<Rightarrow> bytes" where
  "encode_rune v =
     (if v < 0x80 then [char_of v]
      else if v < 0x800 then [char_of (0xC0 + v div 64), char_of (0x80 + v mod 64)]
      else if v < 0x10000 then
        [char_of (0xE0 + v div 4096), char_of (0x80 + v div 64 mod 64), char_of (0x80 + v mod 64)]
      else
        [char_of (0xF0 + v div 262144), char_of (0x80 + v div 4096 mod 64),
         char_of (0x80 + v div 64 mod 64), char_of (0x80 + v mod 64)])"

definition replacement :: bytes where
  "replacement = [CHR 0xEF, CHR 0xBF, CHR 0xBD]"

subsection \<open>Strings\<close>

definition hex_digit :: "nat \<Rightarrow> char" where
  "hex_digit d = ''0123456789abcdef'' ! d"

definition hex_value :: "char \<Rightarrow> nat option" where
  "hex_value c =
     (if is_digit c then Some (digit_val c)
      else if is_hex_letter c then Some (hex_letter_val c) else None)"

text \<open>
  \<^verbatim>\<open>appendString\<close> with HTML escaping, as \<^verbatim>\<open>json.Marshal\<close> and \<^verbatim>\<open>json.Encoder\<close> use it: quote and
  backslash, control characters, the three HTML characters, U+2028 and U+2029 are escaped,
  and an invalid byte becomes the escape of U+FFFD.
\<close>

definition escape_ascii :: "char \<Rightarrow> bytes" where
  "escape_ascii c =
     (if c = quote \<or> c = backslash then [backslash, c]
      else if c = CHR 0x08 then [backslash, CHR ''b'']
      else if c = CHR 0x0C then [backslash, CHR ''f'']
      else if c = CHR 0x0A then [backslash, CHR ''n'']
      else if c = CHR 0x0D then [backslash, CHR ''r'']
      else if c = CHR 0x09 then [backslash, CHR ''t'']
      else if ord c < 0x20 \<or> c \<in> set ''<>&'' then
        [backslash, CHR ''u'', CHR ''0'', CHR ''0'', hex_digit (ord c div 16), hex_digit (ord c mod 16)]
      else [c])"

function escape :: "bytes \<Rightarrow> bytes" where
  "escape [] = []"
| "escape (c # cs) =
     (if ord c < 0x80 then escape_ascii c @ escape cs
      else let n = utf8_size (c # cs)
           in if n = 0 then backslash # ''ufffd'' @ escape cs
              else if take 3 (c # cs) = [CHR 0xE2, CHR 0x80, CHR 0xA8] then
                backslash # ''u2028'' @ escape (drop 2 cs)
              else if take 3 (c # cs) = [CHR 0xE2, CHR 0x80, CHR 0xA9] then
                backslash # ''u2029'' @ escape (drop 2 cs)
              else take n (c # cs) @ escape (drop (n - 1) cs))"
  by pat_completeness auto
termination
  by (relation "measure length") auto

definition json_string :: "bytes \<Rightarrow> bytes" where
  "json_string s = quote # escape s @ [quote]"

text \<open>Four hexadecimal digits of an escape.\<close>

definition hex4 :: "bytes \<Rightarrow> (nat \<times> bytes) option" where
  "hex4 bs =
     (case bs of
        a # b # c # d # r \<Rightarrow>
          (case (hex_value a, hex_value b, hex_value c, hex_value d) of
             (Some x, Some y, Some z, Some w) \<Rightarrow> Some (((x * 16 + y) * 16 + z) * 16 + w, r)
           | _ \<Rightarrow> None)
      | _ \<Rightarrow> None)"

text \<open>
  A \<^verbatim>\<open>\u\<close> escape after its \<^verbatim>\<open>u\<close>: a pair of surrogates is one code point, a lone surrogate is
  U+FFFD and what follows it is read on its own.
\<close>

definition unescape_u :: "bytes \<Rightarrow> (bytes \<times> bytes) option" where
  "unescape_u bs =
     (case hex4 bs of
        None \<Rightarrow> None
      | Some (v, r) \<Rightarrow>
          if v < 0xD800 \<or> 0xDFFF < v then Some (encode_rune v, r)
          else (case r of
                  b # u # r' \<Rightarrow>
                    (if b = backslash \<and> u = CHR ''u'' then
                       (case hex4 r' of
                          Some (w, r'') \<Rightarrow>
                            if v < 0xDC00 \<and> 0xDC00 \<le> w \<and> w \<le> 0xDFFF
                            then Some (encode_rune ((v - 0xD800) * 1024 + (w - 0xDC00) + 0x10000), r'')
                            else Some (replacement, r)
                        | None \<Rightarrow> Some (replacement, r))
                     else Some (replacement, r))
                | _ \<Rightarrow> Some (replacement, r)))"

text \<open>One escape after its backslash.\<close>

definition unescape :: "bytes \<Rightarrow> (bytes \<times> bytes) option" where
  "unescape bs =
     (case bs of
        [] \<Rightarrow> None
      | e # r \<Rightarrow>
          if e = quote \<or> e = backslash \<or> e = CHR ''/'' then Some ([e], r)
          else if e = CHR ''b'' then Some ([CHR 0x08], r)
          else if e = CHR ''f'' then Some ([CHR 0x0C], r)
          else if e = CHR ''n'' then Some ([CHR 0x0A], r)
          else if e = CHR ''r'' then Some ([CHR 0x0D], r)
          else if e = CHR ''t'' then Some ([CHR 0x09], r)
          else if e = CHR ''u'' then unescape_u r
          else None)"

lemma hex4_length: "hex4 bs = Some (v, r) \<Longrightarrow> length r < length bs"
  by (auto simp: hex4_def split: list.splits option.splits)

lemma unescape_u_length: "unescape_u bs = Some (x, r) \<Longrightarrow> length r < length bs"
  by (auto simp: unescape_u_def split: option.splits if_splits list.splits dest!: hex4_length)

lemma unescape_length: "unescape bs = Some (x, r) \<Longrightarrow> length r < length bs"
  by (auto simp: unescape_def split: list.splits if_splits dest: unescape_u_length)

text \<open>The bytes of a string literal after its opening quote, and the rest after the closing one.\<close>

function scan_string :: "bytes \<Rightarrow> (bytes \<times> bytes) option" where
  "scan_string [] = None"
| "scan_string (c # cs) =
     (if c = quote then Some ([], cs)
      else if ord c < 0x20 then None
      else if c = backslash then
        (case unescape cs of
           None \<Rightarrow> None
         | Some (x, r) \<Rightarrow> map_option (\<lambda>(s, t). (x @ s, t)) (scan_string r))
      else if ord c < 0x80 then map_option (\<lambda>(s, t). (c # s, t)) (scan_string cs)
      else let n = utf8_size (c # cs)
           in if n = 0 then map_option (\<lambda>(s, t). (replacement @ s, t)) (scan_string cs)
              else map_option (\<lambda>(s, t). (take n (c # cs) @ s, t)) (scan_string (drop (n - 1) cs)))"
  by pat_completeness auto
termination
  by (relation "measure length") (auto dest: unescape_length)

subsection \<open>Numbers\<close>

text \<open>
  The text of a \<^verbatim>\<open>float64\<close>: like ES6, the exponent form below 1e-6 and from 1e21 on, with a
  one-digit negative exponent shortened. Not-a-number and the infinities have no text. The
  magnitudes 1e-6 and 1e21 are compared by their bit patterns.
\<close>

definition mag_1e_minus_6 :: nat where "mag_1e_minus_6 = 0x3EB0C6F7A0B5ED8D"
definition mag_1e21 :: nat where "mag_1e21 = 0x444B1AE4D6E2EF50"

definition shorten_exp :: "string \<Rightarrow> string" where
  "shorten_exp b =
     (let n = length b
      in if 4 \<le> n \<and> b ! (n - 4) = CHR ''e'' \<and> (b ! (n - 3) = CHR ''-'' \<or> b ! (n - 3) = CHR ''+'') \<and>
            b ! (n - 2) = CHR ''0''
         then take (n - 2) b @ [b ! (n - 1)] else b)"

definition json_float :: "float64 \<Rightarrow> bytes option" where
  "json_float w =
     (if IsNaN w \<or> IsInf w then None
      else if f64_mag w \<noteq> 0 \<and> (f64_mag w < mag_1e_minus_6 \<or> mag_1e21 \<le> f64_mag w)
      then Some (shorten_exp (FormatFloat_e w))
      else Some (FormatFloat_f w))"

text \<open>A number literal at the head of the bytes, as the JSON grammar has it, and the rest.\<close>

definition scan_digits :: "bytes \<Rightarrow> bytes \<times> bytes" where
  "scan_digits bs = (takeWhile is_digit bs, dropWhile is_digit bs)"

definition scan_int :: "bytes \<Rightarrow> (bytes \<times> bytes) option" where
  "scan_int bs =
     (case bs of
        [] \<Rightarrow> None
      | c # cs \<Rightarrow> if c = CHR ''0'' then Some ([c], cs)
                 else if is_digit c then Some (scan_digits bs) else None)"

definition scan_frac :: "bytes \<Rightarrow> (bytes \<times> bytes) option" where
  "scan_frac bs =
     (case bs of
        c # cs \<Rightarrow>
          if c = CHR ''.'' then
            (case scan_digits cs of (ds, r) \<Rightarrow> if ds = [] then None else Some (c # ds, r))
          else Some ([], bs)
      | [] \<Rightarrow> Some ([], []))"

definition scan_exp :: "bytes \<Rightarrow> (bytes \<times> bytes) option" where
  "scan_exp bs =
     (case bs of
        c # cs \<Rightarrow>
          if c = CHR ''e'' \<or> c = CHR ''E'' then
            (let sgn = (case cs of d # _ \<Rightarrow> if d = CHR ''+'' \<or> d = CHR ''-'' then [d] else [] | [] \<Rightarrow> [])
             in case scan_digits (drop (length sgn) cs) of
                  (ds, r) \<Rightarrow> if ds = [] then None else Some (c # sgn @ ds, r))
          else Some ([], bs)
      | [] \<Rightarrow> Some ([], []))"

definition scan_number :: "bytes \<Rightarrow> (bytes \<times> bytes) option" where
  "scan_number bs =
     (let neg = (case bs of c # _ \<Rightarrow> if c = CHR ''-'' then [c] else [] | [] \<Rightarrow> [])
      in case scan_int (drop (length neg) bs) of
           None \<Rightarrow> None
         | Some (i, r1) \<Rightarrow>
             (case scan_frac r1 of
                None \<Rightarrow> None
              | Some (f, r2) \<Rightarrow>
                  (case scan_exp r2 of
                     None \<Rightarrow> None
                   | Some (e, r3) \<Rightarrow> Some (neg @ i @ f @ e, r3))))"

subsection \<open>Values\<close>

text \<open>A number keeps its literal: what it means depends on the Go type it is decoded into.\<close>

datatype json =
    JNull
  | JBool bool
  | JNum bytes
  | JStr bytes
  | JArr "json list"
  | JObj "(bytes \<times> json) list"

definition is_space :: "char \<Rightarrow> bool" where
  "is_space c = (c = CHR 0x20 \<or> c = CHR 0x09 \<or> c = CHR 0x0D \<or> c = CHR 0x0A)"

definition skip_ws :: "bytes \<Rightarrow> bytes" where
  "skip_ws = dropWhile is_space"

text \<open>
  An open array with its elements so far, last first, or an open object with its members so
  far, last first, and the key whose value is being read.
\<close>

datatype frame = FArr "json list" | FObj "(bytes \<times> json) list" bytes

text \<open>What the loop expects next: a value, or the end or continuation after a value.\<close>

datatype expect = Want_Value | Have_Value json

definition max_depth :: nat where "max_depth = 10000"

definition scan_literal :: "bytes \<Rightarrow> (json \<times> bytes) option" where
  "scan_literal bs =
     (if strings_HasPrefix bs ''true'' then Some (JBool True, drop 4 bs)
      else if strings_HasPrefix bs ''false'' then Some (JBool False, drop 5 bs)
      else if strings_HasPrefix bs ''null'' then Some (JNull, drop 4 bs)
      else None)"

text \<open>A member's key after the white space before it, up to and including the colon.\<close>

definition scan_key :: "bytes \<Rightarrow> (bytes \<times> bytes) option" where
  "scan_key bs =
     (case skip_ws bs of
        c # cs \<Rightarrow>
          if c = quote then
            (case scan_string cs of
               None \<Rightarrow> None
             | Some (k, r) \<Rightarrow>
                 (case skip_ws r of d # r' \<Rightarrow> if d = CHR '':'' then Some (k, r') else None | [] \<Rightarrow> None))
          else None
      | [] \<Rightarrow> None)"

text \<open>A scalar value: a string, a number or a literal.\<close>

definition scan_scalar :: "char \<Rightarrow> bytes \<Rightarrow> (json \<times> bytes) option" where
  "scan_scalar c cs =
     (if c = quote then map_option (\<lambda>(s, r). (JStr s, r)) (scan_string cs)
      else if c = CHR ''-'' \<or> is_digit c then map_option (\<lambda>(l, r). (JNum l, r)) (scan_number (c # cs))
      else scan_literal (c # cs))"

lemma skip_ws_length: "length (skip_ws bs) \<le> length bs"
  by (simp add: skip_ws_def length_dropWhile_le)

lemma scan_string_length: "scan_string bs = Some (s, r) \<Longrightarrow> length r < length bs"
proof (induction "length bs" arbitrary: bs s r rule: less_induct)
  case less
  have IH: "scan_string t = Some (u, r) \<Longrightarrow> length t < length bs \<Longrightarrow> length r < length bs" for t u
    using less.hyps [of t u r] by simp
  show ?case
  proof (cases bs)
    case (Cons c cs)
    then show ?thesis
      using less.prems IH
      by (auto simp: Let_def split: if_splits option.splits dest!: unescape_length)
  qed (use less.prems in simp)
qed

lemma scan_digits_length:
  "scan_digits bs = (ds, r) \<Longrightarrow> length r \<le> length bs \<and> (ds \<noteq> [] \<longrightarrow> length r < length bs)"
  by (cases bs) (auto simp: scan_digits_def less_Suc_eq_le length_dropWhile_le le_SucI split: if_splits)

lemma scan_int_length: "scan_int bs = Some (ds, r) \<Longrightarrow> length r < length bs"
  by (cases bs) (auto simp: scan_int_def scan_digits_def less_Suc_eq_le length_dropWhile_le split: if_splits)

lemma scan_frac_length: "scan_frac bs = Some (ds, r) \<Longrightarrow> length r \<le> length bs"
  by (cases bs) (auto simp: scan_frac_def split: if_splits prod.splits dest: scan_digits_length)

lemma scan_exp_length: "scan_exp bs = Some (ds, r) \<Longrightarrow> length r \<le> length bs"
  by (cases bs) (auto simp: scan_exp_def Let_def split: if_splits prod.splits list.splits
      dest!: scan_digits_length)

lemma scan_number_length: "scan_number bs = Some (l, r) \<Longrightarrow> length r < length bs"
  by (auto simp: scan_number_def Let_def split: option.splits list.splits if_splits
      dest!: scan_int_length scan_frac_length scan_exp_length)

lemma scan_scalar_length: "scan_scalar c cs = Some (v, r) \<Longrightarrow> length r \<le> length cs"
  by (auto simp: scan_scalar_def scan_literal_def split: if_splits
      dest: scan_string_length scan_number_length)

lemma scan_key_length:
  assumes "scan_key bs = Some (k, r)"
  shows "length r < length bs"
proof -
  from assms obtain c cs r1 d where
    s: "skip_ws bs = c # cs" "scan_string cs = Some (k, r1)" "skip_ws r1 = d # r"
    by (auto simp: scan_key_def split: list.splits option.splits if_splits)
  then show ?thesis
    using skip_ws_length [of bs] skip_ws_length [of r1] scan_string_length [OF s(2)] by simp
qed

text \<open>
  The loop. Opening an array or object pushes a frame, unless the stack is at the depth
  limit; a value that completes the innermost frame becomes the next value; a value with
  no frame around it is the result.
\<close>

function json_run :: "expect \<Rightarrow> frame list \<Rightarrow> bytes \<Rightarrow> (json \<times> bytes) option" where
  "json_run Want_Value stk bs =
     (case skip_ws bs of
        [] \<Rightarrow> None
      | c # cs \<Rightarrow>
          if c = CHR ''['' then
            (if max_depth \<le> length stk then None
             else case skip_ws cs of
                    d # r \<Rightarrow> if d = CHR '']'' then json_run (Have_Value (JArr [])) stk r
                             else json_run Want_Value (FArr [] # stk) cs
                  | [] \<Rightarrow> None)
          else if c = CHR ''{'' then
            (if max_depth \<le> length stk then None
             else case skip_ws cs of
                    d # r \<Rightarrow>
                      if d = CHR ''}'' then json_run (Have_Value (JObj [])) stk r
                      else (case scan_key cs of
                              None \<Rightarrow> None
                            | Some (k, r') \<Rightarrow> json_run Want_Value (FObj [] k # stk) r')
                  | [] \<Rightarrow> None)
          else (case scan_scalar c cs of
                  None \<Rightarrow> None
                | Some (v, r) \<Rightarrow> json_run (Have_Value v) stk r))"
| "json_run (Have_Value v) [] bs = Some (v, bs)"
| "json_run (Have_Value v) (FArr vs # stk) bs =
     (case skip_ws bs of
        [] \<Rightarrow> None
      | c # cs \<Rightarrow>
          if c = CHR '','' then json_run Want_Value (FArr (v # vs) # stk) cs
          else if c = CHR '']'' then json_run (Have_Value (JArr (rev (v # vs)))) stk cs
          else None)"
| "json_run (Have_Value v) (FObj ms k # stk) bs =
     (case skip_ws bs of
        [] \<Rightarrow> None
      | c # cs \<Rightarrow>
          if c = CHR '','' then
            (case scan_key cs of
               None \<Rightarrow> None
             | Some (k', r) \<Rightarrow> json_run Want_Value (FObj ((k, v) # ms) k' # stk) r)
          else if c = CHR ''}'' then json_run (Have_Value (JObj (rev ((k, v) # ms)))) stk cs
          else None)"
  by pat_completeness auto

lemma skip_ws_Cons: "skip_ws bs = c # cs \<Longrightarrow> length cs < length bs"
  using skip_ws_length [of bs] by simp

termination json_run
proof (relation "measure (\<lambda>(e, stk, bs). length bs)", goal_cases)
  case 1
  show ?case by simp
qed (auto dest!: skip_ws_Cons scan_key_length scan_scalar_length)

declare json_run.simps [simp del]

text \<open>
  \<^verbatim>\<open>json.NewDecoder(r).Decode\<close> reads one value and leaves what follows it unread;
  \<^verbatim>\<open>json.Unmarshal\<close> wants nothing but white space after it.
\<close>

definition json_decode_value :: "bytes \<Rightarrow> json option" where
  "json_decode_value bs = map_option fst (json_run Want_Value [] bs)"

definition json_unmarshal_value :: "bytes \<Rightarrow> json option" where
  "json_unmarshal_value bs =
     (case json_run Want_Value [] bs of
        Some (v, r) \<Rightarrow> if skip_ws r = [] then Some v else None
      | None \<Rightarrow> None)"

subsection \<open>A string is read back as it was written\<close>

lemma hex_value_digit: "d < 16 \<Longrightarrow> hex_value (hex_digit d) = Some d"
proof -
  assume "d < 16"
  then have "d \<in> {0, 1, 2, 3, 4, 5, 6, 7, 8, 9, 10, 11, 12, 13, 14, 15}" by (simp; presburger)
  then show ?thesis
    by (auto simp: hex_value_def hex_digit_def is_digit_def digit_val_def is_hex_letter_def
        hex_letter_val_def lower_def)
qed

lemma unescape_u_ascii:
  assumes "ord c < 0x80"
  shows "unescape_u (CHR ''0'' # CHR ''0'' # hex_digit (ord c div 16) # hex_digit (ord c mod 16) # t) =
    Some ([c], t)"
proof -
  have z: "hex_value CHR ''0'' = Some 0" using hex_value_digit [of 0] by (simp add: hex_digit_def)
  have "ord c div 16 < 16" "ord c mod 16 < 16" using assms by auto
  then have "hex4 (CHR ''0'' # CHR ''0'' # hex_digit (ord c div 16) # hex_digit (ord c mod 16) # t) =
      Some (ord c, t)"
    by (simp add: hex4_def hex_value_digit z)
  then show ?thesis using assms by (simp add: unescape_u_def encode_rune_def)
qed

lemma scan_escape_ascii:
  assumes "ord c < 0x80"
  shows "scan_string (escape_ascii c @ t) = map_option (\<lambda>(s, u). (c # s, u)) (scan_string t)"
proof (cases "ord c < 0x20 \<or> c \<in> set ''<>&''")
  case True
  then show ?thesis
    using assms unescape_u_ascii [OF assms]
    by (auto simp: escape_ascii_def unescape_def split: option.split)
next
  case False
  then show ?thesis
    using assms by (auto simp: escape_ascii_def unescape_def split: option.split)
qed

lemma utf8_size_bounds: "utf8_size bs \<noteq> 0 \<Longrightarrow> 2 \<le> utf8_size bs \<and> utf8_size bs \<le> length bs"
  by (auto simp: utf8_size_def split: list.splits if_splits)

text \<open>The three shapes of a multi-byte encoding.\<close>

lemma utf8_size_cases:
  assumes "utf8_size bs \<noteq> 0"
  obtains a b r where "bs = a # b # r" "utf8_size bs = 2" "\<And>t. utf8_size (a # b # t) = 2"
  | a b c r where "bs = a # b # c # r" "utf8_size bs = 3" "\<And>t. utf8_size (a # b # c # t) = 3"
  | a b c d r where "bs = a # b # c # d # r" "utf8_size bs = 4" "\<And>t. utf8_size (a # b # c # d # t) = 4"
proof -
  obtain a b r where bs: "bs = a # b # r"
    using assms by (cases bs; cases "tl bs") (auto simp: utf8_size_def)
  consider "0xC2 \<le> ord a \<and> ord a \<le> 0xDF" | "0xE0 \<le> ord a \<and> ord a \<le> 0xEF"
    | "0xF0 \<le> ord a \<and> ord a \<le> 0xF4"
    using assms by (auto simp: utf8_size_def bs split: if_splits)
  then show thesis
  proof cases
    case 1
    then show thesis using assms that(1) [of a b r] by (simp add: utf8_size_def bs split: if_splits)
  next
    case 2
    moreover from 2 assms obtain c r' where "r = c # r'" by (cases r) (auto simp: utf8_size_def bs)
    ultimately show thesis using assms that(2) [of a b c r']
      by (simp add: utf8_size_def bs split: if_splits)
  next
    case 3
    moreover from 3 assms obtain c d r' where "r = c # d # r'"
      by (cases r; cases "tl r") (auto simp: utf8_size_def bs split: if_splits)
    ultimately show thesis using assms that(3) [of a b c d r']
      by (simp add: utf8_size_def bs split: if_splits)
  qed
qed

lemma utf8_size_prefix:
  assumes "utf8_size bs \<noteq> 0"
  shows "utf8_size (take (utf8_size bs) bs @ t) = utf8_size bs"
  using assms by (cases rule: utf8_size_cases) (simp_all add: numeral_2_eq_2 numeral_3_eq_3 numeral_eq_Suc)

lemma scan_multibyte:
  assumes "utf8_size (c # cs) \<noteq> 0" and "\<not> ord c < 0x80"
  shows "scan_string (take (utf8_size (c # cs)) (c # cs) @ t) =
    map_option (\<lambda>(s, u). (take (utf8_size (c # cs)) (c # cs) @ s, u)) (scan_string t)"
proof -
  let ?n = "utf8_size (c # cs)"
  have n: "2 \<le> ?n" "?n \<le> length (c # cs)" using utf8_size_bounds [OF assms(1)] by auto
  then obtain m where m: "?n = Suc m" by (cases ?n) auto
  have size: "utf8_size (c # take m cs @ t) = ?n"
    using utf8_size_prefix [OF assms(1), of t] m by simp
  have c: "c \<noteq> quote" "c \<noteq> backslash" "\<not> ord c < 0x20" using assms(2) by auto
  have l: "length (take m cs) = m" using n m by simp
  have "scan_string (c # take m cs @ t) =
      map_option (\<lambda>(s, u). (take (Suc m) (c # take m cs @ t) @ s, u)) (scan_string (drop m (take m cs @ t)))"
    using c assms(2) by (simp add: size m del: take_Suc_Cons)
  then show ?thesis using l by (simp add: m)
qed

lemma unescape_line_seps:
  "unescape_u (CHR ''2'' # CHR ''0'' # CHR ''2'' # CHR ''8'' # t) = Some ([CHR 0xE2, CHR 0x80, CHR 0xA8], t)"
  "unescape_u (CHR ''2'' # CHR ''0'' # CHR ''2'' # CHR ''9'' # t) = Some ([CHR 0xE2, CHR 0x80, CHR 0xA9], t)"
proof -
  have "encode_rune 0x2028 = [CHR 0xE2, CHR 0x80, CHR 0xA8]" "encode_rune 0x2029 = [CHR 0xE2, CHR 0x80, CHR 0xA9]"
    by code_simp+
  then show "unescape_u (CHR ''2'' # CHR ''0'' # CHR ''2'' # CHR ''8'' # t) = Some ([CHR 0xE2, CHR 0x80, CHR 0xA8], t)"
    and "unescape_u (CHR ''2'' # CHR ''0'' # CHR ''2'' # CHR ''9'' # t) = Some ([CHR 0xE2, CHR 0x80, CHR 0xA9], t)"
    by (simp_all add: unescape_u_def hex4_def hex_value_def is_digit_def digit_val_def)
qed

lemma utf8_size_line_seps:
  "utf8_size (CHR 0xE2 # CHR 0x80 # CHR 0xA8 # t) = 3" "utf8_size (CHR 0xE2 # CHR 0x80 # CHR 0xA9 # t) = 3"
  by (simp_all add: utf8_size_def cont_byte_def)

text \<open>Every valid UTF-8 string survives escaping and scanning.\<close>

lemma scan_escape:
  "utf8_valid s \<Longrightarrow> scan_string (escape s @ quote # r) = Some (s, r)"
proof (induction s rule: escape.induct)
  case (2 c cs)
  show ?case
  proof (cases "ord c < 0x80")
    case True
    with 2 show ?thesis by (simp add: scan_escape_ascii)
  next
    case False
    let ?n = "utf8_size (c # cs)"
    from False "2.prems" have n: "?n \<noteq> 0" and v: "utf8_valid (drop (?n - 1) cs)" by auto
    consider (ls) "take 3 (c # cs) = [CHR 0xE2, CHR 0x80, CHR 0xA8]"
      | (ps) "take 3 (c # cs) = [CHR 0xE2, CHR 0x80, CHR 0xA9]"
      | (copy) "take 3 (c # cs) \<noteq> [CHR 0xE2, CHR 0x80, CHR 0xA8]" "take 3 (c # cs) \<noteq> [CHR 0xE2, CHR 0x80, CHR 0xA9]"
      by blast
    then show ?thesis
    proof cases
      case ls
      then obtain r' where cs: "c = CHR 0xE2" "cs = CHR 0x80 # CHR 0xA8 # r'"
        by (cases cs; cases "tl cs"; auto)
      with "2.IH"(3) ls False n v show ?thesis
        by (simp add: Let_def unescape_def unescape_line_seps utf8_size_line_seps)
    next
      case ps
      then obtain r' where cs: "c = CHR 0xE2" "cs = CHR 0x80 # CHR 0xA9 # r'"
        by (cases cs; cases "tl cs"; auto)
      with "2.IH"(4) ps False n v show ?thesis
        by (simp add: Let_def unescape_def unescape_line_seps utf8_size_line_seps)
    next
      case copy
      then have "escape (c # cs) = take ?n (c # cs) @ escape (drop (?n - 1) cs)"
        using False n by (auto simp add: Let_def simp del: take_Suc_Cons)
      moreover have "take ?n (c # cs) @ drop (?n - 1) cs = c # cs"
        using n by (cases ?n) simp_all
      moreover have "scan_string (escape (drop (?n - 1) cs) @ quote # r) = Some (drop (?n - 1) cs, r)"
        using "2.IH"(5) False n v copy by simp
      ultimately show ?thesis by (simp add: scan_multibyte [OF n False])
    qed
  qed
qed simp

end
