(* ===== verification/Float64_Text.thy ===== *)
theory Float64_Text
  imports Complex_Main Float64
begin

section \<open>The text of a finite number is read back exactly\<close>

text \<open>
  Correctness of the conversions of theory Float64: the rounding is a function of the value
  of a fraction and not of its representation, it gives every finite pattern back from its
  exact value, the search for the shortest decimal ends, and the printed text parses to the
  pattern it was printed from.
\<close>

subsection \<open>Fractions as real numbers\<close>

lemma scale_real:
  assumes "scale p q b k = (a, c)" and "0 < q" and "0 < b"
  shows "0 < c \<and> real a / real c = real p / real q * (real b) powi k"
  using assms
  by (auto simp: scale_def power_int_def field_simps split: if_splits)

lemma bit_len_bounds:
  assumes "0 < n"
  shows "2 ^ (bit_len n - 1) \<le> n \<and> n < 2 ^ bit_len n \<and> 0 < bit_len n"
  using assms
proof (induction n rule: bit_len.induct)
  case (1 n)
  show ?case
  proof (cases "n = 1")
    case True
    then show ?thesis by (simp add: bit_len.simps)
  next
    case False
    with 1 have IH: "2 ^ (bit_len (n div 2) - 1) \<le> n div 2 \<and> n div 2 < 2 ^ bit_len (n div 2) \<and>
        0 < bit_len (n div 2)"
      by auto
    then obtain l where l: "bit_len (n div 2) = Suc l" by (cases "bit_len (n div 2)") auto
    have "bit_len n = Suc (Suc l)" using "1.prems" l by (simp add: bit_len.simps [of n])
    with IH l show ?thesis by simp linarith
  qed
qed

lemma bit_len_log:
  assumes "0 < n"
  shows "real (bit_len n) - 1 \<le> log 2 (real n)" and "log 2 (real n) < real (bit_len n)"
proof -
  obtain l where l: "bit_len n = Suc l" using bit_len_bounds [OF assms] by (cases "bit_len n") auto
  have n: "2 ^ l \<le> n" "n < 2 ^ Suc l" using bit_len_bounds [OF assms] l by simp_all
  have "real (2 ^ l) \<le> real n" "real n < real (2 ^ Suc l)"
    using n by (simp_all only: of_nat_le_iff of_nat_less_iff)
  then show "real (bit_len n) - 1 \<le> log 2 (real n)" "log 2 (real n) < real (bit_len n)"
    using assms by (simp_all add: l le_log_iff log_less_iff powr_realpow powr_add)
qed

text \<open>The rounding exponent is a function of the value.\<close>

lemma round_exp_log:
  assumes "0 < p" and "0 < q"
  shows "round_exp p q = max (\<lfloor>log 2 (real p / real q)\<rfloor> - 52) (- 1074)"
proof -
  define x where "x = real p / real q"
  define e where "e = int (bit_len p) - int (bit_len q) - 53"
  obtain a c where s: "scale p q 2 (- e) = (a, c)" by fastforce
  from scale_real [OF s assms(2)] have c: "0 < c" and ac: "real a / real c = x * 2 powi (- e)"
    by (auto simp: x_def)
  have x: "0 < x" using assms by (simp add: x_def)
  have logx: "log 2 x = log 2 (real p) - log 2 (real q)"
    using assms by (simp add: log_divide x_def)
  have lo: "real_of_int (e + 52) < log 2 x" and hi: "log 2 x < real_of_int (e + 54)"
    using bit_len_log [OF assms(1)] bit_len_log [OF assms(2)] unfolding logx e_def by linarith+
  have pw: "2 powi (- e) = 2 powr (- real_of_int e)" and p53: "(9007199254740992 :: real) = 2 powr 53"
    by (simp_all flip: powr_real_of_int')
  have "9007199254740992 * c \<le> a \<longleftrightarrow> real (9007199254740992 * c) \<le> real a"
    by (simp only: of_nat_le_iff)
  also have "\<dots> \<longleftrightarrow> 2 powr 53 \<le> real a / real c"
    using c by (simp add: pos_le_divide_eq flip: p53)
  also have "\<dots> \<longleftrightarrow> 2 powr (53 + real_of_int e) \<le> x"
    unfolding ac pw powr_minus powr_add by (simp only: divide_inverse [symmetric] pos_le_divide_eq powr_gt_zero)
  also have "\<dots> \<longleftrightarrow> real_of_int (53 + e) \<le> log 2 x"
    using x by (simp add: le_log_iff)
  finally have test: "9007199254740992 * c \<le> a \<longleftrightarrow> real_of_int (53 + e) \<le> log 2 x" .
  have "\<lfloor>log 2 x\<rfloor> = (if 9007199254740992 * c \<le> a then e + 53 else e + 52)"
    unfolding test using lo hi by (auto intro!: floor_unique simp: algebra_simps)
  then show ?thesis by (simp add: round_exp_def Let_def s add.commute flip: e_def x_def)
qed

text \<open>Rounding a fraction is a function of its value.\<close>

lemma round_half_even_mult: "0 < c \<Longrightarrow> round_half_even (c * a) (c * b) = round_half_even a b"
  by (simp add: round_half_even_def Let_def flip: mult_mod_right mult.left_commute)

lemma round_half_even_ratio:
  assumes "0 < b" and "0 < b'" and "real a / real b = real a' / real b'"
  shows "round_half_even a b = round_half_even a' b'"
proof -
  have "real (b' * a) = real (b * a')" using assms by (simp add: field_simps)
  then have "b' * a = b * a'" by (simp only: of_nat_eq_iff)
  then have "round_half_even (b' * a) (b' * b) = round_half_even (b * a') (b * b')"
    by (simp add: mult.commute)
  then show ?thesis using assms by (simp add: round_half_even_mult)
qed

lemma round_mag_ratio:
  assumes "0 < q" and "0 < q'" and "real p / real q = real p' / real q'"
  shows "round_mag p q = round_mag p' q'"
proof (cases "p = 0")
  case True
  then show ?thesis using assms by (simp add: round_mag_def)
next
  case False
  then have p: "0 < p" by simp
  then have "0 < real p' / real q'" using assms by (simp flip: assms(3))
  then have p': "0 < p'" using assms by (simp add: zero_less_divide_iff)
  have e: "round_exp p q = round_exp p' q'"
    using round_exp_log [OF p assms(1)] round_exp_log [OF p' assms(2)] assms(3) by simp
  obtain a b where s: "scale p q 2 (- round_exp p q) = (a, b)" by fastforce
  obtain a' b' where s': "scale p' q' 2 (- round_exp p' q') = (a', b')" by fastforce
  have "round_half_even a b = round_half_even a' b'"
    using scale_real [OF s assms(1)] scale_real [OF s' assms(2)] e assms(3)
    by (intro round_half_even_ratio) auto
  then show ?thesis using p p' s s' by (simp add: round_mag_def Let_def e)
qed

subsection \<open>The exact value of a pattern rounds to the pattern\<close>

lemma f64_sig_pow:
  assumes "f64_finite w"
  shows "f64_mag w = nat (f64_pow w + 1074) * 4503599627370496 + f64_sig w"
    and "f64_sig w < 9007199254740992" and "- 1074 \<le> f64_pow w" and "f64_pow w \<le> 971"
    and "f64_pow w = - 1074 \<or> 4503599627370496 \<le> f64_sig w"
proof -
  have m: "f64_mag w = f64_exp w * 4503599627370496 + f64_frac w"
    by (simp add: f64_exp_def f64_frac_def)
  have f: "f64_frac w < 4503599627370496" by (simp add: f64_frac_def)
  have e: "f64_exp w \<le> 2046" using assms f64_exp_bound [of w] by (simp add: f64_finite_def)
  show "f64_mag w = nat (f64_pow w + 1074) * 4503599627370496 + f64_sig w"
    unfolding m f64_sig_def f64_pow_def by (auto simp: nat_diff_distrib algebra_simps)
  show "f64_sig w < 9007199254740992" "- 1074 \<le> f64_pow w" "f64_pow w \<le> 971"
    "f64_pow w = - 1074 \<or> 4503599627370496 \<le> f64_sig w"
    using f e by (auto simp: f64_sig_def f64_pow_def)
qed

lemma round_mag_exact:
  assumes fin: "f64_finite w" and nz: "f64_mag w \<noteq> 0" and q: "0 < q"
    and val: "real p / real q = real (f64_sig w) * 2 powi f64_pow w"
  shows "round_mag p q = f64_mag w"
proof -
  note sp = f64_sig_pow [OF fin]
  let ?s = "f64_sig w" and ?e = "f64_pow w"
  have s: "0 < ?s" using nz sp(1,5) by auto
  then have "0 < real p / real q" using val by (simp add: zero_less_power_int)
  then have p: "0 < p" using q by (simp add: zero_less_divide_iff)
  have "log 2 (real p / real q) = log 2 (real ?s) + real_of_int ?e"
    using s by (simp add: val log_mult zero_less_power_int flip: powr_real_of_int')
  then have fl: "\<lfloor>log 2 (real p / real q)\<rfloor> = \<lfloor>log 2 (real ?s)\<rfloor> + ?e" by simp
  define l where "l = \<lfloor>log 2 (real ?s)\<rfloor>"
  have up: "l < 53"
    using s sp(2) by (simp add: l_def floor_less_iff log_less_iff)
  have lo: "52 \<le> l" if "4503599627370496 \<le> ?s"
    using s that by (simp add: l_def le_floor_iff le_log_iff)
  have e: "round_exp p q = ?e"
    unfolding round_exp_log [OF p q] fl l_def [symmetric] using up lo sp(3,5) by auto
  obtain a b where sc: "scale p q 2 (- ?e) = (a, b)" by fastforce
  have "0 < b" and "real a / real b = real ?s / real (1::nat)"
    using scale_real [OF sc q] by (simp_all add: val power_int_minus)
  then have "round_half_even a b = round_half_even ?s 1" by (intro round_half_even_ratio) simp_all
  then have "round_half_even a b = ?s" by (simp add: round_half_even_def)
  then show ?thesis using p sp(1) by (simp add: round_mag_def Let_def e sc)
qed

subsection \<open>The search for the shortest decimal\<close>

lemma shortest_sound: "shortest fuel mag p q dp n = Some (d, k) \<Longrightarrow> reads_as mag d k"
proof (induction fuel arbitrary: n)
  case (Suc fuel)
  then show ?case by (auto simp: Let_def split: if_splits prod.splits)
qed simp

text \<open>The search stops at the latest where the decimal is exact.\<close>

lemma shortest_complete:
  assumes "n \<le> n'" and "n' < n + fuel"
    and exact: "\<And>a b. scale p q 10 (int n' - dp) = (a, b) \<Longrightarrow> reads_as mag (a div b) (dp - int n')"
  shows "shortest fuel mag p q dp n \<noteq> None"
  using assms(1,2)
proof (induction fuel arbitrary: n)
  case (Suc fuel)
  obtain a b where sc: "scale p q 10 (int n - dp) = (a, b)" by fastforce
  show ?case
  proof (cases "n = n'")
    case True
    then show ?thesis using exact [OF sc [unfolded True]] sc True by (simp add: Let_def)
  next
    case False
    then have "shortest fuel mag p q dp (n + 1) \<noteq> None" using Suc.prems by (intro Suc.IH) auto
    then show ?thesis by (simp add: Let_def split: prod.split)
  qed
qed simp

lemma show_nat_length: "n < 10 ^ k \<Longrightarrow> 0 < k \<Longrightarrow> length (show_nat n) \<le> k"
proof (induction n arbitrary: k rule: show_nat.induct)
  case (1 n)
  show ?case
  proof (cases "n < 10")
    case True
    then show ?thesis using "1.prems" by (simp add: show_nat.simps [of n])
  next
    case False
    with "1.prems" obtain j where k: "k = Suc j" "0 < j" by (cases k; cases "k - 1") auto
    then have "n div 10 < 10 ^ j" using "1.prems"(1) by (simp add: less_mult_imp_div_less mult.commute)
    then have "length (show_nat (n div 10)) \<le> j" using "1.IH" False k by simp
    then show ?thesis using False k by (simp add: show_nat.simps [of n])
  qed
qed

lemma reads_as_exact:
  assumes "f64_finite w" "f64_mag w \<noteq> 0"
    and "real d * 10 powi k = real (f64_sig w) * 2 powi f64_pow w"
  shows "reads_as (f64_mag w) d k"
proof -
  obtain a b where s: "scale d 1 10 k = (a, b)" by fastforce
  then have "0 < b" and "real a / real b = real d * 10 powi k"
    using scale_real [OF s] by auto
  then show ?thesis using round_mag_exact [OF assms(1,2)] assms(3) s by (simp add: reads_as_def)
qed

lemma shortest_decimal_exists:
  assumes fin: "f64_finite w" and nz: "f64_mag w \<noteq> 0"
  shows "shortest_decimal w \<noteq> None"
proof -
  note sp = f64_sig_pow [OF fin]
  obtain p q where pq: "scale (f64_sig w) 1 2 (f64_pow w) = (p, q)" by fastforce
  have q: "0 < q" and val: "real p / real q = real (f64_sig w) * 2 powi f64_pow w"
    using scale_real [OF pq] by auto
  define dp where "dp = decimal_point p q"
  define N where "N = (if 0 \<le> f64_pow w then 0 else 1074 :: int)"
  define n where "n = nat (max 1 (dp + N))"
  have s: "f64_sig w < 10 ^ 16" "0 < f64_sig w" using sp(2) nz sp(1,5) by auto
  have dp: "dp \<le> 309 \<and> (N = 1074 \<longrightarrow> dp \<le> 16) \<and> (N = 0 \<longrightarrow> 1 \<le> dp)"
  proof (cases "0 \<le> f64_pow w")
    case True
    then have pq': "p = f64_sig w * 2 ^ nat (f64_pow w)" "q = 1" using pq by (auto simp: scale_def)
    have "p < 9007199254740992 * 2 ^ 971"
      unfolding pq' using sp(2,4) by (intro mult_less_le_imp_less power_increasing) auto
    also have "\<dots> < 10 ^ 309" by simp
    finally have "length (show_nat p) \<le> 309" by (intro show_nat_length) auto
    moreover have "0 < p" using s pq' by simp
    moreover have "0 < length (show_nat p)" by simp
    ultimately show ?thesis using True pq' by (simp add: dp_def decimal_point_def N_def Suc_le_eq)
  next
    case False
    then have "p = f64_sig w" using pq by (auto simp: scale_def)
    then have "p div q < 10 ^ 16" using s by (meson div_le_dividend le_less_trans)
    then have "length (show_nat (p div q)) \<le> 16" by (intro show_nat_length) auto
    then show ?thesis using False by (auto simp: dp_def decimal_point_def N_def)
  qed
  have n: "1 \<le> n" "n < 1 + 1400" "N \<le> int n - dp" "N = 0 \<Longrightarrow> int n - dp = 0"
    using dp by (auto simp: n_def N_def split: if_splits)
  have "shortest 1400 (f64_mag w) p q dp 1 \<noteq> None"
  proof (rule shortest_complete [OF n(1,2)])
    fix a b assume sc: "scale p q 10 (int n - dp) = (a, b)"
    have "0 < b" and ab: "real a / real b = real p / real q * 10 powi (int n - dp)"
      using scale_real [OF sc q] by auto
    have "b dvd a"
    proof (cases "0 \<le> f64_pow w")
      case True
      then show ?thesis using pq sc n(4) by (auto simp: scale_def N_def)
    next
      case False
      then have "b = 2 ^ nat (- f64_pow w)" "a = p * 10 ^ nat (int n - dp)"
        using pq sc n(3) by (auto simp: scale_def N_def)
      moreover have "nat (- f64_pow w) \<le> nat (int n - dp)" using False sp(3) n(3) by (auto simp: N_def)
      then have "(2::nat) ^ nat (- f64_pow w) dvd 10 ^ nat (int n - dp)"
        by (rule dvd_trans [OF le_imp_power_dvd dvd_power_same]) simp
      ultimately show ?thesis by simp
    qed
    then have "real (a div b) = real p / real q * 10 powi (int n - dp)"
      by (simp add: real_of_nat_div ab)
    then have "real (a div b) * 10 powi (dp - int n) = real p / real q"
      by (simp add: mult.assoc flip: power_int_add)
    then show "reads_as (f64_mag w) (a div b) (dp - int n)"
      by (intro reads_as_exact [OF fin nz]) (simp add: val)
  qed
  then show ?thesis unfolding shortest_decimal_def pq prod.case dp_def .
qed

subsection \<open>The digits of a finite number\<close>

lemma digits_val_append: "digits_val (s @ t) = digits_val s * 10 ^ length t + digits_val t"
proof (induction t rule: rev_induct)
  case (snoc c t)
  have "digits_val ((s @ t) @ [c]) = (digits_val s * 10 ^ length t + digits_val t) * 10 + digit_val c"
    by (simp only: digits_val_snoc snoc.IH)
  then show ?case by (simp add: digits_val_snoc algebra_simps)
qed (simp add: digits_val_def)

lemma digits_val_zeros [simp]: "digits_val (replicate n (CHR ''0'')) = 0"
  by (induction n) (simp_all add: digits_val_def digit_val_def)

lemma strip_zeros_split:
  obtains n where "s = strip_zeros s @ replicate n (CHR ''0'')"
    and "strip_zeros s = [] \<or> last (strip_zeros s) \<noteq> CHR ''0''"
proof
  let ?z = "takeWhile (\<lambda>c. c = CHR ''0'') (rev s)"
  have "rev s = ?z @ dropWhile (\<lambda>c. c = CHR ''0'') (rev s)" by simp
  then have "s = strip_zeros s @ rev ?z" unfolding strip_zeros_def by (metis rev_append rev_rev_ident)
  moreover have "rev ?z = replicate (length (rev ?z)) (CHR ''0'')"
    by (rule replicate_length_same [symmetric]) (auto dest: set_takeWhileD)
  ultimately show "s = strip_zeros s @ replicate (length (rev ?z)) (CHR ''0'')" by argo
  show "strip_zeros s = [] \<or> last (strip_zeros s) \<noteq> CHR ''0''"
    using hd_dropWhile [of "\<lambda>c. c = CHR ''0''" "rev s"] by (auto simp: strip_zeros_def last_rev)
qed

lemma f64_digits_value:
  assumes fin: "f64_finite w" and nz: "f64_mag w \<noteq> 0" and dg: "f64_digits w = (ds, dp)"
  shows "list_all is_digit ds" and "ds \<noteq> []"
    and "\<And>p q. 0 < q \<Longrightarrow> real p / real q = real (digits_val ds) * 10 powi (dp - int (length ds)) \<Longrightarrow>
           round_mag p q = f64_mag w"
proof -
  obtain d k where dk: "shortest_decimal w = Some (d, k)" using shortest_decimal_exists [OF fin nz] by auto
  then have r: "reads_as (f64_mag w) d k"
    unfolding shortest_decimal_def by (auto split: prod.splits dest: shortest_sound)
  have ds: "ds = strip_zeros (show_nat d)" and dp: "dp = int (length (show_nat d)) + k"
    using dg dk nz by (auto simp: f64_digits_def)
  obtain n where n: "show_nat d = ds @ replicate n (CHR ''0'')" using strip_zeros_split ds by metis
  then show "list_all is_digit ds" using show_nat_digits [of d] by simp
  have val: "d = digits_val ds * 10 ^ n"
    using arg_cong [OF n, of digits_val] by (simp add: digits_val_append)
  have "d \<noteq> 0"
  proof
    assume "d = 0"
    then show False using r nz by (simp add: reads_as_def scale_def round_mag_def split: if_splits)
  qed
  then show "ds \<noteq> []" using val by (auto simp: digits_val_def)
  fix p q assume q: "0 < q" and v: "real p / real q = real (digits_val ds) * 10 powi (dp - int (length ds))"
  obtain a b where ab: "scale d 1 10 k = (a, b)" by fastforce
  have "dp - int (length ds) = int n + k" unfolding dp n by simp
  then have "real p / real q = real d * 10 powi k"
    unfolding v by (simp add: val power_int_add)
  also have "\<dots> = real a / real b" using scale_real [OF ab] by simp
  finally have "round_mag p q = round_mag a b"
    using scale_real [OF ab] q by (intro round_mag_ratio) auto
  then show "round_mag p q = f64_mag w" using r ab by (simp add: reads_as_def)
qed

subsection \<open>Reading a decimal text\<close>

lemma read_mant_digits:
  assumes "list_all is_digit s"
  shows "read_mant False m f dot dig (s @ r) =
         read_mant False (foldl (\<lambda>n c. n * 10 + digit_val c) m s) (if dot then f + length s else f) dot
           (dig \<or> s \<noteq> []) r"
  using assms
proof (induction s arbitrary: m f dig)
  case (Cons c s)
  then show ?case by (auto simp: is_digit_def)
qed simp

lemma read_exp_digits:
  assumes "list_all is_digit s" and "foldl (\<lambda>n c. n * 10 + digit_val c) e s < 10000"
  shows "read_exp e s = (foldl (\<lambda>n c. n * 10 + digit_val c) e s, [])"
  using assms
proof (induction s arbitrary: e)
  case (Cons c s)
  have "e \<le> e * 10 + digit_val c" by simp
  also have "\<dots> < 10000"
    using foldl_digits_ge [of "e * 10 + digit_val c" s] Cons.prems(2) by simp
  finally show ?case using Cons by (auto simp: is_digit_def)
qed simp

definition sign_text :: "bool \<Rightarrow> string" where
  "sign_text neg = (if neg then ''-'' else [])"

definition exp_text :: "int option \<Rightarrow> string \<Rightarrow> bool" where
  "exp_text e s =
     (case e of
        None \<Rightarrow> s = []
      | Some k \<Rightarrow> (\<exists>es. s = CHR ''e'' # (if k < 0 then CHR ''-'' else CHR ''+'') # es \<and>
                   es \<noteq> [] \<and> list_all is_digit es \<and> int (digits_val es) = abs k \<and> digits_val es < 10000))"

lemma is_digit_plain:
  "is_digit c \<Longrightarrow> c \<noteq> CHR ''-'' \<and> c \<noteq> CHR ''+'' \<and> c \<noteq> CHR ''.'' \<and> c \<noteq> CHR ''_'' \<and> lower c = c \<and>
     c \<noteq> CHR ''x'' \<and> c \<noteq> CHR ''i'' \<and> c \<noteq> CHR ''n''"
  by (auto simp: is_digit_def lower_def)

lemma number_lower: "is_digit x \<or> x \<in> set ''.e+-'' \<Longrightarrow> lower x \<noteq> CHR ''x''"
  using is_digit_plain [of x] by (auto simp: lower_def)

lemma no_hex_prefix:
  "\<forall>x \<in> set t. lower x \<noteq> CHR ''x'' \<Longrightarrow>
   (case t of z # x # _ # _ \<Rightarrow> z = CHR ''0'' \<and> lower x = CHR ''x'' | _ \<Rightarrow> False) = False"
  by (auto split: list.splits)

text \<open>
  A text of the form sign, integer digits, optional fraction, optional exponent is read as
  the number it denotes.
\<close>

definition decimal_text :: "bool \<Rightarrow> string \<Rightarrow> string \<Rightarrow> int option \<Rightarrow> string \<Rightarrow> bool" where
  "decimal_text neg ip fp e s =
     (\<exists>ex. s = sign_text neg @ ip @ (if fp = [] then [] else CHR ''.'' # fp) @ ex \<and> exp_text e ex \<and>
        ip \<noteq> [] \<and> list_all is_digit ip \<and> list_all is_digit fp)"

lemma decimal_text_mant:
  assumes ip: "list_all is_digit ip" "ip \<noteq> []" and fp: "list_all is_digit fp" and ex: "exp_text e ex"
  shows "read_mant False 0 0 False False (ip @ (if fp = [] then [] else CHR ''.'' # fp) @ ex) =
         (digits_val (ip @ fp), length fp, True, ex)"
proof -
  have ex': "read_mant False m f dot dig ex = (m, f, dig, ex)" for m f dot dig
    using ex by (auto simp: exp_text_def is_digit_def split: option.splits)
  show ?thesis using ip fp by (auto simp: read_mant_digits ex' digits_val_def)
qed

lemma readFloat_decimal:
  assumes "decimal_text neg ip fp e s"
  shows "readFloat s =
         Some (neg, False, digits_val (ip @ fp), (case e of None \<Rightarrow> 0 | Some k \<Rightarrow> k) - int (length fp))"
proof -
  obtain ex where s: "s = sign_text neg @ ip @ (if fp = [] then [] else CHR ''.'' # fp) @ ex"
    and ex: "exp_text e ex" and ip: "ip \<noteq> []" "list_all is_digit ip" and fp: "list_all is_digit fp"
    using assms unfolding decimal_text_def by blast
  let ?t = "ip @ (if fp = [] then [] else CHR ''.'' # fp) @ ex"
  obtain c r where c: "ip = c # r" "is_digit c" using ip by (cases ip) auto
  have hd: "strip_sign s = ?t" "(case s of c # _ \<Rightarrow> c = CHR ''-'' | [] \<Rightarrow> False) = neg"
    using is_digit_plain [OF c(2)] by (auto simp: s c(1) strip_sign_def sign_text_def)
  have all: "\<forall>x \<in> set ?t. is_digit x \<or> x \<in> set ''.e+-''"
    using ip fp ex by (auto simp: exp_text_def list_all_iff split: option.splits)
  then have "\<forall>x \<in> set ?t. lower x \<noteq> CHR ''x''" using number_lower by blast
  then have hex: "(case ?t of z # x # _ # _ \<Rightarrow> z = CHR ''0'' \<and> lower x = CHR ''x'' | _ \<Rightarrow> False) = False"
    by (rule no_hex_prefix)
  have "\<not> is_digit (CHR ''_'')" by (simp add: is_digit_def)
  then have "CHR ''_'' \<notin> set ?t" using all by fastforce
  then have us: "CHR ''_'' \<notin> set s" by (simp add: s sign_text_def)
  note mant = decimal_text_mant [OF ip(2,1) fp ex]
  show ?thesis
  proof (cases e)
    case None
    then have "ex = []" using ex by (simp add: exp_text_def)
    then show ?thesis using mant hd hex us None by (simp add: readFloat_def Let_def)
  next
    case (Some k)
    then obtain es where es: "ex = CHR ''e'' # (if k < 0 then CHR ''-'' else CHR ''+'') # es"
      "es \<noteq> []" "list_all is_digit es" "int (digits_val es) = abs k" "digits_val es < 10000"
      using ex by (auto simp: exp_text_def)
    have "read_exp 0 es = (digits_val es, [])"
      using read_exp_digits [of es 0] es(3,5) by (simp add: digits_val_def)
    moreover have "is_digit (hd es)" using es(2,3) by (cases es) auto
    moreover have "strip_sign ((if k < 0 then CHR ''-'' else CHR ''+'') # es) = es"
      by (simp add: strip_sign_def)
    ultimately show ?thesis
      using mant hd hex us Some es(2,4) unfolding readFloat_def Let_def
      by (simp add: es(1) lower_def)
  qed
qed

lemma special_float_digit:
  assumes "decimal_text neg ip fp e s"
  shows "special_float s = None"
proof -
  obtain c r where s: "s = sign_text neg @ c # r" and c: "is_digit c"
    using assms unfolding decimal_text_def by (metis append_Cons list.exhaust list.pred_inject(2))
  show ?thesis using is_digit_plain [OF c] by (auto simp: special_float_def s sign_text_def lower_def)
qed

lemma f64_finite_mag: "f64_finite w \<Longrightarrow> f64_mag w < overflow_mag"
  using f64_exp_bound [of w] by (auto simp: f64_finite_def f64_exp_def overflow_mag_def)

lemma with_sign_mag: "with_sign (f64_neg w) (of_nat (f64_mag w)) = w"
proof (cases "f64_neg w")
  case True
  have "unat w < 18446744073709551616" using unsigned_less [where 'a = nat, of w] by simp
  then have "unat w = f64_mag w + 9223372036854775808"
    using True le_mod_geq [of 9223372036854775808 "unat w"] by (simp add: f64_neg_def f64_mag_def)
  then have "(of_nat (unat w) :: float64) = of_nat (f64_mag w + 9223372036854775808)" by (rule arg_cong)
  then have "of_nat (f64_mag w) + 9223372036854775808 = w" by simp
  then show ?thesis using True by (simp add: with_sign_def)
next
  case False
  then have "f64_mag w = unat w" by (simp add: f64_neg_def f64_mag_def)
  then show ?thesis using False by (simp add: with_sign_def)
qed

lemma ParseFloat_decimal:
  assumes dt: "decimal_text neg ip fp e s"
    and mag: "\<And>p q. 0 < q \<Longrightarrow> real p / real q =
                real (digits_val (ip @ fp)) * 10 powi ((case e of None \<Rightarrow> 0 | Some k \<Rightarrow> k) - int (length fp)) \<Longrightarrow>
                round_mag p q = f64_mag w"
    and fin: "f64_finite w" and neg: "neg = f64_neg w"
  shows "ParseFloat s = Inr w"
proof -
  let ?k = "(case e of None \<Rightarrow> 0 | Some k \<Rightarrow> k) - int (length fp)"
  obtain a b where ab: "scale (digits_val (ip @ fp)) 1 10 ?k = (a, b)" by fastforce
  have "round_mag a b = f64_mag w" using scale_real [OF ab] by (intro mag) auto
  then have "to_float64 neg a b = Some w"
    using f64_finite_mag [OF fin] neg by (simp add: to_float64_def Let_def with_sign_mag)
  then show ?thesis
    using ab by (simp add: ParseFloat_def special_float_digit [OF dt] readFloat_decimal [OF dt])
qed

subsection \<open>The printed text\<close>

lemma digits_val_0 [simp]: "digits_val ''0'' = 0"
  by (simp add: digits_val_def digit_val_def)

lemma digits_val_Cons_0: "digits_val (CHR ''0'' # s) = digits_val s"
  by (simp add: digits_val_def digit_val_def)

lemma fmtF_zero: "fmtF neg [] 0 = sign_text neg @ ''0''"
  by (simp add: fmtF_def sign_text_def)

lemma fmtF_decimal:
  assumes "list_all is_digit ds" and "ds \<noteq> []"
  obtains ip fp where "decimal_text neg ip fp None (fmtF neg ds dp)"
    and "real (digits_val (ip @ fp)) * 10 powi (- int (length fp)) =
         real (digits_val ds) * 10 powi (dp - int (length ds))"
    and "ip = ''0'' \<or> hd ip = hd ds"
proof -
  let ?ip = "if 0 < dp then take (nat dp) ds @ replicate (nat dp - length ds) (CHR ''0'') else ''0''"
  let ?fp = "if int (length ds) - dp \<le> 0 then [] else replicate (nat (- dp)) (CHR ''0'') @ drop (nat dp) ds"
  have z: "is_digit (CHR ''0'')" by (simp add: is_digit_def)
  have tk: "list_all is_digit (take n ds)" "list_all is_digit (drop n ds)" for n
    using assms(1) by (auto simp: list_all_iff dest: in_set_takeD in_set_dropD)
  have "decimal_text neg ?ip ?fp None (fmtF neg ds dp)"
    unfolding decimal_text_def exp_text_def fmtF_def sign_text_def
    using assms tk z by (auto simp: list_all_iff)
  moreover have "real (digits_val (?ip @ ?fp)) * 10 powi (- int (length ?fp)) =
         real (digits_val ds) * 10 powi (dp - int (length ds))"
  proof (cases "0 < dp")
    case False
    then have lt: "dp < int (length ds)" using assms(2) by (cases ds) auto
    then have "digits_val (?ip @ ?fp) = digits_val ds"
      using False by (simp add: digits_val_append digits_val_Cons_0)
    moreover have "- int (length ?fp) = dp - int (length ds)" using False assms(2) by simp
    ultimately show ?thesis by presburger
  next
    case True
    show ?thesis
    proof (cases "int (length ds) \<le> dp")
      case le: True
      then have "digits_val (?ip @ ?fp) = digits_val ds * 10 ^ (nat dp - length ds)"
        using True by (simp add: digits_val_append)
      moreover have "(10 :: real) ^ (nat dp - length ds) = 10 powi (dp - int (length ds))"
        using le True by (simp add: power_int_def nat_diff_distrib)
      ultimately show ?thesis using le by simp
    next
      case False
      then have "?ip @ ?fp = ds" "- int (length ?fp) = dp - int (length ds)"
        using True by auto
      then show ?thesis by presburger
    qed
  qed
  moreover have "?ip = ''0'' \<or> hd ?ip = hd ds" using assms(2) by (cases ds) auto
  ultimately show ?thesis by (rule that)
qed

lemma round_mag_zero [simp]: "round_mag 0 q = 0"
  by (simp add: round_mag_def)

lemma decimal_text_zero: "decimal_text neg ''0'' [] None (sign_text neg @ ''0'')"
  by (simp add: decimal_text_def exp_text_def is_digit_def)

text \<open>
  What \<^verbatim>\<open>strconv.FormatFloat(x, 'f', -1, 64)\<close> prints for a finite number, \<^verbatim>\<open>strconv.ParseFloat\<close>
  reads back to the same 64 bits: negative zero, denormals and the largest numbers included.
\<close>

lemma ParseFloat_FormatFloat_f:
  assumes fin: "f64_finite w"
  shows "ParseFloat (FormatFloat_f w) = Inr w"
proof -
  obtain ds dp where dg: "f64_digits w = (ds, dp)" by fastforce
  have ft: "FormatFloat_f w = fmtF (f64_neg w) ds dp"
    using fin f64_trichotomy [of w] by (auto simp: FormatFloat_f_def dg)
  show ?thesis
  proof (cases "f64_mag w = 0")
    case True
    then have "FormatFloat_f w = sign_text (f64_neg w) @ ''0''"
      using dg ft by (auto simp: f64_digits_def fmtF_zero)
    then show ?thesis
      using ParseFloat_decimal [OF decimal_text_zero _ fin refl] True by simp
  next
    case False
    note d = f64_digits_value [OF fin False dg]
    obtain ip fp where t: "decimal_text (f64_neg w) ip fp None (fmtF (f64_neg w) ds dp)"
      and v: "real (digits_val (ip @ fp)) * 10 powi (- int (length fp)) =
         real (digits_val ds) * 10 powi (dp - int (length ds))"
      using fmtF_decimal [OF d(1,2)] .
    show ?thesis unfolding ft
      by (rule ParseFloat_decimal [OF t _ fin refl]) (use d(3) v in simp)
  qed
qed

end
