(* ===== verification/Json_Number.thy ===== *)
theory Json_Number
  imports Json Float64_Text
begin

section \<open>The JSON text of a number is read back exactly\<close>

text \<open>
  The exponent form that \<^verbatim>\<open>encoding/json\<close> uses for very small and very large numbers, the
  bound on its exponent, and that the scanner takes exactly the printed literal.
\<close>

subsection \<open>The decimal exponent is small\<close>

lemma show_nat_bound: "n < 10 ^ length (show_nat n)"
proof (induction n rule: show_nat.induct)
  case (1 n)
  show ?case
  proof (cases "n < 10")
    case True
    then show ?thesis by (simp add: show_nat.simps [of n])
  next
    case False
    then have "n div 10 < 10 ^ length (show_nat (n div 10))" using 1 by simp
    then show ?thesis using False by (simp add: show_nat.simps [of n])
  qed
qed

lemma lead_zeros_bound: "p < q \<Longrightarrow> p * 10 ^ lead_zeros p q < q"
proof (induction p q rule: lead_zeros.induct)
  case (1 p q)
  show ?case
  proof (cases "p = 0 \<or> q \<le> p * 10")
    case True
    then show ?thesis using "1.prems" by (simp add: lead_zeros.simps [of p q])
  next
    case False
    then have "p * 10 * 10 ^ lead_zeros (p * 10) q < q" using 1 by simp
    then show ?thesis using False by (simp add: lead_zeros.simps [of p q] mult.assoc)
  qed
qed

lemma decimal_point_above:
  assumes "0 < q"
  shows "real p / real q < 10 powi decimal_point p q"
proof (cases "q \<le> p")
  case True
  let ?l = "length (show_nat (p div q))"
  have "p < 10 ^ ?l * q"
    using show_nat_bound [of "p div q"] div_less_iff_less_mult [OF assms] by blast
  then have "real p < real (10 ^ ?l * q)" by (simp only: of_nat_less_iff)
  then show ?thesis using True assms by (simp add: decimal_point_def field_simps)
next
  case False
  then have "real (p * 10 ^ lead_zeros p q) < real q"
    using lead_zeros_bound [of p q] by (simp only: of_nat_less_iff not_le)
  then show ?thesis using False assms by (simp add: decimal_point_def power_int_minus field_simps)
qed

lemma shortest_digits:
  assumes "shortest fuel mag p q dp n = Some (d, k)"
  shows "\<exists>n'. n \<le> n' \<and> n' < n + fuel \<and> k = dp - int n' \<and>
    (\<exists>a b. scale p q 10 (int n' - dp) = (a, b) \<and> d \<le> a div b + 1)"
  using assms
proof (induction fuel arbitrary: n)
  case (Suc fuel)
  obtain a b where s: "scale p q 10 (int n - dp) = (a, b)" by fastforce
  show ?case
  proof (cases "shortest fuel mag p q dp (n + 1) = Some (d, k)")
    case True
    then show ?thesis using Suc.IH [of "n + 1"] by (metis Suc_eq_plus1 Suc_leD add_Suc_shift)
  next
    case False
    then have "k = dp - int n \<and> d \<le> a div b + 1"
      using Suc.prems s by (auto simp: Let_def split: if_splits)
    then show ?thesis using s by (intro exI [of _ n]) auto
  qed
qed simp

lemma f64_fraction_bounds:
  assumes "f64_finite w" and "scale (f64_sig w) 1 2 (f64_pow w) = (p, q)"
  shows "0 < q" and "p < 10 ^ 309" and "q < 10 ^ 1074"
proof -
  note sp = f64_sig_pow [OF assms(1)]
  have "f64_sig w * 2 ^ nat (f64_pow w) < 9007199254740992 * 2 ^ 971"
    using sp(2,4) by (intro mult_less_le_imp_less power_increasing) auto
  also have "\<dots> < (10 :: nat) ^ 309" by simp
  finally have s: "f64_sig w * 2 ^ nat (f64_pow w) < 10 ^ 309" .
  have q: "(2 :: nat) ^ nat (- f64_pow w) \<le> 2 ^ 1074" using sp(3) by (intro power_increasing) auto
  also have "\<dots> < (10 :: nat) ^ 1074" by (rule power_strict_mono) auto
  finally have q': "(2 :: nat) ^ nat (- f64_pow w) < 10 ^ 1074" .
  show "0 < q" using assms(2) by (auto simp: scale_def split: if_splits)
  have "p = f64_sig w * 2 ^ nat (f64_pow w)" using assms(2) by (auto simp: scale_def split: if_splits)
  then show "p < 10 ^ 309" using s by (simp only:)
  have "q = 2 ^ nat (- f64_pow w)" using assms(2) by (auto simp: scale_def split: if_splits)
  then show "q < 10 ^ 1074" using q' by (simp only:)
qed

lemma decimal_point_bounds:
  assumes "0 < q" and "0 < p" and "p < 10 ^ 309" and "q < 10 ^ 1074"
  shows "- 1074 < decimal_point p q" and "decimal_point p q \<le> 309"
proof -
  have "p div q < 10 ^ 309" using assms(3) by (meson div_le_dividend le_less_trans)
  then have l: "length (show_nat (p div q)) \<le> 309" by (intro show_nat_length) auto
  have z: "lead_zeros p q < 1074" if "p < q"
  proof -
    have "10 ^ lead_zeros p q \<le> p * 10 ^ lead_zeros p q" using assms(2) by simp
    also have "\<dots> < 10 ^ 1074" using lead_zeros_bound [OF that] assms(4) by (rule less_trans)
    finally show ?thesis by (rule power_less_imp_less_exp [rotated]) simp
  qed
  show "- 1074 < decimal_point p q" using z by (auto simp: decimal_point_def)
  show "decimal_point p q \<le> 309" using l by (auto simp: decimal_point_def)
qed

lemma f64_digits_exp:
  assumes fin: "f64_finite w" and nz: "f64_mag w \<noteq> 0" and dg: "f64_digits w = (ds, dp)"
  shows "\<bar>dp - 1\<bar> < 10000"
proof -
  obtain p q where pq: "scale (f64_sig w) 1 2 (f64_pow w) = (p, q)" by fastforce
  note b = f64_fraction_bounds [OF fin pq]
  have "0 < f64_sig w" using f64_sig_pow [OF fin] nz by auto
  then have "0 < p" using pq by (auto simp: scale_def split: if_splits)
  note dpb = decimal_point_bounds [OF b(1) \<open>0 < p\<close> b(2,3)]
  obtain d k where dk: "shortest_decimal w = Some (d, k)" using shortest_decimal_exists [OF fin nz] by auto
  then have "shortest 1400 (f64_mag w) p q (decimal_point p q) 1 = Some (d, k)"
    unfolding shortest_decimal_def pq by simp
  from shortest_digits [OF this] obtain n u v where
    n: "n < 1401" "k = decimal_point p q - int n" and
    uv: "scale p q 10 (int n - decimal_point p q) = (u, v)" "d \<le> u div v + 1" by auto
  have "0 < v" and "real u / real v = real p / real q * 10 powi (int n - decimal_point p q)"
    using scale_real [OF uv(1) b(1)] by auto
  note this(2)
  also have "real p / real q * 10 powi (int n - decimal_point p q)
      < 10 powi decimal_point p q * 10 powi (int n - decimal_point p q)"
    by (intro mult_strict_right_mono decimal_point_above b(1)) simp
  also have "\<dots> = 10 ^ n" by (simp flip: power_int_add)
  finally have "real u < real (10 ^ n * v)" using \<open>0 < v\<close> by (simp add: field_simps)
  then have "u div v < 10 ^ n" using \<open>0 < v\<close> by (simp only: of_nat_less_iff div_less_iff_less_mult)
  then have "d < 10 ^ Suc n" using uv(2) by (simp; linarith)
  then have "length (show_nat d) \<le> Suc n" by (intro show_nat_length) auto
  moreover have "dp = int (length (show_nat d)) + k" using dg dk nz by (auto simp: f64_digits_def)
  ultimately show ?thesis using n dpb by linarith
qed

lemma show_nat_no_zero: "0 < n \<Longrightarrow> hd (show_nat n) \<noteq> CHR ''0''"
proof (induction n rule: show_nat.induct)
  case (1 n)
  show ?case
  proof (cases "n < 10")
    case True
    then show ?thesis
      using "1.prems" digit_val_char [of n] by (auto simp: show_nat.simps [of n] digit_val_def)
  next
    case False
    then show ?thesis using 1 by (simp add: show_nat.simps [of n])
  qed
qed

lemma f64_digits_head:
  assumes fin: "f64_finite w" and nz: "f64_mag w \<noteq> 0" and dg: "f64_digits w = (ds, dp)"
  shows "hd ds \<noteq> CHR ''0''"
proof -
  obtain d k where dk: "shortest_decimal w = Some (d, k)" using shortest_decimal_exists [OF fin nz] by auto
  have ds: "ds = strip_zeros (show_nat d)" using dg dk nz by (auto simp: f64_digits_def)
  obtain n where n: "show_nat d = ds @ replicate n (CHR ''0'')" using strip_zeros_split ds by metis
  have ne: "ds \<noteq> []" using f64_digits_value [OF fin nz dg] by simp
  have "show_nat 0 = ''0''" by code_simp
  then have "strip_zeros (show_nat 0) = []" by (simp add: strip_zeros_def)
  then have "d \<noteq> 0" using ne ds by metis
  then show ?thesis using show_nat_no_zero [of d] n ne by simp
qed

subsection \<open>The exponent form\<close>

lemma shorten_exp_text:
  assumes "list_all is_digit es" and "2 \<le> length es" and "sg = CHR ''-'' \<or> sg = CHR ''+''"
  shows "shorten_exp (pre @ CHR ''e'' # sg # es) =
         pre @ CHR ''e'' # sg # (if length es = 2 \<and> hd es = CHR ''0'' then tl es else es)"
proof (cases "length es = 2")
  case True
  then obtain x y where "es = [x, y]" by (auto simp: length_Suc_conv numeral_2_eq_2)
  then show ?thesis using assms(3) by (simp add: shorten_exp_def Let_def nth_append)
next
  case False
  let ?b = "pre @ CHR ''e'' # sg # es"
  have "?b ! (length ?b - 4) \<noteq> CHR ''e''"
  proof (cases "length es = 3")
    case True
    then show ?thesis using assms(3) by (auto simp: nth_append)
  next
    case long: False
    then have "4 \<le> length es" using False assms(2) by simp
    then obtain n where n: "length es = n + 4" by (metis le_add_diff_inverse2)
    then have "?b ! (length ?b - 4) = es ! (length es - 4)" by (simp add: nth_append)
    moreover have "is_digit (es ! (length es - 4))"
      using assms(1) \<open>4 \<le> length es\<close> by (simp add: list_all_length)
    ultimately show ?thesis by (auto simp: is_digit_def)
  qed
  then show ?thesis using False by (auto simp: shorten_exp_def Let_def)
qed

lemma drop_zero:
  assumes "list_all is_digit es" and "2 \<le> length es"
    and "fs = (if length es = 2 \<and> hd es = CHR ''0'' then tl es else es)"
  shows "list_all is_digit fs" "fs \<noteq> []" "digits_val fs = digits_val es"
  using assms by (cases es; auto simp: digits_val_Cons_0)+

lemma fmtE_shortened:
  assumes ds: "list_all is_digit (d # r)" and dp: "\<bar>dp - 1\<bar> < 10000"
  shows "decimal_text neg [d] r (Some (dp - 1)) (shorten_exp (fmtE neg (d # r) dp))"
proof -
  let ?n = "show_nat (nat \<bar>dp - 1\<bar>)"
  define es where "es = (if length ?n < 2 then CHR ''0'' # ?n else ?n)"
  define fs where "fs = (if length es = 2 \<and> hd es = CHR ''0'' then tl es else es)"
  define sg where "sg = (if dp - 1 < 0 then CHR ''-'' else CHR ''+'')"
  have b: "fmtE neg (d # r) dp =
      (sign_text neg @ [d] @ (if r = [] then [] else CHR ''.'' # r)) @ CHR ''e'' # sg # es"
    by (simp add: fmtE_def sign_text_def Let_def es_def sg_def)
  have dig: "list_all is_digit es" and len: "2 \<le> length es"
    using show_nat_digits [of "nat \<bar>dp - 1\<bar>"] by (auto simp: es_def is_digit_def Suc_le_eq numeral_2_eq_2)
  note fs = drop_zero [OF dig len fs_def]
  have val: "digits_val es = nat \<bar>dp - 1\<bar>" by (simp add: es_def digits_val_Cons_0)
  have "exp_text (Some (dp - 1)) (CHR ''e'' # sg # fs)"
    unfolding exp_text_def option.case sg_def using dp fs val by (intro exI [of _ fs]) auto
  moreover have "shorten_exp (fmtE neg (d # r) dp) =
      sign_text neg @ [d] @ (if r = [] then [] else CHR ''.'' # r) @ (CHR ''e'' # sg # fs)"
    unfolding b fs_def by (subst shorten_exp_text [OF dig len]) (simp_all add: sg_def)
  ultimately show ?thesis unfolding decimal_text_def using ds by auto
qed

text \<open>
  The printed text has the shape of a decimal, its value is that of the digits, and its
  integer part has no superfluous zero.
\<close>

lemma json_float_decimal:
  assumes fin: "f64_finite w"
  obtains s ip fp e where "json_float w = Some s" and "decimal_text (f64_neg w) ip fp e s"
    and "ip = ''0'' \<or> hd ip \<noteq> CHR ''0''" and "ParseFloat s = Inr w"
proof (cases "f64_mag w = 0")
  case True
  then have "json_float w = Some (sign_text (f64_neg w) @ ''0'')"
    using fin f64_trichotomy [of w] by (auto simp: json_float_def FormatFloat_f_def f64_digits_def fmtF_zero)
  moreover have "ParseFloat (sign_text (f64_neg w) @ ''0'') = Inr w"
    using ParseFloat_decimal [OF decimal_text_zero _ fin refl] True by simp
  ultimately show ?thesis using that decimal_text_zero by blast
next
  case False
  obtain ds dp where dg: "f64_digits w = (ds, dp)" by fastforce
  note d = f64_digits_value [OF fin False dg]
  show ?thesis
  proof (cases "f64_mag w < mag_1e_minus_6 \<or> mag_1e21 \<le> f64_mag w")
    case True
    obtain c r where c: "ds = c # r" using d(2) by (cases ds) auto
    let ?s = "shorten_exp (fmtE (f64_neg w) (c # r) dp)"
    have js: "json_float w = Some ?s"
      using True False fin f64_trichotomy [of w] by (auto simp: json_float_def FormatFloat_e_def dg c)
    have t: "decimal_text (f64_neg w) [c] r (Some (dp - 1)) ?s"
      using d(1) f64_digits_exp [OF fin False dg] by (intro fmtE_shortened) (auto simp: c)
    have "ParseFloat ?s = Inr w"
      by (rule ParseFloat_decimal [OF t _ fin refl]) (use d(3) c in \<open>simp add: algebra_simps\<close>)
    then show ?thesis using f64_digits_head [OF fin False dg] by (intro that [OF js t]) (simp_all add: c)
  next
    case plain: False
    obtain ip fp where t: "decimal_text (f64_neg w) ip fp None (fmtF (f64_neg w) ds dp)"
      and z: "ip = ''0'' \<or> hd ip = hd ds"
      using fmtF_decimal [OF d(1,2)] .
    have js: "json_float w = Some (FormatFloat_f w)"
      using plain fin f64_trichotomy [of w] by (auto simp: json_float_def)
    have "FormatFloat_f w = fmtF (f64_neg w) ds dp"
      using fin f64_trichotomy [of w] by (auto simp: FormatFloat_f_def dg)
    then show ?thesis
      using that js t z f64_digits_head [OF fin False dg] ParseFloat_FormatFloat_f [OF fin] by metis
  qed
qed

subsection \<open>Scanning the literal\<close>

text \<open>What may follow a number without being taken for a part of it.\<close>

definition number_end :: "bytes \<Rightarrow> bool" where
  "number_end r = (case r of c # _ \<Rightarrow> \<not> is_digit c \<and> c \<notin> set ''.eE'' | [] \<Rightarrow> True)"

lemma scan_digits_append:
  assumes "list_all is_digit ds" and "r = [] \<or> \<not> is_digit (hd r)"
  shows "scan_digits (ds @ r) = (ds, r)"
  using assms by (cases r) (auto simp: scan_digits_def list_all_iff takeWhile_append dropWhile_append)

lemma scan_int_append:
  assumes "list_all is_digit ip" "ip \<noteq> []" "ip = ''0'' \<or> hd ip \<noteq> CHR ''0''"
    and "r = [] \<or> \<not> is_digit (hd r)"
  shows "scan_int (ip @ r) = Some (ip, r)"
proof (cases "hd ip = CHR ''0''")
  case True
  then have "ip = ''0''" using assms(3) by simp
  then show ?thesis by (simp add: scan_int_def)
next
  case False
  then show ?thesis
    using assms(1,2) scan_digits_append [OF assms(1,4)] by (cases ip) (auto simp: scan_int_def)
qed

lemma scan_frac_append:
  assumes "list_all is_digit fp" and "r = [] \<or> (\<not> is_digit (hd r) \<and> hd r \<noteq> CHR ''.'')"
  shows "scan_frac ((if fp = [] then [] else CHR ''.'' # fp) @ r) =
         Some (if fp = [] then [] else CHR ''.'' # fp, r)"
  using assms scan_digits_append [OF assms(1), of r] by (cases r) (auto simp: scan_frac_def)

lemma scan_exp_append:
  assumes "exp_text e ex" and "number_end r"
  shows "scan_exp (ex @ r) = Some (ex, r)"
proof (cases e)
  case None
  then show ?thesis
    using assms by (cases r) (auto simp: exp_text_def scan_exp_def number_end_def)
next
  case (Some k)
  then obtain es where es: "ex = CHR ''e'' # (if k < 0 then CHR ''-'' else CHR ''+'') # es"
    "es \<noteq> []" "list_all is_digit es"
    using assms(1) by (auto simp: exp_text_def)
  have "scan_digits (es @ r) = (es, r)"
    using assms(2) by (intro scan_digits_append es) (cases r; simp add: number_end_def)
  then show ?thesis using es by (simp add: scan_exp_def)
qed

lemma scan_number_decimal:
  assumes dt: "decimal_text neg ip fp e s" and z: "ip = ''0'' \<or> hd ip \<noteq> CHR ''0''" and r: "number_end r"
  shows "scan_number (s @ r) = Some (s, r)"
proof -
  obtain ex where s: "s = sign_text neg @ ip @ (if fp = [] then [] else CHR ''.'' # fp) @ ex"
    and ex: "exp_text e ex" and ip: "ip \<noteq> []" "list_all is_digit ip" and fp: "list_all is_digit fp"
    using dt unfolding decimal_text_def by blast
  let ?f = "if fp = [] then [] else CHR ''.'' # fp"
  have exr: "ex @ r = [] \<or> (\<not> is_digit (hd (ex @ r)) \<and> hd (ex @ r) \<noteq> CHR ''.'')"
    using ex r by (cases r) (auto simp: exp_text_def number_end_def is_digit_def split: option.splits)
  have fr: "?f @ ex @ r = [] \<or> \<not> is_digit (hd (?f @ ex @ r))"
    using exr by (auto simp: is_digit_def)
  obtain c cs where c: "ip = c # cs" "c \<noteq> CHR ''-''"
    using ip is_digit_plain by (cases ip) auto
  have neg: "(case s @ r of c # _ \<Rightarrow> if c = CHR ''-'' then [c] else [] | [] \<Rightarrow> []) = sign_text neg"
    using c by (simp add: s sign_text_def)
  show ?thesis
    unfolding scan_number_def Let_def neg
    using scan_int_append [OF ip(2,1) z fr] scan_frac_append [OF fp exr] scan_exp_append [OF ex r]
    by (simp add: s)
qed

lemma FormatInt_decimal:
  obtains ip where "decimal_text (sint i < 0) ip [] None (FormatInt i)"
    and "ip = ''0'' \<or> hd ip \<noteq> CHR ''0''"
proof
  let ?ip = "show_nat (nat \<bar>sint i\<bar>)"
  show "decimal_text (sint i < 0) ?ip [] None (FormatInt i)"
    by (simp add: decimal_text_def exp_text_def FormatInt_def sign_text_def show_nat_digits)
  have "show_nat 0 = ''0''" by code_simp
  then show "?ip = ''0'' \<or> hd ?ip \<noteq> CHR ''0''" using show_nat_no_zero [of "nat \<bar>sint i\<bar>"] by (metis neq0_conv)
qed

lemma scan_number_FormatInt: "number_end r \<Longrightarrow> scan_number (FormatInt i @ r) = Some (FormatInt i, r)"
  using FormatInt_decimal scan_number_decimal by metis

end
