(* ===== verification/Storage.thy ===== *)
theory Storage
  imports Float64
begin

section \<open>Metrics and the storage contract\<close>

text \<open>
  The wire representation of a metric (\<^verbatim>\<open>internal/model/metrics.go\<close>), the interface
  \<^verbatim>\<open>repository.Storage\<close> as a record of its methods, and what the interface promises: an
  abstract table of gauges and counters, the effect of each method on it, and a locale with
  these laws, in which the clients of a storage are verified once.
\<close>

subsection \<open>internal/model/metrics.go\<close>

definition model_Counter :: string where "model_Counter = ''counter''"
definition model_Gauge :: string where "model_Gauge = ''gauge''"

lemma model_types_differ [simp]: "model_Gauge \<noteq> model_Counter" "model_Counter \<noteq> model_Gauge"
  by (simp_all add: model_Counter_def model_Gauge_def)

text \<open>A pointer field is an option: \<open>None\<close> is the nil pointer of an absent JSON member.\<close>

record Metrics =
  ID :: string
  MType :: string
  Delta :: "int64 option"
  Value :: "float64 option"
  Hash :: string

abbreviation gauge_metric :: "string \<Rightarrow> float64 \<Rightarrow> Metrics" where
  "gauge_metric n v \<equiv>
     \<lparr>ID = n, MType = model_Gauge, Delta = None, Value = Some v, Hash = []\<rparr>"

abbreviation counter_metric :: "string \<Rightarrow> int64 \<Rightarrow> Metrics" where
  "counter_metric n d \<equiv>
     \<lparr>ID = n, MType = model_Counter, Delta = Some d, Value = None, Hash = []\<rparr>"

subsection \<open>The interface repository.Storage\<close>

text \<open>
  A Go interface value is a record of its methods over a state. \<^verbatim>\<open>GetMetric\<close> takes the name
  before the type and \<^verbatim>\<open>GetValue\<close> the type before the name, as in the source.
\<close>

record 's Storage =
  UpdateGauge :: "'s \<Rightarrow> string \<Rightarrow> float64 \<Rightarrow> 's eff"
  UpdateCounter :: "'s \<Rightarrow> string \<Rightarrow> int64 \<Rightarrow> 's eff"
  UpdateBatch :: "'s \<Rightarrow> Metrics list \<Rightarrow> 's eff"
  GetMetric :: "'s \<Rightarrow> string \<Rightarrow> string \<Rightarrow> Metrics option \<times> 's"
  GetValue :: "'s \<Rightarrow> string \<Rightarrow> string \<Rightarrow> string option \<times> 's"
  GetAllMetrics :: "'s \<Rightarrow> (string, string) gomap \<times> 's"

subsection \<open>The abstract table\<close>

record table =
  gauge_of :: "string \<rightharpoonup> float64"
  counter_of :: "string \<rightharpoonup> int64"

definition empty_table :: table where
  "empty_table = \<lparr>gauge_of = Map.empty, counter_of = Map.empty\<rparr>"

text \<open>A gauge replaces the previous value; a counter adds to it, from zero, modulo 2^64.\<close>

definition put_gauge :: "string \<Rightarrow> float64 \<Rightarrow> table \<Rightarrow> table" where
  "put_gauge n v t = t\<lparr>gauge_of := (gauge_of t)(n \<mapsto> v)\<rparr>"

definition counter_total :: "table \<Rightarrow> string \<Rightarrow> int64" where
  "counter_total t n = (case counter_of t n of None \<Rightarrow> 0 | Some c \<Rightarrow> c)"

definition add_counter :: "string \<Rightarrow> int64 \<Rightarrow> table \<Rightarrow> table" where
  "add_counter n d t = t\<lparr>counter_of := (counter_of t)(n \<mapsto> counter_total t n + d)\<rparr>"

text \<open>
  One metric of a batch: an unknown type, or a known type without its value, changes nothing.
\<close>

definition apply_metric :: "Metrics \<Rightarrow> table \<Rightarrow> table" where
  "apply_metric m t =
     (if MType m = model_Gauge then (case Value m of None \<Rightarrow> t | Some v \<Rightarrow> put_gauge (ID m) v t)
      else if MType m = model_Counter then
        (case Delta m of None \<Rightarrow> t | Some d \<Rightarrow> add_counter (ID m) d t)
      else t)"

definition apply_batch :: "Metrics list \<Rightarrow> table \<Rightarrow> table" where
  "apply_batch ms t = foldl (\<lambda>t m. apply_metric m t) t ms"

definition table_metric :: "table \<Rightarrow> string \<Rightarrow> string \<Rightarrow> Metrics option" where
  "table_metric t n ty =
     (if ty = model_Gauge then map_option (gauge_metric n) (gauge_of t n)
      else if ty = model_Counter then map_option (counter_metric n) (counter_of t n)
      else None)"

text \<open>The text of a metric: a backend chooses how it prints a gauge.\<close>

definition table_value :: "(float64 \<Rightarrow> string) \<Rightarrow> table \<Rightarrow> string \<Rightarrow> string \<Rightarrow> string option" where
  "table_value fmt t ty n =
     (if ty = model_Gauge then map_option fmt (gauge_of t n)
      else if ty = model_Counter then map_option FormatInt (counter_of t n)
      else None)"

lemma apply_batch_Nil [simp]: "apply_batch [] t = t"
  by (simp add: apply_batch_def)

lemma apply_batch_Cons [simp]: "apply_batch (m # ms) t = apply_batch ms (apply_metric m t)"
  by (simp add: apply_batch_def)

lemma apply_batch_append: "apply_batch (ms @ ns) t = apply_batch ns (apply_batch ms t)"
  by (simp add: apply_batch_def)

lemma put_gauge_get [simp]:
  "gauge_of (put_gauge n v t) = (gauge_of t)(n \<mapsto> v)" "counter_of (put_gauge n v t) = counter_of t"
  by (simp_all add: put_gauge_def)

lemma add_counter_get [simp]:
  "gauge_of (add_counter n d t) = gauge_of t"
  "counter_of (add_counter n d t) = (counter_of t)(n \<mapsto> counter_total t n + d)"
  by (simp_all add: add_counter_def)

lemma counter_total_put_gauge [simp]: "counter_total (put_gauge n v t) = counter_total t"
  by (simp add: counter_total_def fun_eq_iff)

lemma counter_total_add [simp]:
  "counter_total (add_counter n d t) k = (if k = n then counter_total t n + d else counter_total t k)"
  by (simp add: counter_total_def)

lemma empty_table_simps [simp]:
  "gauge_of empty_table = Map.empty" "counter_of empty_table = Map.empty"
  "counter_total empty_table n = 0"
  by (simp_all add: empty_table_def counter_total_def)

lemma apply_gauge_metric [simp]: "apply_metric (gauge_metric n v) = put_gauge n v"
  by (simp add: apply_metric_def fun_eq_iff)

lemma apply_counter_metric [simp]: "apply_metric (counter_metric n d) = add_counter n d"
  by (simp add: apply_metric_def fun_eq_iff)

subsection \<open>What a batch does\<close>

text \<open>The deltas a batch sends to a counter, and the last value it sends to a gauge.\<close>

definition batch_deltas :: "string \<Rightarrow> Metrics list \<Rightarrow> int64 list" where
  "batch_deltas n ms =
     List.map_filter (\<lambda>m. if MType m = model_Counter \<and> ID m = n then Delta m else None) ms"

definition batch_values :: "string \<Rightarrow> Metrics list \<Rightarrow> float64 list" where
  "batch_values n ms =
     List.map_filter (\<lambda>m. if MType m = model_Gauge \<and> ID m = n then Value m else None) ms"

lemma batch_deltas_simps [simp]:
  "batch_deltas n [] = []"
  "batch_deltas n (m # ms) =
     (if MType m = model_Counter \<and> ID m = n then
        (case Delta m of None \<Rightarrow> batch_deltas n ms | Some d \<Rightarrow> d # batch_deltas n ms)
      else batch_deltas n ms)"
  by (simp_all add: batch_deltas_def split: option.split)

lemma batch_values_simps [simp]:
  "batch_values n [] = []"
  "batch_values n (m # ms) =
     (if MType m = model_Gauge \<and> ID m = n then
        (case Value m of None \<Rightarrow> batch_values n ms | Some d \<Rightarrow> d # batch_values n ms)
      else batch_values n ms)"
  by (simp_all add: batch_values_def split: option.split)

lemma apply_metric_total:
  "counter_total (apply_metric m t) n =
     counter_total t n + (if MType m = model_Counter \<and> ID m = n then
                            (case Delta m of None \<Rightarrow> 0 | Some d \<Rightarrow> d) else 0)"
  by (auto simp: apply_metric_def split: option.split)

text \<open>A batch adds to every counter the sum of its deltas, in whatever order they stand.\<close>

lemma apply_batch_total:
  "counter_total (apply_batch ms t) n = counter_total t n + sum_list (batch_deltas n ms)"
  by (induction ms arbitrary: t)
    (auto simp: apply_metric_total add.assoc split: option.split)

lemma apply_metric_gauge:
  "gauge_of (apply_metric m t) n =
     (if MType m = model_Gauge \<and> ID m = n \<and> Value m \<noteq> None then Value m else gauge_of t n)"
  by (auto simp: apply_metric_def split: option.split)

text \<open>A batch leaves in a gauge the last value it carries for it, if it carries one.\<close>

lemma apply_batch_gauge:
  "gauge_of (apply_batch ms t) n =
     (if batch_values n ms = [] then gauge_of t n else Some (last (batch_values n ms)))"
  by (induction ms arbitrary: t) (auto simp: apply_metric_gauge split: option.split)

text \<open>A counter is known exactly when it was known or the batch carries a delta for it.\<close>

lemma apply_batch_counter_known:
  "counter_of (apply_batch ms t) n = None \<longleftrightarrow> counter_of t n = None \<and> batch_deltas n ms = []"
proof (induction ms arbitrary: t)
  case (Cons m ms)
  have "counter_of (apply_metric m t) n = None \<longleftrightarrow>
      counter_of t n = None \<and> \<not> (MType m = model_Counter \<and> ID m = n \<and> Delta m \<noteq> None)"
    by (auto simp: apply_metric_def split: option.split)
  with Cons.IH show ?case by (auto split: option.split)
qed simp

subsection \<open>The contract\<close>

text \<open>
  What a client may rely on, for states that satisfy the backend's invariant: a query returns
  what the abstract table holds and changes nothing, and the map of all metrics has exactly
  one entry \<^verbatim>\<open>"<type>/<name>"\<close> per metric.
\<close>

locale storage_queries =
  fixes st :: "'s Storage"
    and view :: "'s \<Rightarrow> table"
    and ok :: "'s \<Rightarrow> bool"
    and fmt :: "float64 \<Rightarrow> string"
  assumes get_metric: "ok s \<Longrightarrow> GetMetric st s n ty = (table_metric (view s) n ty, s)"
    and get_value: "ok s \<Longrightarrow> GetValue st s ty n = (table_value fmt (view s) ty n, s)"
    and get_all_frame: "ok s \<Longrightarrow> snd (GetAllMetrics st s) = s"
    and get_all_wf: "ok s \<Longrightarrow> wf_map (fst (GetAllMetrics st s))"
    and get_all: "ok s \<Longrightarrow> map_get (fst (GetAllMetrics st s)) k = Some v \<longleftrightarrow>
      (\<exists>ty n. k = ty @ CHR ''/'' # n \<and> table_value fmt (view s) ty n = Some v)"

text \<open>An update never fails, keeps the invariant and has its effect on the table.\<close>

locale storage_contract = storage_queries +
  assumes update_gauge: "ok s \<Longrightarrow>
      \<exists>s'. UpdateGauge st s n v = (None, s') \<and> ok s' \<and> view s' = put_gauge n v (view s)"
    and update_counter: "ok s \<Longrightarrow>
      \<exists>s'. UpdateCounter st s n d = (None, s') \<and> ok s' \<and> view s' = add_counter n d (view s)"
    and update_batch: "ok s \<Longrightarrow>
      \<exists>s'. UpdateBatch st s ms = (None, s') \<and> ok s' \<and> view s' = apply_batch ms (view s)"

end
