(* ===== verification/MetricsJson.thy ===== *)
theory MetricsJson
  imports Json_Number Storage
begin

section \<open>Metrics as JSON\<close>

text \<open>
  The printer of JSON values, compact (\<^verbatim>\<open>json.Marshal\<close>) and indented (\<^verbatim>\<open>json.MarshalIndent\<close>),
  the correspondence between \<^verbatim>\<open>model.Metrics\<close> and a JSON object that its struct tags give, and
  the round trip: the scanner reads the printed text back to the same metrics.
\<close>

subsection \<open>The printer\<close>

definition join :: "bytes \<Rightarrow> bytes list \<Rightarrow> bytes" where
  "join sep xs = (case xs of [] \<Rightarrow> [] | y # ys \<Rightarrow> y @ concat (map (\<lambda>z. sep @ z) ys))"

text \<open>
  \<open>nl d\<close> is what the printer puts between the parts of an array or object at depth \<open>d\<close>,
  \<open>colon\<close> what it puts between a key and its value.
\<close>

fun json_text :: "(nat \<Rightarrow> bytes) \<Rightarrow> bytes \<Rightarrow> nat \<Rightarrow> json \<Rightarrow> bytes" where
  "json_text nl colon d JNull = ''null''"
| "json_text nl colon d (JBool b) = (if b then ''true'' else ''false'')"
| "json_text nl colon d (JNum l) = l"
| "json_text nl colon d (JStr s) = json_string s"
| "json_text nl colon d (JArr vs) =
     (if vs = [] then ''[]''
      else CHR ''['' # nl (d + 1) @
           join (CHR '','' # nl (d + 1)) (map (json_text nl colon (d + 1)) vs) @ nl d @ '']'')"
| "json_text nl colon d (JObj ms) =
     (if ms = [] then ''{}''
      else CHR ''{'' # nl (d + 1) @
           join (CHR '','' # nl (d + 1))
             (map (\<lambda>(k, v). json_string k @ colon @ json_text nl colon (d + 1) v) ms) @ nl d @ ''}'')"

definition marshal_text :: "json \<Rightarrow> bytes" where
  "marshal_text j = json_text (\<lambda>_. []) '':'' 0 j"

definition indent_nl :: "nat \<Rightarrow> bytes" where
  "indent_nl d = CHR 0x0A # concat (replicate d ''  '')"

definition marshal_indent_text :: "json \<Rightarrow> bytes" where
  "marshal_indent_text j = json_text indent_nl '': '' 0 j"

subsection \<open>The struct tags of model.Metrics\<close>

text \<open>
  \<^verbatim>\<open>omitempty\<close> leaves out nil pointers and the empty hash. A gauge that is not a number or is
  infinite has no JSON text, and the encoder fails.
\<close>

definition metric_json :: "Metrics \<Rightarrow> json option" where
  "metric_json m =
     (let mk = (\<lambda>value. JObj
            ([(''id'', JStr (ID m)), (''type'', JStr (MType m))] @
             (case Delta m of None \<Rightarrow> [] | Some d \<Rightarrow> [(''delta'', JNum (FormatInt d))]) @
             value @
             (if Hash m = [] then [] else [(''hash'', JStr (Hash m))])))
      in case Value m of
           None \<Rightarrow> Some (mk [])
         | Some v \<Rightarrow> map_option (\<lambda>l. mk [(''value'', JNum l)]) (json_float v))"

fun all_some :: "'a option list \<Rightarrow> 'a list option" where
  "all_some [] = Some []"
| "all_some (None # xs) = None"
| "all_some (Some x # xs) = map_option (\<lambda>ys. x # ys) (all_some xs)"

definition metrics_json :: "Metrics list \<Rightarrow> json option" where
  "metrics_json ms = map_option JArr (all_some (map metric_json ms))"

text \<open>
  Decoding matches a key to a field without regard to letter case: every letter to its
  upper-case form, and the two non-ASCII characters that fold to a letter.
\<close>

fun fold_name :: "bytes \<Rightarrow> bytes" where
  "fold_name [] = []"
| "fold_name (c # cs) =
     (if c = CHR 0xC5 \<and> take 1 cs = [CHR 0xBF] then CHR ''S'' # fold_name (drop 1 cs)
      else if c = CHR 0xE2 \<and> take 2 cs = [CHR 0x84, CHR 0xAA] then CHR ''K'' # fold_name (drop 2 cs)
      else (if 97 \<le> ord c \<and> ord c \<le> 122 then char_of (ord c - 32) else c) # fold_name cs)"

declare fold_name.simps [simp del]

definition decode_string :: "bytes \<Rightarrow> json \<Rightarrow> bytes option" where
  "decode_string old v = (case v of JStr s \<Rightarrow> Some s | JNull \<Rightarrow> Some old | _ \<Rightarrow> None)"

definition decode_int64 :: "json \<Rightarrow> int64 option option" where
  "decode_int64 v =
     (case v of
        JNull \<Rightarrow> Some None
      | JNum l \<Rightarrow> (case parse_int_text l of Inl _ \<Rightarrow> None | Inr i \<Rightarrow> Some (Some i))
      | _ \<Rightarrow> None)"

definition decode_float64 :: "json \<Rightarrow> float64 option option" where
  "decode_float64 v =
     (case v of
        JNull \<Rightarrow> Some None
      | JNum l \<Rightarrow> (case ParseFloat l of Inl _ \<Rightarrow> None | Inr w \<Rightarrow> Some (Some w))
      | _ \<Rightarrow> None)"

definition zero_metric :: Metrics where
  "zero_metric = \<lparr>ID = [], MType = [], Delta = None, Value = None, Hash = []\<rparr>"

definition decode_member :: "Metrics \<Rightarrow> bytes \<times> json \<Rightarrow> Metrics option" where
  "decode_member m kv =
     (case kv of (k, v) \<Rightarrow>
        let n = fold_name k
        in if n = ''ID'' then map_option (\<lambda>s. m\<lparr>ID := s\<rparr>) (decode_string (ID m) v)
           else if n = ''TYPE'' then map_option (\<lambda>s. m\<lparr>MType := s\<rparr>) (decode_string (MType m) v)
           else if n = ''DELTA'' then map_option (\<lambda>d. m\<lparr>Delta := d\<rparr>) (decode_int64 v)
           else if n = ''VALUE'' then map_option (\<lambda>d. m\<lparr>Value := d\<rparr>) (decode_float64 v)
           else if n = ''HASH'' then map_option (\<lambda>s. m\<lparr>Hash := s\<rparr>) (decode_string (Hash m) v)
           else Some m)"

fun decode_members :: "Metrics \<Rightarrow> (bytes \<times> json) list \<Rightarrow> Metrics option" where
  "decode_members m [] = Some m"
| "decode_members m (kv # kvs) =
     (case decode_member m kv of None \<Rightarrow> None | Some m' \<Rightarrow> decode_members m' kvs)"

definition decode_metric :: "json \<Rightarrow> Metrics option" where
  "decode_metric j =
     (case j of
        JNull \<Rightarrow> Some zero_metric
      | JObj ms \<Rightarrow> decode_members zero_metric ms
      | _ \<Rightarrow> None)"

definition decode_metrics :: "json \<Rightarrow> Metrics list option" where
  "decode_metrics j =
     (case j of
        JNull \<Rightarrow> Some []
      | JArr vs \<Rightarrow> all_some (map decode_metric vs)
      | _ \<Rightarrow> None)"

text \<open>
  The calls the program makes: \<^verbatim>\<open>json.Marshal\<close> of one metric or of a slice (compact),
  \<^verbatim>\<open>json.MarshalIndent(ms, "", "  ")\<close>, \<^verbatim>\<open>json.Unmarshal\<close> into a slice, and the decoder's
  \<^verbatim>\<open>Decode\<close>, which takes one value and leaves the rest of the body unread. \<open>None\<close> is an error.
\<close>

definition Marshal_metric :: "Metrics \<Rightarrow> bytes option" where
  "Marshal_metric m = map_option marshal_text (metric_json m)"

definition Marshal_metrics :: "Metrics list \<Rightarrow> bytes option" where
  "Marshal_metrics ms = map_option marshal_text (metrics_json ms)"

definition MarshalIndent_metrics :: "Metrics list \<Rightarrow> bytes option" where
  "MarshalIndent_metrics ms = map_option marshal_indent_text (metrics_json ms)"

definition Unmarshal_metrics :: "bytes \<Rightarrow> Metrics list option" where
  "Unmarshal_metrics bs = Option.bind (json_unmarshal_value bs) decode_metrics"

definition Decode_metric :: "bytes \<Rightarrow> Metrics option" where
  "Decode_metric bs = Option.bind (json_decode_value bs) decode_metric"

definition Decode_metrics :: "bytes \<Rightarrow> Metrics list option" where
  "Decode_metrics bs = Option.bind (json_decode_value bs) decode_metrics"

subsection \<open>A printed value is read back\<close>

definition number_literal :: "bytes \<Rightarrow> bool" where
  "number_literal l =
     (\<exists>neg ip fp e. decimal_text neg ip fp e l \<and> (ip = ''0'' \<or> hd ip \<noteq> CHR ''0''))"

text \<open>Valid strings, number literals, and at most \<open>n\<close> levels of arrays and objects.\<close>

fun printable :: "nat \<Rightarrow> json \<Rightarrow> bool" where
  "printable n JNull = True"
| "printable n (JBool b) = True"
| "printable n (JNum l) = number_literal l"
| "printable n (JStr s) = utf8_valid s"
| "printable n (JArr vs) = (0 < n \<and> (\<forall>v \<in> set vs. printable (n - 1) v))"
| "printable n (JObj ms) = (0 < n \<and> (\<forall>(k, v) \<in> set ms. utf8_valid k \<and> printable (n - 1) v))"

definition blank :: "bytes \<Rightarrow> bool" where
  "blank w = list_all is_space w"

lemma skip_ws_blank [simp]: "blank w \<Longrightarrow> skip_ws (w @ t) = skip_ws t"
  by (simp add: skip_ws_def blank_def list_all_iff)

lemma skip_ws_stop [simp]: "\<not> is_space c \<Longrightarrow> skip_ws (c # t) = c # t"
  by (simp add: skip_ws_def)

lemma not_space [simp]:
  "\<not> is_space (CHR ''['')" "\<not> is_space (CHR '']'')" "\<not> is_space (CHR ''{'')" "\<not> is_space (CHR ''}'')"
  "\<not> is_space (CHR '','')" "\<not> is_space (CHR '':'')" "\<not> is_space quote"
  by (simp_all add: is_space_def)

lemma number_end_blank [simp]: "blank w \<Longrightarrow> number_end t \<Longrightarrow> number_end (w @ t)"
  by (cases w) (auto simp: number_end_def blank_def is_space_def is_digit_def)

lemma number_end_punct [simp]:
  "number_end (CHR '','' # t)" "number_end (CHR '']'' # t)" "number_end (CHR ''}'' # t)"
  by (simp_all add: number_end_def is_digit_def)

lemma number_literal_head:
  assumes "number_literal l"
  obtains c cs where "l = c # cs" "c = CHR ''-'' \<or> is_digit c"
proof -
  obtain neg ip fp e where d: "decimal_text neg ip fp e l" using assms by (auto simp: number_literal_def)
  then obtain c cs where "ip = c # cs" "is_digit c" by (cases ip) (auto simp: decimal_text_def)
  then show ?thesis using d that by (auto simp: decimal_text_def sign_text_def split: if_splits)
qed

lemma scan_number_literal: "number_literal l \<Longrightarrow> number_end r \<Longrightarrow> scan_number (l @ r) = Some (l, r)"
  using scan_number_decimal by (auto simp: number_literal_def)

lemma json_text_head:
  assumes "printable n j"
  shows "json_text nl colon d j \<noteq> []" and "\<not> is_space (hd (json_text nl colon d j))"
    and "hd (json_text nl colon d j) \<notin> set '']}''"
proof -
  have "json_text nl colon d j \<noteq> [] \<and> \<not> is_space (hd (json_text nl colon d j)) \<and>
      hd (json_text nl colon d j) \<notin> set '']}''"
  proof (cases j)
    case (JNum l)
    then obtain c cs where "l = c # cs" "c = CHR ''-'' \<or> is_digit c"
      using assms number_literal_head by auto
    then show ?thesis using JNum by (auto simp: is_digit_def is_space_def)
  qed (auto simp: json_string_def is_space_def)
  then show "json_text nl colon d j \<noteq> []" "\<not> is_space (hd (json_text nl colon d j))"
    "hd (json_text nl colon d j) \<notin> set '']}''" by blast+
qed

text \<open>One scalar, at the place of a value.\<close>

lemma json_run_scalar:
  assumes "printable n j" and "number_end r" and "blank w" and sc: "\<And>vs. j \<noteq> JArr vs" "\<And>ms. j \<noteq> JObj ms"
  shows "json_run Want_Value stk (w @ json_text nl colon d j @ r) = json_run (Have_Value j) stk r"
proof (cases j)
  case (JNum l)
  then obtain c cs where l: "l = c # cs" "c = CHR ''-'' \<or> is_digit c"
    using assms number_literal_head by auto
  then have c: "\<not> is_space c" "c \<noteq> CHR ''[''" "c \<noteq> CHR ''{''" "c \<noteq> quote"
    by (auto simp: is_space_def is_digit_def)
  have "scan_number (c # cs @ r) = Some (l, r)" using scan_number_literal [of l r] assms JNum l by simp
  then show ?thesis
    using assms(3) c l(2) by (auto simp: json_run.simps(1) JNum l(1) scan_scalar_def)
next
  case (JStr s)
  then show ?thesis
    using assms scan_escape [of s r]
    by (simp add: json_run.simps(1) json_string_def scan_scalar_def)
qed (use assms in \<open>auto simp: json_run.simps(1) scan_scalar_def scan_literal_def strings_HasPrefix_def
       is_space_def is_digit_def\<close>)

text \<open>The rest of an array or object after one of its values.\<close>

lemma json_run_elements:
  assumes nl: "blank sp" "blank sp'"
    and step: "\<And>v stk r w. v \<in> set vs \<Longrightarrow> length stk \<le> h \<Longrightarrow> number_end r \<Longrightarrow> blank w \<Longrightarrow>
                 json_run Want_Value stk (w @ f v @ r) = json_run (Have_Value v) stk r"
    and h: "length stk < h"
  shows "json_run (Have_Value x) (FArr acc # stk)
           (concat (map (\<lambda>v. (CHR '','' # sp) @ f v) vs) @ sp' @ CHR '']'' # r) =
         json_run (Have_Value (JArr (rev acc @ x # vs))) stk r"
  using step
proof (induction vs arbitrary: x acc)
  case Nil
  then show ?case using nl by (simp add: json_run.simps(3))
next
  case (Cons v vs)
  let ?t = "concat (map (\<lambda>v. (CHR '','' # sp) @ f v) vs) @ sp' @ CHR '']'' # r"
  have t: "number_end ?t" using nl by (cases vs) simp_all
  have "json_run (Have_Value x) (FArr acc # stk) (CHR '','' # sp @ f v @ ?t) =
      json_run Want_Value (FArr (x # acc) # stk) (sp @ f v @ ?t)"
    by (simp add: json_run.simps(3))
  also have "\<dots> = json_run (Have_Value v) (FArr (x # acc) # stk) ?t"
    using h by (intro Cons.prems t nl) simp_all
  also have "\<dots> = json_run (Have_Value (JArr (rev (x # acc) @ v # vs))) stk r"
    by (rule Cons.IH) (rule Cons.prems, simp_all)
  finally show ?case by simp
qed

lemma scan_key_text:
  assumes "utf8_valid k" and "blank w" and "blank cw"
  shows "scan_key (w @ json_string k @ (CHR '':'' # cw) @ t) = Some (k, cw @ t)"
  using assms scan_escape [of k "CHR '':'' # cw @ t"] by (simp add: scan_key_def json_string_def)

lemma json_run_members:
  assumes nl: "blank sp" "blank sp'" "blank cw"
    and step: "\<And>kv stk r w. kv \<in> set ms \<Longrightarrow> length stk \<le> h \<Longrightarrow> number_end r \<Longrightarrow> blank w \<Longrightarrow>
                 json_run Want_Value stk (w @ f (snd kv) @ r) = json_run (Have_Value (snd kv)) stk r"
    and keys: "\<And>kv. kv \<in> set ms \<Longrightarrow> utf8_valid (fst kv)"
    and h: "length stk < h"
  shows "json_run (Have_Value x) (FObj acc key # stk)
           (concat (map (\<lambda>(k, v). (CHR '','' # sp) @ json_string k @ (CHR '':'' # cw) @ f v) ms) @
            sp' @ CHR ''}'' # r) =
         json_run (Have_Value (JObj (rev acc @ (key, x) # ms))) stk r"
  using step keys
proof (induction ms arbitrary: x acc key)
  case Nil
  then show ?case using nl by (simp add: json_run.simps(4))
next
  case (Cons kv ms)
  obtain k v where kv: "kv = (k, v)" by (cases kv)
  let ?t = "concat (map (\<lambda>(k, v). (CHR '','' # sp) @ json_string k @ (CHR '':'' # cw) @ f v) ms) @
            sp' @ CHR ''}'' # r"
  have t: "number_end ?t" using nl by (cases ms) (auto simp: case_prod_unfold)
  have "utf8_valid k" using Cons.prems(2) [of kv] kv by simp
  then have "json_run (Have_Value x) (FObj acc key # stk)
        (CHR '','' # sp @ json_string k @ (CHR '':'' # cw) @ f v @ ?t) =
      json_run Want_Value (FObj ((key, x) # acc) k # stk) (cw @ f v @ ?t)"
    using scan_key_text [OF _ nl(1,3)] by (simp add: json_run.simps(4))
  also have "\<dots> = json_run (Have_Value v) (FObj ((key, x) # acc) k # stk) ?t"
    using h kv t nl Cons.prems(1) [of kv] by simp
  also have "\<dots> = json_run (Have_Value (JObj (rev ((key, x) # acc) @ (k, v) # ms))) stk r"
    by (rule Cons.IH) (rule Cons.prems, simp_all)+
  finally show ?case using kv by simp
qed

lemma json_run_array:
  assumes "blank sp" "blank sp'" and ne: "vs \<noteq> []"
    and step: "\<And>v stk r w. v \<in> set vs \<Longrightarrow> length stk \<le> h \<Longrightarrow> number_end r \<Longrightarrow> blank w \<Longrightarrow>
                 json_run Want_Value stk (w @ f v @ r) = json_run (Have_Value v) stk r"
    and hd: "\<And>v. v \<in> set vs \<Longrightarrow> f v \<noteq> [] \<and> \<not> is_space (hd (f v)) \<and> hd (f v) \<noteq> CHR '']''"
    and h: "length stk < h" "h \<le> max_depth" and w: "blank w"
  shows "json_run Want_Value stk
           (w @ CHR ''['' # sp @ join (CHR '','' # sp) (map f vs) @ sp' @ CHR '']'' # r) =
         json_run (Have_Value (JArr vs)) stk r"
proof -
  obtain v us where vs: "vs = v # us" using ne by (cases vs) auto
  let ?t = "concat (map (\<lambda>v. (CHR '','' # sp) @ f v) us) @ sp' @ CHR '']'' # r"
  have body: "sp @ join (CHR '','' # sp) (map f vs) @ sp' @ CHR '']'' # r = sp @ f v @ ?t"
    by (simp add: join_def vs comp_def)
  obtain c cs where c: "f v = c # cs" "\<not> is_space c" "c \<noteq> CHR '']''"
    using hd [of v] vs by (cases "f v") auto
  have t: "number_end ?t" using assms(1,2) by (cases us) simp_all
  have "json_run Want_Value stk (w @ CHR ''['' # sp @ f v @ ?t) =
      json_run Want_Value (FArr [] # stk) (sp @ f v @ ?t)"
    using h w assms(1) c by (simp add: json_run.simps(1))
  also have "\<dots> = json_run (Have_Value v) (FArr [] # stk) ?t"
    using h vs t by (intro step assms(1)) simp_all
  also have "\<dots> = json_run (Have_Value (JArr (rev [] @ v # us))) stk r"
    by (rule json_run_elements [where h = h]) (use step vs h assms(1,2) in auto)
  finally show ?thesis unfolding body by (simp add: vs)
qed

lemma json_run_object:
  assumes "blank sp" "blank sp'" and cw: "blank cw" and ne: "ms \<noteq> []"
    and step: "\<And>kv stk r w. kv \<in> set ms \<Longrightarrow> length stk \<le> h \<Longrightarrow> number_end r \<Longrightarrow> blank w \<Longrightarrow>
                 json_run Want_Value stk (w @ f (snd kv) @ r) = json_run (Have_Value (snd kv)) stk r"
    and keys: "\<And>kv. kv \<in> set ms \<Longrightarrow> utf8_valid (fst kv)"
    and h: "length stk < h" "h \<le> max_depth" and w: "blank w"
  shows "json_run Want_Value stk
           (w @ CHR ''{'' # sp @ join (CHR '','' # sp)
              (map (\<lambda>(k, v). json_string k @ (CHR '':'' # cw) @ f v) ms) @ sp' @ CHR ''}'' # r) =
         json_run (Have_Value (JObj ms)) stk r"
proof -
  obtain k v us where ms: "ms = (k, v) # us" using ne by (cases ms) auto
  let ?g = "\<lambda>(k, v). (CHR '','' # sp) @ json_string k @ (CHR '':'' # cw) @ f v"
  let ?t = "concat (map ?g us) @ sp' @ CHR ''}'' # r"
  have body: "sp @ join (CHR '','' # sp)
        (map (\<lambda>(k, v). json_string k @ (CHR '':'' # cw) @ f v) ms) @ sp' @ CHR ''}'' # r =
      sp @ json_string k @ (CHR '':'' # cw) @ f v @ ?t"
    by (simp add: join_def ms comp_def case_prod_unfold)
  have t: "number_end ?t" using assms(1,2) by (cases us) (auto simp: case_prod_unfold)
  have "utf8_valid k" using keys [of "(k, v)"] ms by simp
  note key = scan_key_text [OF this assms(1) cw, of "f v @ ?t"]
  have ws: "skip_ws (sp @ json_string k @ (CHR '':'' # cw) @ f v @ ?t) =
      json_string k @ (CHR '':'' # cw) @ f v @ ?t"
    using assms(1) by (simp add: json_string_def)
  have "json_run Want_Value stk (w @ CHR ''{'' # sp @ json_string k @ (CHR '':'' # cw) @ f v @ ?t) =
      json_run Want_Value (FObj [] k # stk) (cw @ f v @ ?t)"
    using h w key ws by (simp add: json_run.simps(1) json_string_def)
  also have "\<dots> = json_run (Have_Value v) (FObj [] k # stk) ?t"
    using h ms t cw step [of "(k, v)"] by simp
  also have "\<dots> = json_run (Have_Value (JObj (rev [] @ (k, v) # us))) stk r"
    by (rule json_run_members [where h = h]) (use step ms h assms(1,2) cw keys in auto)
  finally show ?thesis unfolding body by (simp add: ms)
qed

text \<open>Compact or indented, a printable value is read back as it is, and the rest is left.\<close>

lemma json_run_text:
  assumes "\<And>d. blank (nl d)" and "blank cw"
    and "printable n j" and "length stk + n \<le> max_depth" and "number_end r" and "blank w"
  shows "json_run Want_Value stk (w @ json_text nl (CHR '':'' # cw) d j @ r) =
         json_run (Have_Value j) stk r"
  using assms(3-6)
proof (induction j arbitrary: n stk r w d)
  case (JArr vs)
  show ?case
  proof (cases "vs = []")
    case True
    then show ?thesis using JArr.prems by (simp add: json_run.simps(1))
  next
    case False
    have "json_run Want_Value stk (w @ CHR ''['' # nl (d + 1) @
        join (CHR '','' # nl (d + 1)) (map (json_text nl (CHR '':'' # cw) (d + 1)) vs) @ nl d @ CHR '']'' # r) =
      json_run (Have_Value (JArr vs)) stk r"
      using JArr.prems json_text_head(1,2,3) [of "n - 1"]
      by (intro json_run_array [where h = "max_depth - (n - 1)"] assms(1) False JArr.IH [where n = "n - 1"]) auto
    then show ?thesis using False by simp
  qed
next
  case (JObj ms)
  show ?case
  proof (cases "ms = []")
    case True
    then show ?thesis using JObj.prems by (simp add: json_run.simps(1))
  next
    case False
    have "json_run Want_Value stk (w @ CHR ''{'' # nl (d + 1) @ join (CHR '','' # nl (d + 1))
        (map (\<lambda>(k, v). json_string k @ (CHR '':'' # cw) @ json_text nl (CHR '':'' # cw) (d + 1) v) ms) @
        nl d @ CHR ''}'' # r) = json_run (Have_Value (JObj ms)) stk r"
      using JObj.prems
      by (intro json_run_object [where h = "max_depth - (n - 1)"] assms(1,2) False JObj.IH [where n = "n - 1"])
        (auto simp: snds.simps)
    then show ?thesis using False by simp
  qed
qed (rule json_run_scalar; (assumption | simp))+

lemma blank_indent: "blank (indent_nl d)"
  by (induction d) (simp_all add: indent_nl_def blank_def is_space_def list_all_iff)

lemma blank_simps [simp]: "blank []" "blank '' ''"
  by (simp_all add: blank_def is_space_def)

lemma number_end_Nil [simp]: "number_end []"
  by (simp add: number_end_def)

lemma read_marshal:
  assumes "printable n j" and "n \<le> max_depth" and "number_end r"
  shows "json_run Want_Value [] (marshal_text j @ r) = Some (j, r)"
    and "json_run Want_Value [] (marshal_indent_text j @ r) = Some (j, r)"
  using json_run_text [where nl = "\<lambda>_. []" and cw = "[]" and stk = "[]" and w = "[]" and d = 0]
    json_run_text [where nl = indent_nl and cw = "'' ''" and stk = "[]" and w = "[]" and d = 0]
    assms blank_indent
  by (simp_all add: marshal_text_def marshal_indent_text_def json_run.simps(2))

subsection \<open>Metrics survive the trip\<close>

text \<open>What JSON can carry: valid UTF-8 and a gauge that is a number.\<close>

definition json_safe :: "Metrics \<Rightarrow> bool" where
  "json_safe m =
     (utf8_valid (ID m) \<and> utf8_valid (MType m) \<and> utf8_valid (Hash m) \<and>
      (case Value m of None \<Rightarrow> True | Some v \<Rightarrow> f64_finite v))"

lemma number_literal_int: "number_literal (FormatInt i)"
  using FormatInt_decimal unfolding number_literal_def by metis

lemma json_float_literal:
  assumes "f64_finite w"
  obtains l where "json_float w = Some l" "number_literal l" "ParseFloat l = Inr w"
  using json_float_decimal [OF assms] unfolding number_literal_def by metis

lemma fold_field_names [simp]:
  "fold_name ''id'' = ''ID''" "fold_name ''type'' = ''TYPE''" "fold_name ''delta'' = ''DELTA''"
  "fold_name ''value'' = ''VALUE''" "fold_name ''hash'' = ''HASH''"
  by code_simp+

lemma utf8_valid_field_names [simp]:
  "utf8_valid ''id''" "utf8_valid ''type''" "utf8_valid ''delta''" "utf8_valid ''value''" "utf8_valid ''hash''"
  by code_simp+

lemmas decode_defs = decode_metric_def decode_member_def decode_string_def decode_int64_def
  decode_float64_def zero_metric_def parse_int_text_FormatInt number_literal_int Let_def

lemma metric_json_trip:
  assumes "json_safe m"
  obtains j where "metric_json m = Some j" "printable 1 j" "decode_metric j = Some m"
proof -
  obtain i t d v h where m: "m = \<lparr>ID = i, MType = t, Delta = d, Value = v, Hash = h\<rparr>" by (cases m)
  have u: "utf8_valid i" "utf8_valid t" "utf8_valid h" using assms by (simp_all add: json_safe_def m)
  show ?thesis
  proof (cases v)
    case None
    have "\<exists>j. metric_json m = Some j \<and> printable 1 j \<and> decode_metric j = Some m"
      using u by (cases d; cases "h = []") (simp_all add: m None metric_json_def decode_defs)
    then show ?thesis using that by blast
  next
    case (Some w)
    then obtain l where l: "json_float w = Some l" "number_literal l" "ParseFloat l = Inr w"
      using assms json_float_literal by (auto simp: json_safe_def m)
    have "\<exists>j. metric_json m = Some j \<and> printable 1 j \<and> decode_metric j = Some m"
      using u l by (cases d; cases "h = []") (simp_all add: m Some metric_json_def decode_defs)
    then show ?thesis using that by blast
  qed
qed

lemma metrics_json_trip:
  assumes "list_all json_safe ms"
  obtains j where "metrics_json ms = Some j" "printable 2 j" "decode_metrics j = Some ms"
proof -
  from assms have "\<exists>js. all_some (map metric_json ms) = Some js \<and> (\<forall>j \<in> set js. printable 1 j) \<and>
      all_some (map decode_metric js) = Some ms"
  proof (induction ms)
    case (Cons m ms)
    then obtain js where "all_some (map metric_json ms) = Some js" "\<forall>j \<in> set js. printable 1 j"
      "all_some (map decode_metric js) = Some ms" by auto
    moreover obtain j where "metric_json m = Some j" "printable 1 j" "decode_metric j = Some m"
      using Cons.prems metric_json_trip by auto
    ultimately show ?case by (intro exI [of _ "j # js"]) simp
  qed simp
  then show ?thesis using that by (auto simp: metrics_json_def decode_metrics_def)
qed

lemma small_depth: "1 \<le> max_depth" "2 \<le> max_depth"
  by (simp_all add: max_depth_def)

lemma Unmarshal_MarshalIndent:
  assumes "list_all json_safe ms"
  obtains bs where "MarshalIndent_metrics ms = Some bs" and "Unmarshal_metrics bs = Some ms"
proof -
  obtain j where j: "metrics_json ms = Some j" "printable 2 j" "decode_metrics j = Some ms"
    using metrics_json_trip [OF assms] .
  show ?thesis
    using that j read_marshal(2) [OF j(2) small_depth(2), of "[]"]
    by (simp add: MarshalIndent_metrics_def Unmarshal_metrics_def json_unmarshal_value_def skip_ws_def)
qed

lemma Decode_Marshal_metrics:
  assumes "list_all json_safe ms"
  obtains bs where "Marshal_metrics ms = Some bs" and "\<And>r. number_end r \<Longrightarrow> Decode_metrics (bs @ r) = Some ms"
proof -
  obtain j where j: "metrics_json ms = Some j" "printable 2 j" "decode_metrics j = Some ms"
    using metrics_json_trip [OF assms] .
  show ?thesis
    using that j read_marshal(1) [OF j(2) small_depth(2)]
    by (simp add: Marshal_metrics_def Decode_metrics_def json_decode_value_def)
qed

lemma Decode_Marshal_metric:
  assumes "json_safe m"
  obtains bs where "Marshal_metric m = Some bs" and "\<And>r. number_end r \<Longrightarrow> Decode_metric (bs @ r) = Some m"
proof -
  obtain j where j: "metric_json m = Some j" "printable 1 j" "decode_metric j = Some m"
    using metric_json_trip [OF assms] .
  show ?thesis
    using that j read_marshal(1) [OF j(2) small_depth(1)]
    by (simp add: Marshal_metric_def Decode_metric_def json_decode_value_def)
qed

text \<open>A single gauge that is not a number makes the whole list unprintable.\<close>

lemma all_some_None: "None \<in> set xs \<Longrightarrow> all_some xs = None"
  by (induction xs rule: all_some.induct) auto

lemma MarshalIndent_nan:
  assumes "m \<in> set ms" and "Value m = Some v" and "\<not> f64_finite v"
  shows "MarshalIndent_metrics ms = None"
proof -
  have "json_float v = None" using assms(3) f64_trichotomy [of v] by (auto simp: json_float_def)
  then have "metric_json m = None" using assms(2) by (simp add: metric_json_def)
  then have "None \<in> set (map metric_json ms)" using assms(1) by force
  then show ?thesis by (simp add: MarshalIndent_metrics_def metrics_json_def all_some_None)
qed

end
