(* ===== verification/MemStorage.thy ===== *)
theory MemStorage
  imports Storage
begin

section \<open>The in-memory backend\<close>

text \<open>
  \<^verbatim>\<open>internal/repository/storage.go\<close>: two maps behind a \<^verbatim>\<open>sync.RWMutex\<close>. Every method holds the
  lock from its first to its last statement, so a method is one atomic step and a
  concurrent use is some sequence of them. The methods are shown to implement the contract
  of the interface, and the typed snapshot to contain each metric once.
\<close>

record MemStorage =
  gauges :: "(string, float64) gomap"
  counters :: "(string, int64) gomap"

definition NewMemStorage :: MemStorage where
  "NewMemStorage = \<lparr>gauges = make_map, counters = make_map\<rparr>"

definition MemStorage_UpdateGauge :: "MemStorage \<Rightarrow> string \<Rightarrow> float64 \<Rightarrow> MemStorage eff" where
  "MemStorage_UpdateGauge s name val = (None, s\<lparr>gauges := map_set (gauges s) name val\<rparr>)"

text \<open>Reading an absent key of a Go map gives the zero value.\<close>

definition counter_or_zero :: "MemStorage \<Rightarrow> string \<Rightarrow> int64" where
  "counter_or_zero s name = (case map_get (counters s) name of None \<Rightarrow> 0 | Some c \<Rightarrow> c)"

definition MemStorage_UpdateCounter :: "MemStorage \<Rightarrow> string \<Rightarrow> int64 \<Rightarrow> MemStorage eff" where
  "MemStorage_UpdateCounter s name val =
     (None, s\<lparr>counters := map_set (counters s) name (counter_or_zero s name + val)\<rparr>)"

fun MemStorage_batch_loop :: "MemStorage \<Rightarrow> Metrics list \<Rightarrow> MemStorage" where
  "MemStorage_batch_loop s [] = s"
| "MemStorage_batch_loop s (m # ms) =
     MemStorage_batch_loop
       (if MType m = model_Gauge then
          (case Value m of None \<Rightarrow> s
           | Some v \<Rightarrow> s\<lparr>gauges := map_set (gauges s) (ID m) v\<rparr>)
        else if MType m = model_Counter then
          (case Delta m of None \<Rightarrow> s
           | Some d \<Rightarrow> s\<lparr>counters := map_set (counters s) (ID m) (counter_or_zero s (ID m) + d)\<rparr>)
        else s) ms"

definition MemStorage_UpdateBatch :: "MemStorage \<Rightarrow> Metrics list \<Rightarrow> MemStorage eff" where
  "MemStorage_UpdateBatch s metrics = (None, MemStorage_batch_loop s metrics)"

definition MemStorage_GetMetric :: "MemStorage \<Rightarrow> string \<Rightarrow> string \<Rightarrow> Metrics option" where
  "MemStorage_GetMetric s name mType =
     (if mType = model_Gauge then
        (case map_get (gauges s) name of
           Some v \<Rightarrow> Some \<lparr>ID = name, MType = mType, Delta = None, Value = Some v, Hash = []\<rparr>
         | None \<Rightarrow> None)
      else if mType = model_Counter then
        (case map_get (counters s) name of
           Some v \<Rightarrow> Some \<lparr>ID = name, MType = mType, Delta = Some v, Value = None, Hash = []\<rparr>
         | None \<Rightarrow> None)
      else None)"

definition MemStorage_GetValue :: "MemStorage \<Rightarrow> string \<Rightarrow> string \<Rightarrow> string option" where
  "MemStorage_GetValue s mType name =
     (if mType = model_Gauge then
        (case map_get (gauges s) name of Some v \<Rightarrow> Some (FormatFloat_f v) | None \<Rightarrow> None)
      else if mType = model_Counter then
        (case map_get (counters s) name of Some v \<Rightarrow> Some (FormatInt v) | None \<Rightarrow> None)
      else None)"

text \<open>
  \<^verbatim>\<open>GetAllMetrics\<close> fills a new map while ranging over the two maps; \<^verbatim>\<open>Snapshot\<close> appends to a
  slice. Both take the iteration orders Go chooses.
\<close>

definition MemStorage_GetAllMetrics ::
    "(string, float64) map_order \<Rightarrow> (string, int64) map_order \<Rightarrow> MemStorage \<Rightarrow> (string, string) gomap" where
  "MemStorage_GetAllMetrics og oc s =
     (let result = foldl (\<lambda>r (name, v). map_set r (''gauge/'' @ name) (FormatFloat_f v)) make_map
                     (go_range og (gauges s))
      in foldl (\<lambda>r (name, v). map_set r (''counter/'' @ name) (FormatInt v)) result
           (go_range oc (counters s)))"

definition MemStorage_Snapshot ::
    "(string, float64) map_order \<Rightarrow> (string, int64) map_order \<Rightarrow> MemStorage \<Rightarrow> Metrics list" where
  "MemStorage_Snapshot og oc s =
     map (\<lambda>(name, v). gauge_metric name v) (go_range og (gauges s)) @
     map (\<lambda>(name, d). counter_metric name d) (go_range oc (counters s))"

text \<open>The interface value a \<^verbatim>\<open>*MemStorage\<close> is converted to.\<close>

definition MemStorage_Storage ::
    "(string, float64) map_order \<Rightarrow> (string, int64) map_order \<Rightarrow> MemStorage Storage" where
  "MemStorage_Storage og oc =
     \<lparr>UpdateGauge = MemStorage_UpdateGauge, UpdateCounter = MemStorage_UpdateCounter,
      UpdateBatch = MemStorage_UpdateBatch,
      GetMetric = (\<lambda>s n ty. (MemStorage_GetMetric s n ty, s)),
      GetValue = (\<lambda>s ty n. (MemStorage_GetValue s ty n, s)),
      GetAllMetrics = (\<lambda>s. (MemStorage_GetAllMetrics og oc s, s))\<rparr>"

subsection \<open>Invariant and abstraction\<close>

definition mem_ok :: "MemStorage \<Rightarrow> bool" where
  "mem_ok s \<longleftrightarrow> wf_map (gauges s) \<and> wf_map (counters s)"

definition mem_view :: "MemStorage \<Rightarrow> table" where
  "mem_view s = \<lparr>gauge_of = map_get (gauges s), counter_of = map_get (counters s)\<rparr>"

named_theorems mem_defs \<open>definitions of the in-memory backend\<close>

lemmas [mem_defs] = MemStorage_UpdateGauge_def MemStorage_UpdateCounter_def
  MemStorage_UpdateBatch_def MemStorage_GetMetric_def MemStorage_GetValue_def
  mem_ok_def mem_view_def counter_or_zero_def

lemma mem_new: "mem_ok NewMemStorage" "mem_view NewMemStorage = empty_table"
  by (simp_all add: NewMemStorage_def mem_defs empty_table_def)

lemma mem_view_simps [simp]:
  "gauge_of (mem_view s) = map_get (gauges s)" "counter_of (mem_view s) = map_get (counters s)"
  by (simp_all add: mem_view_def)

lemma counter_or_zero_total: "counter_or_zero s n = counter_total (mem_view s) n"
  by (simp add: counter_or_zero_def counter_total_def)

lemma mem_set_gauge:
  assumes "mem_ok s"
  shows "mem_ok (s\<lparr>gauges := map_set (gauges s) n v\<rparr>)"
    and "mem_view (s\<lparr>gauges := map_set (gauges s) n v\<rparr>) = put_gauge n v (mem_view s)"
  using assms by (simp_all add: mem_defs put_gauge_def)

lemma mem_add_counter:
  assumes "mem_ok s"
  shows "mem_ok (s\<lparr>counters := map_set (counters s) n (counter_or_zero s n + d)\<rparr>)"
    and "mem_view (s\<lparr>counters := map_set (counters s) n (counter_or_zero s n + d)\<rparr>) =
      add_counter n d (mem_view s)"
  using assms
  by (simp_all add: mem_ok_def mem_view_def add_counter_def counter_or_zero_def counter_total_def)

lemma mem_batch_loop:
  "mem_ok s \<Longrightarrow> mem_ok (MemStorage_batch_loop s ms) \<and>
     mem_view (MemStorage_batch_loop s ms) = apply_batch ms (mem_view s)"
proof (induction ms arbitrary: s)
  case (Cons m ms)
  then show ?case
    by (auto simp: apply_metric_def mem_set_gauge mem_add_counter split: option.split)
qed simp

subsection \<open>The contract holds\<close>

lemma all_metrics_wf: "wf_map (MemStorage_GetAllMetrics og oc s)"
  by (simp add: MemStorage_GetAllMetrics_def foldl_map_set_wf)

lemma all_metrics_Some:
  assumes "mem_ok s"
  shows "map_get (MemStorage_GetAllMetrics og oc s) k = Some v \<longleftrightarrow>
    (\<exists>n x. k = ''gauge/'' @ n \<and> map_get (gauges s) n = Some x \<and> v = FormatFloat_f x) \<or>
    (\<exists>n d. k = ''counter/'' @ n \<and> map_get (counters s) n = Some d \<and> v = FormatInt d)"
proof -
  have inj: "inj ((@) p)" for p :: string by (simp add: inj_def)
  have wf: "wf_map (gauges s)" "wf_map (counters s)" using assms by (simp_all add: mem_ok_def)
  show ?thesis
    unfolding MemStorage_GetAllMetrics_def Let_def
    by (subst foldl_map_set_Some; (subst foldl_map_set_Some)?)
      (use wf inj in \<open>auto simp: wf_map_in_iff\<close>)
qed

lemma table_value_Some:
  "table_value fmt t ty n = Some v \<longleftrightarrow>
     (ty = model_Gauge \<and> (\<exists>x. gauge_of t n = Some x \<and> v = fmt x)) \<or>
     (ty = model_Counter \<and> (\<exists>d. counter_of t n = Some d \<and> v = FormatInt d))"
  by (auto simp: table_value_def)

lemma table_value_entry:
  "(\<exists>ty n. k = ty @ CHR ''/'' # n \<and> table_value fmt t ty n = Some v) \<longleftrightarrow>
     (\<exists>n x. k = ''gauge/'' @ n \<and> gauge_of t n = Some x \<and> v = fmt x) \<or>
     (\<exists>n d. k = ''counter/'' @ n \<and> counter_of t n = Some d \<and> v = FormatInt d)"
proof -
  have "''gauge/'' @ n = model_Gauge @ CHR ''/'' # n" "''counter/'' @ n = model_Counter @ CHR ''/'' # n" for n
    by (simp_all add: model_Gauge_def model_Counter_def)
  then show ?thesis unfolding table_value_Some by (simp only:) blast
qed

lemma mem_queries:
  "GetMetric (MemStorage_Storage og oc) s n ty = (table_metric (mem_view s) n ty, s)"
  "GetValue (MemStorage_Storage og oc) s ty n = (table_value FormatFloat_f (mem_view s) ty n, s)"
  "GetAllMetrics (MemStorage_Storage og oc) s = (MemStorage_GetAllMetrics og oc s, s)"
  by (auto simp: MemStorage_Storage_def MemStorage_GetMetric_def MemStorage_GetValue_def
      table_metric_def table_value_def split: option.split)

lemma mem_value_table: "MemStorage_GetValue s ty n = table_value FormatFloat_f (mem_view s) ty n"
  by (auto simp: MemStorage_GetValue_def table_value_def split: option.split)

lemma mem_updates:
  "UpdateGauge (MemStorage_Storage og oc) = MemStorage_UpdateGauge"
  "UpdateCounter (MemStorage_Storage og oc) = MemStorage_UpdateCounter"
  "UpdateBatch (MemStorage_Storage og oc) = MemStorage_UpdateBatch"
  by (simp_all add: MemStorage_Storage_def)

interpretation mem: storage_contract "MemStorage_Storage og oc" mem_view mem_ok FormatFloat_f
  for og oc
proof (unfold_locales, goal_cases)
  case (5 s k v)
  then show ?case unfolding table_value_entry by (simp add: mem_queries all_metrics_Some)
qed (simp_all add: mem_queries mem_updates all_metrics_wf MemStorage_UpdateGauge_def
    MemStorage_UpdateCounter_def MemStorage_UpdateBatch_def mem_set_gauge mem_add_counter mem_batch_loop)

subsection \<open>The snapshot\<close>

text \<open>Playing a list of gauges or counters with distinct names into a table.\<close>

lemma batch_values_gauges:
  "batch_values n (map (\<lambda>(k, v). gauge_metric k v) xs) = map snd (filter (\<lambda>(k, v). k = n) xs)"
  "batch_deltas n (map (\<lambda>(k, v). gauge_metric k v) xs) = []"
  by (induction xs) auto

lemma batch_deltas_counters:
  "batch_deltas n (map (\<lambda>(k, d). counter_metric k d) xs) = map snd (filter (\<lambda>(k, d). k = n) xs)"
  "batch_values n (map (\<lambda>(k, d). counter_metric k d) xs) = []"
  by (induction xs) auto

lemma batch_values_append [simp]: "batch_values n (xs @ ys) = batch_values n xs @ batch_values n ys"
  by (induction xs) (auto split: option.split)

lemma batch_deltas_append [simp]: "batch_deltas n (xs @ ys) = batch_deltas n xs @ batch_deltas n ys"
  by (induction xs) (auto split: option.split)

lemma wf_map_filter:
  "wf_map xs \<Longrightarrow> map snd (filter (\<lambda>(k, v). k = n) xs) = (case map_get xs n of None \<Rightarrow> [] | Some v \<Rightarrow> [v])"
proof (induction xs)
  case (Cons x xs)
  obtain k v where [simp]: "x = (k, v)" by (cases x)
  have "map_get xs n = None" if "k = n"
    using that Cons.prems by (simp add: wf_map_def map_get_def map_of_eq_None_iff)
  with Cons show ?case by (auto simp: wf_map_def map_get_def split: option.split)
qed (simp add: map_get_def)

lemma snapshot_values:
  assumes "mem_ok s"
  shows "batch_values n (MemStorage_Snapshot og oc s) =
      (case map_get (gauges s) n of None \<Rightarrow> [] | Some v \<Rightarrow> [v])"
    and "batch_deltas n (MemStorage_Snapshot og oc s) =
      (case map_get (counters s) n of None \<Rightarrow> [] | Some d \<Rightarrow> [d])"
  using assms
  by (simp_all add: MemStorage_Snapshot_def batch_values_gauges batch_deltas_counters
      wf_map_filter mem_ok_def)

text \<open>
  Replaying a snapshot into an empty table gives the table back, whatever the iteration
  orders were.
\<close>

lemma snapshot_replay:
  assumes "mem_ok s"
  shows "apply_batch (MemStorage_Snapshot og oc s) empty_table = mem_view s" (is "?t = _")
proof (rule table.equality)
  show "gauge_of ?t = gauge_of (mem_view s)"
    by (rule ext) (simp add: apply_batch_gauge snapshot_values [OF assms] split: option.split)
  show "counter_of ?t = counter_of (mem_view s)"
  proof
    fix n
    have "counter_total ?t n = counter_total (mem_view s) n"
      by (simp add: apply_batch_total snapshot_values [OF assms])
        (simp add: counter_total_def split: option.split)
    moreover have "counter_of ?t n = None \<longleftrightarrow> counter_of (mem_view s) n = None"
      by (simp add: apply_batch_counter_known snapshot_values [OF assms] split: option.split)
    ultimately show "counter_of ?t n = counter_of (mem_view s) n"
      by (auto simp: counter_total_def split: option.splits)
  qed
qed simp

subsection \<open>Properties\<close>

text \<open>
  C11. Functional behaviour of \<^verbatim>\<open>UpdateBatch\<close> (storage.go): it never fails, keeps the maps
  well-formed, adds to each counter the sum (modulo 2^64) of all deltas the batch carries for
  it, leaves in each gauge the last value the batch carries for it, and touches no other
  metric. Entries of an unknown type or without their value are skipped.
\<close>

theorem mem_batch_effect:
  assumes "mem_ok s" and "MemStorage_UpdateBatch s ms = (e, s')"
  shows "e = None \<and> mem_ok s' \<and>
    (\<forall>n. counter_or_zero s' n = counter_or_zero s n + sum_list (batch_deltas n ms)) \<and>
    (\<forall>n. map_get (counters s') n = None \<longleftrightarrow> map_get (counters s) n = None \<and> batch_deltas n ms = []) \<and>
    (\<forall>n. map_get (gauges s') n =
       (if batch_values n ms = [] then map_get (gauges s) n else Some (last (batch_values n ms))))"
proof -
  have s': "e = None" "s' = MemStorage_batch_loop s ms" using assms(2) by (simp_all add: MemStorage_UpdateBatch_def)
  have v: "mem_ok s'" "mem_view s' = apply_batch ms (mem_view s)"
    using mem_batch_loop [OF assms(1)] s' by simp_all
  have "counter_of (mem_view s') = map_get (counters s')" "gauge_of (mem_view s') = map_get (gauges s')" by simp_all
  then show ?thesis
    using s'(1) v(1) unfolding counter_or_zero_total
    by (simp add: v(2) apply_batch_total apply_batch_gauge apply_batch_counter_known flip: mem_view_simps)
qed

definition sample_batch :: "Metrics list" where
  "sample_batch =
     [counter_metric ''c'' 5, gauge_metric ''g'' 1, counter_metric ''c'' 3, gauge_metric ''g'' 2,
      (counter_metric ''g'' 1)\<lparr>MType := ''histogram''\<rparr>]"

theorem mem_batch_effect_witness:
  "let s' = snd (MemStorage_UpdateBatch NewMemStorage sample_batch)
   in counter_or_zero s' ''c'' = 8 \<and> map_get (gauges s') ''g'' = Some 2 \<and> map_get (counters s') ''g'' = None"
proof -
  obtain e s' where s': "MemStorage_UpdateBatch NewMemStorage sample_batch = (e, s')" by fastforce
  have b: "sum_list (batch_deltas ''c'' sample_batch) = 8" "batch_deltas ''g'' sample_batch = []"
    "batch_values ''g'' sample_batch = [1, 2]"
    by (simp_all add: sample_batch_def model_Gauge_def model_Counter_def)
  have "counter_or_zero s' ''c'' = 8" "map_get (gauges s') ''g'' = Some 2" "map_get (counters s') ''g'' = None"
    using mem_batch_effect [OF mem_new(1) s'] b by (auto simp: counter_or_zero_def NewMemStorage_def)
  then show ?thesis by (simp add: s')
qed

text \<open>
  C16. \<^verbatim>\<open>GetAllMetrics\<close> (storage.go): whatever order Go iterates the maps in, the result has one
  entry per stored metric, under the key \<^verbatim>\<open>"<type>/<name>"\<close> and with the text \<^verbatim>\<open>GetValue\<close> gives
  for it, and no other entry.
\<close>

theorem all_metrics_complete:
  assumes "mem_ok s"
  shows "wf_map (MemStorage_GetAllMetrics og oc s) \<and>
    (\<forall>k v. map_get (MemStorage_GetAllMetrics og oc s) k = Some v \<longleftrightarrow>
      (\<exists>ty n. k = ty @ CHR ''/'' # n \<and> MemStorage_GetValue s ty n = Some v))"
  using mem.get_all [OF assms, of og oc] mem.get_all_wf [OF assms, of og oc]
  by (simp add: mem_queries mem_value_table)

theorem all_metrics_complete_witness:
  "let s = snd (MemStorage_UpdateCounter NewMemStorage ''hits'' (-4))
   in map_get (MemStorage_GetAllMetrics id id s) ''counter/hits'' = Some ''-4'' \<and>
      map_get (MemStorage_GetAllMetrics id id s) ''gauge/hits'' = None"
proof -
  let ?s = "snd (MemStorage_UpdateCounter NewMemStorage ''hits'' (-4))"
  have ok: "mem_ok ?s" by (simp add: MemStorage_UpdateCounter_def mem_ok_def NewMemStorage_def)
  have "MemStorage_GetValue ?s ''counter'' ''hits'' = Some ''-4''" by code_simp
  then have "map_get (MemStorage_GetAllMetrics id id ?s) ''counter/hits'' = Some ''-4''"
    using all_metrics_complete [OF ok, of id id] by fastforce
  moreover have "map_get (MemStorage_GetAllMetrics id id ?s) ''gauge/hits'' = None" by code_simp
  ultimately show ?thesis by simp
qed

text \<open>
  C17. \<^verbatim>\<open>Snapshot\<close> is complete (storage.go): replaying a snapshot through \<^verbatim>\<open>UpdateBatch\<close> into a new
  storage gives a storage with the same metrics, for every iteration order of the two maps.
\<close>

theorem snapshot_rebuilds:
  assumes "mem_ok s"
  shows "\<exists>s'. MemStorage_UpdateBatch NewMemStorage (MemStorage_Snapshot og oc s) = (None, s') \<and> mem_ok s' \<and>
    mem_view s' = mem_view s"
  using mem_batch_loop [OF mem_new(1), of "MemStorage_Snapshot og oc s"] snapshot_replay [OF assms, of og oc]
  by (simp add: MemStorage_UpdateBatch_def mem_new(2))

theorem snapshot_rebuilds_witness:
  "let s = snd (MemStorage_UpdateBatch NewMemStorage sample_batch)
   in \<exists>s'. MemStorage_UpdateBatch NewMemStorage (MemStorage_Snapshot rev id s) = (None, s') \<and>
        mem_view s' = mem_view s"
  using snapshot_rebuilds [of "snd (MemStorage_UpdateBatch NewMemStorage sample_batch)" rev id]
    mem_batch_loop [OF mem_new(1), of sample_batch]
  by (auto simp: Let_def MemStorage_UpdateBatch_def)

end
