(* ===== verification/Service.thy ===== *)
theory Service
  imports MemStorage
begin

section \<open>The metric service\<close>

text \<open>
  \<^verbatim>\<open>internal/service\<close>: the business logic on top of a storage. The service holds a storage
  and an optional callback that is invoked after every successful update (the server
  registers the file backend's synchronous save there). A storage error is passed on
  wrapped; the service's own errors are sentinels.
\<close>

subsection \<open>internal/service/errors.go\<close>

definition ErrMetricNotFound :: error where "ErrMetricNotFound = Sentinel ''metric not found''"
definition ErrUnknownType :: error where "ErrUnknownType = Sentinel ''unknown metric type''"
definition ErrMetricNameEmpty :: error where "ErrMetricNameEmpty = Sentinel ''metric name is empty''"
definition ErrValueRequired :: error where "ErrValueRequired = Sentinel ''value is required for gauge''"
definition ErrDeltaRequired :: error where "ErrDeltaRequired = Sentinel ''delta is required for counter''"

subsection \<open>internal/service/metrics.go\<close>

record 's MetricService =
  storage :: "'s Storage"
  onUpdate :: "('s \<Rightarrow> 's) option"

definition NewMetricService :: "'s Storage \<Rightarrow> 's MetricService" where
  "NewMetricService st = \<lparr>storage = st, onUpdate = None\<rparr>"

definition SetOnUpdate :: "'s MetricService \<Rightarrow> ('s \<Rightarrow> 's) \<Rightarrow> 's MetricService" where
  "SetOnUpdate svc fn = svc\<lparr>onUpdate := Some fn\<rparr>"

definition notifyUpdate :: "'s MetricService \<Rightarrow> 's \<Rightarrow> 's" where
  "notifyUpdate svc s = (case onUpdate svc of None \<Rightarrow> s | Some fn \<Rightarrow> fn s)"

definition MetricService_UpdateMetric ::
    "'s MetricService \<Rightarrow> 's \<Rightarrow> string \<Rightarrow> string \<Rightarrow> string \<Rightarrow> 's eff" where
  "MetricService_UpdateMetric svc s mType name val =
     (if mType = model_Gauge then
        (case ParseFloat val of
           Inl err \<Rightarrow> (Some (Wrapf ''invalid gauge value: %w'' [] err), s)
         | Inr v \<Rightarrow>
             (case UpdateGauge (storage svc) s name v of
                (Some err, s') \<Rightarrow> (Some err, s')
              | (None, s') \<Rightarrow> (None, notifyUpdate svc s')))
      else if mType = model_Counter then
        (case ParseInt val of
           Inl err \<Rightarrow> (Some (Wrapf ''invalid counter value: %w'' [] err), s)
         | Inr v \<Rightarrow>
             (case UpdateCounter (storage svc) s name v of
                (Some err, s') \<Rightarrow> (Some err, s')
              | (None, s') \<Rightarrow> (None, notifyUpdate svc s')))
      else (Some ErrUnknownType, s))"

definition MetricService_UpdateMetricFromModel ::
    "'s MetricService \<Rightarrow> 's \<Rightarrow> Metrics \<Rightarrow> 's eff" where
  "MetricService_UpdateMetricFromModel svc s m =
     (if MType m = model_Gauge then
        (case Value m of
           None \<Rightarrow> (Some ErrValueRequired, s)
         | Some v \<Rightarrow>
             (case UpdateGauge (storage svc) s (ID m) v of
                (Some err, s') \<Rightarrow> (Some (Wrapf ''failed to update gauge %q: %w'' [ID m] err), s')
              | (None, s') \<Rightarrow> (None, notifyUpdate svc s')))
      else if MType m = model_Counter then
        (case Delta m of
           None \<Rightarrow> (Some ErrDeltaRequired, s)
         | Some d \<Rightarrow>
             (case UpdateCounter (storage svc) s (ID m) d of
                (Some err, s') \<Rightarrow> (Some (Wrapf ''failed to update counter %q: %w'' [ID m] err), s')
              | (None, s') \<Rightarrow> (None, notifyUpdate svc s')))
      else (Some ErrUnknownType, s))"

definition MetricService_UpdateBatch :: "'s MetricService \<Rightarrow> 's \<Rightarrow> Metrics list \<Rightarrow> 's eff" where
  "MetricService_UpdateBatch svc s metrics =
     (if metrics = [] then (None, s)
      else case UpdateBatch (storage svc) s metrics of
             (Some err, s') \<Rightarrow> (Some (Wrapf ''batch update failed: %w'' [] err), s')
           | (None, s') \<Rightarrow> (None, notifyUpdate svc s'))"

definition MetricService_GetMetric ::
    "'s MetricService \<Rightarrow> 's \<Rightarrow> string \<Rightarrow> string \<Rightarrow> (error + Metrics) \<times> 's" where
  "MetricService_GetMetric svc s mType name =
     (if name = [] then (Inl ErrMetricNameEmpty, s)
      else if mType \<noteq> model_Gauge \<and> mType \<noteq> model_Counter then (Inl ErrUnknownType, s)
      else case GetMetric (storage svc) s name mType of
             (None, s') \<Rightarrow> (Inl ErrMetricNotFound, s')
           | (Some m, s') \<Rightarrow> (Inr m, s'))"

definition MetricService_GetValue ::
    "'s MetricService \<Rightarrow> 's \<Rightarrow> string \<Rightarrow> string \<Rightarrow> (error + string) \<times> 's" where
  "MetricService_GetValue svc s mType name =
     (if name = [] then (Inl ErrMetricNameEmpty, s)
      else if mType \<noteq> model_Gauge \<and> mType \<noteq> model_Counter then (Inl ErrUnknownType, s)
      else case GetValue (storage svc) s mType name of
             (Some val, s') \<Rightarrow> (Inr val, s')
           | (None, s') \<Rightarrow> (Inl ErrMetricNotFound, s'))"

definition MetricService_GetAllMetrics ::
    "'s MetricService \<Rightarrow> 's \<Rightarrow> (string, string) gomap \<times> 's" where
  "MetricService_GetAllMetrics svc s = GetAllMetrics (storage svc) s"

subsection \<open>What the service promises over any storage that keeps its contract\<close>

text \<open>
  The metric a textual update stands for, or the error that rejects it: the service's
  textual and JSON entry points differ only in this decoding.
\<close>

definition text_metric :: "string \<Rightarrow> string \<Rightarrow> string \<Rightarrow> error + Metrics" where
  "text_metric mType name val =
     (if mType = model_Gauge then
        (case ParseFloat val of Inl err \<Rightarrow> Inl (Wrapf ''invalid gauge value: %w'' [] err)
         | Inr v \<Rightarrow> Inr (gauge_metric name v))
      else if mType = model_Counter then
        (case ParseInt val of Inl err \<Rightarrow> Inl (Wrapf ''invalid counter value: %w'' [] err)
         | Inr d \<Rightarrow> Inr (counter_metric name d))
      else Inl ErrUnknownType)"

definition model_error :: "Metrics \<Rightarrow> error option" where
  "model_error m =
     (if MType m = model_Gauge then (if Value m = None then Some ErrValueRequired else None)
      else if MType m = model_Counter then (if Delta m = None then Some ErrDeltaRequired else None)
      else Some ErrUnknownType)"

text \<open>
  The service over a storage that keeps its contract, with a callback that leaves the
  metrics alone.
\<close>

locale service_contract = storage_contract +
  fixes cb :: "('s \<Rightarrow> 's) option"
  assumes callback: "ok s \<Longrightarrow> cb = Some f \<Longrightarrow> ok (f s) \<and> view (f s) = view s"
begin

abbreviation the_svc :: "'s MetricService" where
  "the_svc \<equiv> \<lparr>storage = st, onUpdate = cb\<rparr>"

lemma notify: "ok s \<Longrightarrow> ok (notifyUpdate the_svc s) \<and> view (notifyUpdate the_svc s) = view s"
  by (simp add: notifyUpdate_def callback split: option.split)

text \<open>
  A store that succeeds, followed by the callback: \<open>stored m s s'\<close> says that \<open>s'\<close> is what the
  callback makes of a state that holds the metrics of \<open>s\<close> with \<open>m\<close> applied.
\<close>

definition stored :: "(table \<Rightarrow> table) \<Rightarrow> 's \<Rightarrow> 's \<Rightarrow> bool" where
  "stored f s s' \<longleftrightarrow> (\<exists>s0. s' = notifyUpdate the_svc s0 \<and> ok s0 \<and> view s0 = f (view s))"

lemma stored_view: "stored f s s' \<Longrightarrow> ok s' \<and> view s' = f (view s)"
  using notify by (auto simp: stored_def)

lemma gauge_then_notify:
  assumes "ok s"
  shows "\<exists>s'. (case UpdateGauge st s n v of (Some err, t) \<Rightarrow> F err t
      | (None, t) \<Rightarrow> (None, notifyUpdate the_svc t)) = (None, s') \<and> stored (put_gauge n v) s s'"
  using update_gauge [OF assms, of n v] by (auto simp: stored_def)

lemma counter_then_notify:
  assumes "ok s"
  shows "\<exists>s'. (case UpdateCounter st s n d of (Some err, t) \<Rightarrow> F err t
      | (None, t) \<Rightarrow> (None, notifyUpdate the_svc t)) = (None, s') \<and> stored (add_counter n d) s s'"
  using update_counter [OF assms, of n d] by (auto simp: stored_def)

lemma text_stored:
  assumes "ok s"
  shows "case text_metric ty n val of
      Inl err \<Rightarrow> MetricService_UpdateMetric the_svc s ty n val = (Some err, s)
    | Inr m \<Rightarrow> \<exists>s'. MetricService_UpdateMetric the_svc s ty n val = (None, s') \<and> stored (apply_metric m) s s'"
  by (simp add: text_metric_def MetricService_UpdateMetric_def gauge_then_notify [OF assms]
      counter_then_notify [OF assms] split: sum.split)

lemma update_text:
  assumes "ok s"
  shows "case text_metric ty n val of
      Inl err \<Rightarrow> MetricService_UpdateMetric the_svc s ty n val = (Some err, s)
    | Inr m \<Rightarrow> \<exists>s'. MetricService_UpdateMetric the_svc s ty n val = (None, s') \<and> ok s' \<and>
        view s' = apply_metric m (view s)"
  using text_stored [OF assms, of ty n val] stored_view by (fastforce split: sum.splits)

lemma model_stored:
  assumes "ok s" and "model_error m = None"
  shows "\<exists>s'. MetricService_UpdateMetricFromModel the_svc s m = (None, s') \<and> stored (apply_metric m) s s'"
proof -
  consider v where "MType m = model_Gauge" "Value m = Some v"
    | d where "MType m = model_Counter" "Delta m = Some d"
    using assms(2) by (auto simp: model_error_def split: if_splits)
  then show ?thesis
  proof cases
    case 1
    then have "apply_metric m = put_gauge (ID m) v" by (simp add: apply_metric_def fun_eq_iff)
    with 1 show ?thesis
      using gauge_then_notify [OF assms(1)] by (simp add: MetricService_UpdateMetricFromModel_def)
  next
    case 2
    then have "apply_metric m = add_counter (ID m) d" by (simp add: apply_metric_def fun_eq_iff)
    with 2 show ?thesis
      using counter_then_notify [OF assms(1)] by (simp add: MetricService_UpdateMetricFromModel_def)
  qed
qed

lemma model_rejected:
  "model_error m = Some err \<Longrightarrow> MetricService_UpdateMetricFromModel the_svc s m = (Some err, s)"
  by (auto simp: model_error_def MetricService_UpdateMetricFromModel_def split: if_splits)

lemma update_model:
  assumes "ok s"
  shows "case model_error m of
      Some err \<Rightarrow> MetricService_UpdateMetricFromModel the_svc s m = (Some err, s)
    | None \<Rightarrow> \<exists>s'. MetricService_UpdateMetricFromModel the_svc s m = (None, s') \<and> ok s' \<and>
        view s' = apply_metric m (view s)"
proof (cases "model_error m")
  case None
  then show ?thesis using model_stored [OF assms None] stored_view by fastforce
next
  case (Some err)
  then show ?thesis using model_rejected by simp
qed

lemma list_stored:
  assumes "ok s" and "ms \<noteq> []"
  shows "\<exists>s'. MetricService_UpdateBatch the_svc s ms = (None, s') \<and> stored (apply_batch ms) s s'"
  using update_batch [OF assms(1), of ms] assms(2)
  by (auto simp: MetricService_UpdateBatch_def stored_def)

lemma update_list:
  assumes "ok s"
  shows "\<exists>s'. MetricService_UpdateBatch the_svc s ms = (None, s') \<and> ok s' \<and>
    view s' = apply_batch ms (view s)"
proof (cases "ms = []")
  case True
  then show ?thesis using assms by (simp add: MetricService_UpdateBatch_def)
next
  case False
  then show ?thesis using list_stored [OF assms False] stored_view by blast
qed

lemma query_metric:
  "ok s \<Longrightarrow> MetricService_GetMetric the_svc s ty n =
     (if n = [] then Inl ErrMetricNameEmpty
      else if ty \<noteq> model_Gauge \<and> ty \<noteq> model_Counter then Inl ErrUnknownType
      else case table_metric (view s) n ty of None \<Rightarrow> Inl ErrMetricNotFound | Some m \<Rightarrow> Inr m, s)"
  by (auto simp: MetricService_GetMetric_def get_metric split: option.split)

lemma query_value:
  "ok s \<Longrightarrow> MetricService_GetValue the_svc s ty n =
     (if n = [] then Inl ErrMetricNameEmpty
      else if ty \<noteq> model_Gauge \<and> ty \<noteq> model_Counter then Inl ErrUnknownType
      else case table_value fmt (view s) ty n of None \<Rightarrow> Inl ErrMetricNotFound | Some v \<Rightarrow> Inr v, s)"
  by (auto simp: MetricService_GetValue_def get_value split: option.split)

text \<open>An accepted textual update is what the next query for that metric returns.\<close>

lemma text_then_query:
  assumes "ok s" and "n \<noteq> []" and "text_metric ty n val = Inr m"
    and "MetricService_UpdateMetric the_svc s ty n val = (e, s')"
  shows "e = None \<and> fst (MetricService_GetMetric the_svc s' ty n) = Inr
      (if ty = model_Gauge then m else counter_metric n (counter_total (view s) n + the (Delta m)))"
proof -
  from update_text [OF assms(1), of ty n val] assms(3,4)
  have "e = None" "ok s'" "view s' = apply_metric m (view s)" by auto
  with assms(2,3) show ?thesis
    by (auto simp: query_metric text_metric_def table_metric_def split: if_splits sum.splits)
qed

end

interpretation mem_svc: service_contract "MemStorage_Storage og oc" mem_view mem_ok FormatFloat_f None
  for og oc
  by unfold_locales simp

subsection \<open>Properties\<close>

text \<open>
  C12. The textual update is total and has exactly its effect (service/metrics.go UpdateMetric
  over storage.go): a type other than gauge and counter, or a value that does not parse, is
  an error and changes nothing; otherwise the update succeeds and the storage holds the old
  metrics with that one gauge replaced, or that one counter increased.
\<close>

theorem update_metric_total:
  assumes "mem_ok s"
  shows "case text_metric ty n val of
      Inl err \<Rightarrow> MetricService_UpdateMetric (NewMetricService (MemStorage_Storage og oc)) s ty n val = (Some err, s)
    | Inr m \<Rightarrow> \<exists>s'. MetricService_UpdateMetric (NewMetricService (MemStorage_Storage og oc)) s ty n val = (None, s') \<and>
        mem_ok s' \<and> mem_view s' = apply_metric m (mem_view s)"
  unfolding NewMetricService_def by (rule mem_svc.update_text [OF assms])

theorem update_metric_total_witness:
  "\<exists>s'. MetricService_UpdateMetric (NewMetricService (MemStorage_Storage id id)) NewMemStorage
      ''counter'' ''hits'' ''-12'' = (None, s') \<and> mem_view s' = add_counter ''hits'' (- 12) empty_table"
proof -
  have t: "text_metric ''counter'' ''hits'' ''-12'' = Inr (counter_metric ''hits'' (- 12))" by code_simp
  show ?thesis
    using update_metric_total [OF mem_new(1), where ty = "''counter''" and n = "''hits''" and val = "''-12''" and og = id and oc = id]
    by (auto simp: t mem_new(2))
qed

text \<open>
  C13. The JSON update is total and has exactly its effect (service/metrics.go
  UpdateMetricFromModel): an unknown type, a gauge without value or a counter without delta
  is rejected with its own sentinel and changes nothing; every other metric is applied.
\<close>

theorem update_model_total:
  assumes "mem_ok s"
  shows "case model_error m of
      Some err \<Rightarrow> MetricService_UpdateMetricFromModel (NewMetricService (MemStorage_Storage og oc)) s m = (Some err, s)
    | None \<Rightarrow> \<exists>s'. MetricService_UpdateMetricFromModel (NewMetricService (MemStorage_Storage og oc)) s m = (None, s') \<and>
        mem_ok s' \<and> mem_view s' = apply_metric m (mem_view s)"
  unfolding NewMetricService_def by (rule mem_svc.update_model [OF assms])

theorem update_model_total_witness:
  "MetricService_UpdateMetricFromModel (NewMetricService (MemStorage_Storage id id)) NewMemStorage
     ((gauge_metric ''cpu'' 1)\<lparr>Value := None\<rparr>) = (Some ErrValueRequired, NewMemStorage)"
  using update_model_total [OF mem_new(1), where m = "(gauge_metric ''cpu'' 1)\<lparr>Value := None\<rparr>" and og = id and oc = id]
  by (simp add: model_error_def)

text \<open>
  C14. What is stored is what is read (service/metrics.go UpdateMetric then GetMetric): after
  an accepted textual update of a metric with a name, \<^verbatim>\<open>GetMetric\<close> returns the gauge's new
  value, or the counter's old total plus the sent delta modulo 2^64.
\<close>

theorem update_then_get:
  assumes "mem_ok s" and "n \<noteq> []" and "text_metric ty n val = Inr m"
    and "MetricService_UpdateMetric (NewMetricService (MemStorage_Storage og oc)) s ty n val = (e, s')"
  shows "e = None \<and> MetricService_GetMetric (NewMetricService (MemStorage_Storage og oc)) s' ty n =
    (Inr (if ty = model_Gauge then m else counter_metric n (counter_or_zero s n + the (Delta m))), s')"
proof -
  have "mem_ok s'"
    using mem_svc.update_text [OF assms(1), of og oc ty n val] assms(3,4) by (auto simp: NewMetricService_def)
  then show ?thesis
    using mem_svc.text_then_query [OF assms(1-3), of og oc e s'] assms(4) mem_svc.query_metric [of s' og oc ty n]
    by (auto simp: NewMetricService_def counter_or_zero_total)
qed

theorem update_then_get_witness:
  "let svc = NewMetricService (MemStorage_Storage id id);
       s = snd (MetricService_UpdateMetric svc NewMemStorage ''counter'' ''hits'' ''9223372036854775807'');
       s' = snd (MetricService_UpdateMetric svc s ''counter'' ''hits'' ''1'')
   in MetricService_GetMetric svc s' ''counter'' ''hits'' =
        (Inr (counter_metric ''hits'' (- 9223372036854775808)), s')"
proof -
  let ?svc = "NewMetricService (MemStorage_Storage id id)"
  let ?s = "snd (MetricService_UpdateMetric ?svc NewMemStorage ''counter'' ''hits'' ''9223372036854775807'')"
  have ok: "mem_ok ?s" by code_simp
  have t: "text_metric ''counter'' ''hits'' ''1'' = Inr (counter_metric ''hits'' 1)" by code_simp
  have c: "counter_or_zero ?s ''hits'' + 1 = - 9223372036854775808" by code_simp
  obtain e s' where s': "MetricService_UpdateMetric ?svc ?s ''counter'' ''hits'' ''1'' = (e, s')" by fastforce
  show ?thesis
    using update_then_get [OF ok _ t s'] c unfolding Let_def s' snd_conv by (simp add: model_Gauge_def)
qed

end
