(* ===== verification/FileStorage.thy ===== *)
theory FileStorage
  imports MetricsJson Service
begin

section \<open>The file backend\<close>

text \<open>
  \<^verbatim>\<open>internal/repository/filestorage.go\<close>: the in-memory backend plus snapshots in a JSON file.
  The state holds the file system's contents and the log beside the struct's fields. What
  the operating system does with a read or write of a file is a parameter: it may fail, and
  a failed write may leave any contents behind.
\<close>

record FileBackedStorage =
  mem :: MemStorage
  path :: string
  files :: "(string, bytes) gomap"
  log :: "string list"

text \<open>
  The faults of \<^verbatim>\<open>os.ReadFile\<close> and \<^verbatim>\<open>os.WriteFile\<close>: \<open>None\<close> is success. A failed write gives
  its error and what it left in the file, \<open>None\<close> when it did not touch it.
\<close>

record os_faults =
  read_fault :: "string \<Rightarrow> error option"
  write_fault :: "string \<Rightarrow> bytes \<Rightarrow> (error \<times> bytes option) option"

type_synonym gauge_order = "(string, float64) map_order"
type_synonym counter_order = "(string, int64) map_order"

definition NewFileBackedStorage ::
    "string \<Rightarrow> (string, bytes) gomap \<Rightarrow> string list \<Rightarrow> FileBackedStorage" where
  "NewFileBackedStorage p fs lg = \<lparr>mem = NewMemStorage, path = p, files = fs, log = lg\<rparr>"

text \<open>Delegation to the wrapped \<^verbatim>\<open>MemStorage\<close>.\<close>

definition FileBackedStorage_UpdateGauge ::
    "FileBackedStorage \<Rightarrow> string \<Rightarrow> float64 \<Rightarrow> FileBackedStorage eff" where
  "FileBackedStorage_UpdateGauge s name val =
     (case MemStorage_UpdateGauge (mem s) name val of (e, m) \<Rightarrow> (e, s\<lparr>mem := m\<rparr>))"

definition FileBackedStorage_UpdateCounter ::
    "FileBackedStorage \<Rightarrow> string \<Rightarrow> int64 \<Rightarrow> FileBackedStorage eff" where
  "FileBackedStorage_UpdateCounter s name val =
     (case MemStorage_UpdateCounter (mem s) name val of (e, m) \<Rightarrow> (e, s\<lparr>mem := m\<rparr>))"

definition FileBackedStorage_UpdateBatch ::
    "FileBackedStorage \<Rightarrow> Metrics list \<Rightarrow> FileBackedStorage eff" where
  "FileBackedStorage_UpdateBatch s metrics =
     (case MemStorage_UpdateBatch (mem s) metrics of (e, m) \<Rightarrow> (e, s\<lparr>mem := m\<rparr>))"

definition FileBackedStorage_Storage :: "gauge_order \<Rightarrow> counter_order \<Rightarrow> FileBackedStorage Storage" where
  "FileBackedStorage_Storage og oc =
     \<lparr>UpdateGauge = FileBackedStorage_UpdateGauge, UpdateCounter = FileBackedStorage_UpdateCounter,
      UpdateBatch = FileBackedStorage_UpdateBatch,
      GetMetric = (\<lambda>s n ty. (MemStorage_GetMetric (mem s) n ty, s)),
      GetValue = (\<lambda>s ty n. (MemStorage_GetValue (mem s) ty n, s)),
      GetAllMetrics = (\<lambda>s. (MemStorage_GetAllMetrics og oc (mem s), s))\<rparr>"

definition os_WriteFile ::
    "os_faults \<Rightarrow> FileBackedStorage \<Rightarrow> bytes \<Rightarrow> FileBackedStorage eff" where
  "os_WriteFile os s data =
     (case write_fault os (path s) data of
        None \<Rightarrow> (None, s\<lparr>files := map_set (files s) (path s) data\<rparr>)
      | Some (e, None) \<Rightarrow> (Some e, s)
      | Some (e, Some left) \<Rightarrow> (Some e, s\<lparr>files := map_set (files s) (path s) left\<rparr>))"

text \<open>The error of the JSON encoder for a number that has no JSON text.\<close>

definition json_unsupported_value :: error where
  "json_unsupported_value = Opaque ''json: unsupported value''"

definition json_decode_error :: error where
  "json_decode_error = Opaque ''json: invalid input''"

definition FileBackedStorage_Save ::
    "os_faults \<Rightarrow> gauge_order \<Rightarrow> counter_order \<Rightarrow> FileBackedStorage \<Rightarrow> FileBackedStorage eff" where
  "FileBackedStorage_Save os og oc s =
     (case MarshalIndent_metrics (MemStorage_Snapshot og oc (mem s)) of
        None \<Rightarrow> (Some json_unsupported_value, s)
      | Some data \<Rightarrow> os_WriteFile os s data)"

fun load_loop :: "MemStorage \<Rightarrow> Metrics list \<Rightarrow> MemStorage" where
  "load_loop s [] = s"
| "load_loop s (m # ms) =
     load_loop
       (if MType m = model_Gauge then
          (case Value m of None \<Rightarrow> s | Some v \<Rightarrow> snd (MemStorage_UpdateGauge s (ID m) v))
        else if MType m = model_Counter then
          (case Delta m of None \<Rightarrow> s | Some d \<Rightarrow> snd (MemStorage_UpdateCounter s (ID m) d))
        else s) ms"

definition FileBackedStorage_Load :: "os_faults \<Rightarrow> FileBackedStorage \<Rightarrow> FileBackedStorage eff" where
  "FileBackedStorage_Load os s =
     (case map_get (files s) (path s) of
        None \<Rightarrow> (None, s)
      | Some data \<Rightarrow>
          (case read_fault os (path s) of
             Some e \<Rightarrow> (Some e, s)
           | None \<Rightarrow>
               (case Unmarshal_metrics data of
                  None \<Rightarrow> (Some json_decode_error, s)
                | Some metrics \<Rightarrow> (None, s\<lparr>mem := load_loop (mem s) metrics\<rparr>))))"

definition write_log :: "string \<Rightarrow> FileBackedStorage \<Rightarrow> FileBackedStorage" where
  "write_log msg s = s\<lparr>log := log s @ [msg]\<rparr>"

definition FileBackedStorage_SaveOnUpdate ::
    "os_faults \<Rightarrow> gauge_order \<Rightarrow> counter_order \<Rightarrow> FileBackedStorage \<Rightarrow> FileBackedStorage" where
  "FileBackedStorage_SaveOnUpdate os og oc s =
     (case FileBackedStorage_Save os og oc s of
        (Some e, s') \<Rightarrow> write_log ''sync save failed'' s'
      | (None, s') \<Rightarrow> s')"

definition FileBackedStorage_Close ::
    "os_faults \<Rightarrow> gauge_order \<Rightarrow> counter_order \<Rightarrow> FileBackedStorage \<Rightarrow> FileBackedStorage eff" where
  "FileBackedStorage_Close os og oc s = FileBackedStorage_Save os og oc s"

text \<open>
  The goroutine of \<^verbatim>\<open>StartPeriodicSave\<close>, as the sequence of channel operations its \<^verbatim>\<open>select\<close>
  takes: the ticker, or the cancelled context, which ends it. Between two of its steps the
  server may use the storage; \<open>use\<close> is what it does before each step.
\<close>

datatype save_event = Ticker_C | Ctx_Done

fun periodic_save_loop ::
    "os_faults \<Rightarrow> gauge_order \<Rightarrow> counter_order \<Rightarrow>
     ((FileBackedStorage \<Rightarrow> FileBackedStorage) \<times> save_event) list \<Rightarrow> FileBackedStorage \<Rightarrow> FileBackedStorage" where
  "periodic_save_loop os og oc [] s = s"
| "periodic_save_loop os og oc ((use, Ctx_Done) # evs) s = use s"
| "periodic_save_loop os og oc ((use, Ticker_C) # evs) s =
     periodic_save_loop os og oc evs
       (case FileBackedStorage_Save os og oc (use s) of
          (Some e, s') \<Rightarrow> write_log ''periodic save failed'' s'
        | (None, s') \<Rightarrow> write_log ''metrics saved'' s')"

subsection \<open>The contract holds\<close>

definition file_ok :: "FileBackedStorage \<Rightarrow> bool" where
  "file_ok s = mem_ok (mem s)"

definition file_view :: "FileBackedStorage \<Rightarrow> table" where
  "file_view s = mem_view (mem s)"

lemma file_updates:
  "UpdateGauge (FileBackedStorage_Storage og oc) = FileBackedStorage_UpdateGauge"
  "UpdateCounter (FileBackedStorage_Storage og oc) = FileBackedStorage_UpdateCounter"
  "UpdateBatch (FileBackedStorage_Storage og oc) = FileBackedStorage_UpdateBatch"
  by (simp_all add: FileBackedStorage_Storage_def)

lemma file_queries:
  "GetMetric (FileBackedStorage_Storage og oc) s n ty = (table_metric (file_view s) n ty, s)"
  "GetValue (FileBackedStorage_Storage og oc) s ty n = (table_value FormatFloat_f (file_view s) ty n, s)"
  "GetAllMetrics (FileBackedStorage_Storage og oc) s = (MemStorage_GetAllMetrics og oc (mem s), s)"
  using mem_queries [of og oc "mem s"]
  by (simp_all add: FileBackedStorage_Storage_def MemStorage_Storage_def file_view_def)

interpretation fbs: storage_contract "FileBackedStorage_Storage og oc" file_view file_ok FormatFloat_f
  for og oc
proof unfold_locales
  fix s ms n v d
  assume ok: "file_ok s"
  then have m: "mem_ok (mem s)" by (simp add: file_ok_def)
  show "\<exists>s'. UpdateGauge (FileBackedStorage_Storage og oc) s n v = (None, s') \<and> file_ok s' \<and>
      file_view s' = put_gauge n v (file_view s)"
    using mem.update_gauge [OF m, of og oc n v]
    by (auto simp: file_updates mem_updates FileBackedStorage_UpdateGauge_def file_ok_def file_view_def)
  show "\<exists>s'. UpdateCounter (FileBackedStorage_Storage og oc) s n d = (None, s') \<and> file_ok s' \<and>
      file_view s' = add_counter n d (file_view s)"
    using mem.update_counter [OF m, of og oc n d]
    by (auto simp: file_updates mem_updates FileBackedStorage_UpdateCounter_def file_ok_def file_view_def)
  show "\<exists>s'. UpdateBatch (FileBackedStorage_Storage og oc) s ms = (None, s') \<and> file_ok s' \<and>
      file_view s' = apply_batch ms (file_view s)"
    using mem.update_batch [OF m, of og oc ms]
    by (auto simp: file_updates mem_updates FileBackedStorage_UpdateBatch_def file_ok_def file_view_def)
qed (use mem.get_all mem.get_all_wf in \<open>simp_all add: file_queries file_ok_def file_view_def mem_queries\<close>)

subsection \<open>Saving and loading\<close>

text \<open>A table that JSON can carry: valid names and gauges that are numbers.\<close>

definition storable :: "table \<Rightarrow> bool" where
  "storable t \<longleftrightarrow>
     (\<forall>n v. gauge_of t n = Some v \<longrightarrow> utf8_valid n \<and> f64_finite v) \<and>
     (\<forall>n d. counter_of t n = Some d \<longrightarrow> utf8_valid n)"

text \<open>The operating system reads and writes the file at \<open>p\<close> without a fault.\<close>

definition faultless :: "os_faults \<Rightarrow> string \<Rightarrow> bool" where
  "faultless os p \<longleftrightarrow> read_fault os p = None \<and> (\<forall>data. write_fault os p data = None)"

text \<open>
  A server that starts again on the same files, with an empty memory, gets the same metrics.
\<close>

definition durable :: "os_faults \<Rightarrow> FileBackedStorage \<Rightarrow> bool" where
  "durable os s \<longleftrightarrow>
     (\<exists>s'. FileBackedStorage_Load os (NewFileBackedStorage (path s) (files s) []) = (None, s') \<and>
        file_ok s' \<and> file_view s' = file_view s)"

lemma utf8_valid_types [simp]: "utf8_valid model_Gauge" "utf8_valid model_Counter"
  unfolding model_Gauge_def model_Counter_def by code_simp+

lemma snapshot_safe:
  assumes "mem_ok m" and "storable (mem_view m)"
  shows "list_all json_safe (MemStorage_Snapshot og oc m)"
  using assms by (auto simp: MemStorage_Snapshot_def list_all_iff json_safe_def storable_def mem_ok_def
      wf_map_in_iff)

lemma load_loop_batch: "load_loop m ms = MemStorage_batch_loop m ms"
  by (induction ms arbitrary: m) (simp_all add: MemStorage_UpdateGauge_def MemStorage_UpdateCounter_def
      cong: option.case_cong)

lemma save_frame:
  assumes "FileBackedStorage_Save os og oc s = (e, s')"
  shows "mem s' = mem s" "path s' = path s" "log s' = log s"
  using assms
  by (auto simp: FileBackedStorage_Save_def os_WriteFile_def split: option.splits prod.splits)

lemma save_frame_view:
  "file_ok (snd (FileBackedStorage_Save os og oc s)) = file_ok s"
  "file_view (snd (FileBackedStorage_Save os og oc s)) = file_view s"
proof -
  obtain e s' where "FileBackedStorage_Save os og oc s = (e, s')" by fastforce
  moreover from this have "mem s' = mem s" by (rule save_frame)
  ultimately show "file_ok (snd (FileBackedStorage_Save os og oc s)) = file_ok s"
    "file_view (snd (FileBackedStorage_Save os og oc s)) = file_view s"
    by (simp_all add: file_ok_def file_view_def)
qed

text \<open>Without faults a save succeeds, and the file then holds the metrics.\<close>

lemma save_durable:
  assumes ok: "file_ok s" and st: "storable (file_view s)" and os: "faultless os (path s)"
  obtains s' where "FileBackedStorage_Save os og oc s = (None, s')" and "durable os s'"
proof -
  let ?sn = "MemStorage_Snapshot og oc (mem s)"
  have m: "mem_ok (mem s)" using ok by (simp add: file_ok_def)
  have "list_all json_safe ?sn" using snapshot_safe [OF m] st by (simp add: file_view_def)
  then obtain bs where bs: "MarshalIndent_metrics ?sn = Some bs" "Unmarshal_metrics bs = Some ?sn"
    by (rule Unmarshal_MarshalIndent)
  let ?s' = "s\<lparr>files := map_set (files s) (path s) bs\<rparr>"
  have sv: "FileBackedStorage_Save os og oc s = (None, ?s')"
    using bs os by (simp add: FileBackedStorage_Save_def os_WriteFile_def faultless_def)
  have ld: "FileBackedStorage_Load os (NewFileBackedStorage (path s) (files ?s') []) =
      (None, \<lparr>mem = MemStorage_batch_loop NewMemStorage ?sn, path = path s, files = files ?s', log = []\<rparr>)"
    using bs os
    by (simp add: FileBackedStorage_Load_def NewFileBackedStorage_def faultless_def load_loop_batch)
  have "durable os ?s'"
    using ld mem_batch_loop [OF mem_new(1), of ?sn] snapshot_replay [OF m, of og oc]
    by (simp add: durable_def file_ok_def file_view_def mem_new(2))
  then show ?thesis using sv that by blast
qed

lemma on_update_view:
  "file_ok (FileBackedStorage_SaveOnUpdate os og oc s) = file_ok s"
  "file_view (FileBackedStorage_SaveOnUpdate os og oc s) = file_view s"
  using save_frame_view [of os og oc s]
  by (auto simp: FileBackedStorage_SaveOnUpdate_def write_log_def file_ok_def file_view_def split: prod.splits option.splits)

interpretation fbs_svc: service_contract "FileBackedStorage_Storage og oc" file_view file_ok FormatFloat_f
    "Some (FileBackedStorage_SaveOnUpdate os og oc)"
  for og oc os
  by unfold_locales (auto simp: on_update_view)

text \<open>What the service stored with the saving callback is durable.\<close>

lemma on_update_durable:
  assumes "file_ok s" and "storable (file_view s)" and "faultless os (path s)"
  shows "durable os (FileBackedStorage_SaveOnUpdate os og oc s)"
  by (rule save_durable [OF assms, of og oc]) (simp add: FileBackedStorage_SaveOnUpdate_def)

lemma stored_durable:
  assumes "fbs_svc.stored og oc os f s s'" and "storable (f (file_view s))" and "\<And>p. faultless os p"
  shows "durable os s'"
  using assms on_update_durable
  by (auto simp: fbs_svc.stored_def notifyUpdate_def)

text \<open>
  The states of the examples: a faultless operating system, and a storage with the gauge
  \<^verbatim>\<open>cpu = 0.5\<close> and the counter \<^verbatim>\<open>hits = -7\<close>.
\<close>

definition no_faults :: os_faults where
  "no_faults = \<lparr>read_fault = (\<lambda>_. None), write_fault = (\<lambda>_ _. None)\<rparr>"

definition sample_file :: FileBackedStorage where
  "sample_file =
     \<lparr>mem = \<lparr>gauges = [(''cpu'', 0x3FE0000000000000)], counters = [(''hits'', -7)]\<rparr>,
      path = ''m.json'', files = [], log = []\<rparr>"

definition sample_bytes :: bytes where
  "sample_bytes = ''[{'' @ json_string ''id'' @ '':'' @ json_string ''hits'' @ '','' @
     json_string ''type'' @ '':'' @ json_string ''counter'' @ '','' @ json_string ''delta'' @ '':10}]''"

lemma sample_file_facts:
  "file_ok sample_file" "faultless no_faults p"
  "file_view sample_file = \<lparr>gauge_of = [''cpu'' \<mapsto> 0x3FE0000000000000], counter_of = [''hits'' \<mapsto> -7]\<rparr>"
  by (simp_all add: sample_file_def file_ok_def mem_ok_def wf_map_def faultless_def no_faults_def
      file_view_def mem_view_def map_get_def fun_eq_iff)

lemma sample_storable: "storable (file_view sample_file)"
proof -
  have "f64_finite 0x3FE0000000000000" "utf8_valid ''cpu''" "utf8_valid ''hits''" by code_simp+
  then show ?thesis by (auto simp: storable_def sample_file_facts split: if_splits)
qed

text \<open>
  C8. Persistence round trip (filestorage.go, Save and Load). Whatever order Go iterates the
  maps in, \<^verbatim>\<open>Save\<close> of a well-formed storage whose gauges are numbers and whose names are
  valid UTF-8 succeeds on a faultless file system, keeps the metrics in memory, and a new
  storage on the same path that calls \<^verbatim>\<open>Load\<close> holds exactly the same gauges (bit for bit)
  and counters.
\<close>

theorem save_load_roundtrip:
  assumes "file_ok s" and "storable (file_view s)" and "faultless os (path s)"
  shows "\<exists>s'. FileBackedStorage_Save os og oc s = (None, s') \<and> file_view s' = file_view s \<and>
    (\<exists>s''. FileBackedStorage_Load os (NewFileBackedStorage (path s) (files s') []) = (None, s'') \<and>
       file_ok s'' \<and> file_view s'' = file_view s)"
proof -
  obtain s' where sv: "FileBackedStorage_Save os og oc s = (None, s')" and d: "durable os s'"
    using save_durable [OF assms] .
  have "path s' = path s" "file_view s' = file_view s"
    using save_frame [OF sv] by (simp_all add: file_view_def)
  with sv d show ?thesis by (auto simp: durable_def)
qed

theorem save_load_roundtrip_witness:
  "\<exists>s'. FileBackedStorage_Save no_faults id id sample_file = (None, s') \<and>
     file_view s' = file_view sample_file \<and>
     (\<exists>s''. FileBackedStorage_Load no_faults (NewFileBackedStorage ''m.json'' (files s') []) = (None, s'') \<and>
        file_ok s'' \<and> file_view s'' = file_view sample_file)"
  using save_load_roundtrip [OF sample_file_facts(1) sample_storable sample_file_facts(2), of id id]
  by (simp add: sample_file_def)



text \<open>
  C15. A gauge that is not a number stops persistence (filestorage.go Save, service/metrics.go
  UpdateMetric). \<^verbatim>\<open>UpdateMetric\<close> accepts the text \<^verbatim>\<open>NaN\<close> for a gauge; from then on \<^verbatim>\<open>Save\<close> fails
  with the encoder's error for as long as any gauge of the storage is not a number, whatever
  the other metrics are, and leaves every file as it was.
\<close>

theorem nan_gauge_blocks_save:
  assumes "file_ok s"
  shows "\<exists>s'. MetricService_UpdateMetric (NewMetricService (FileBackedStorage_Storage og oc)) s
      model_Gauge n ''NaN'' = (None, s') \<and> file_ok s' \<and> gauge_of (file_view s') n = Some f64_NaN \<and>
    (\<forall>t k v. file_ok t \<and> gauge_of (file_view t) k = Some v \<and> \<not> f64_finite v \<longrightarrow>
       FileBackedStorage_Save os og oc t = (Some json_unsupported_value, t))"
proof -
  have p: "ParseFloat ''NaN'' = Inr f64_NaN" by code_simp
  have "FileBackedStorage_Save os og oc t = (Some json_unsupported_value, t)"
    if "file_ok t" "gauge_of (file_view t) k = Some v" "\<not> f64_finite v" for t k v
  proof -
    have "gauge_metric k v \<in> set (MemStorage_Snapshot og oc (mem t))"
      using that by (force simp: MemStorage_Snapshot_def file_ok_def file_view_def mem_ok_def wf_map_in_iff)
    then have "MarshalIndent_metrics (MemStorage_Snapshot og oc (mem t)) = None"
      by (rule MarshalIndent_nan [OF _ _ that(3)]) simp
    then show ?thesis by (simp add: FileBackedStorage_Save_def)
  qed
  moreover have "\<exists>s'. MetricService_UpdateMetric (NewMetricService (FileBackedStorage_Storage og oc)) s
      model_Gauge n ''NaN'' = (None, s') \<and> file_ok s' \<and> gauge_of (file_view s') n = Some f64_NaN"
    using fbs.update_gauge [OF assms, of og oc n f64_NaN] p
    by (auto simp: MetricService_UpdateMetric_def NewMetricService_def notifyUpdate_def)
  ultimately show ?thesis by blast
qed

theorem nan_gauge_blocks_save_witness:
  "\<exists>s'. MetricService_UpdateMetric (NewMetricService (FileBackedStorage_Storage id id)) sample_file
      model_Gauge ''load'' ''NaN'' = (None, s') \<and>
     FileBackedStorage_Save no_faults id id s' = (Some json_unsupported_value, s')"
proof -
  have "\<not> f64_finite f64_NaN" by code_simp
  then show ?thesis
    using nan_gauge_blocks_save [OF sample_file_facts(1), of id id "''load''" no_faults] by blast
qed

text \<open>
  C18. \<^verbatim>\<open>Load\<close> merges into the storage (filestorage.go Load): a missing file changes nothing and
  is no error; an unreadable or malformed file is reported and changes nothing; otherwise
  the metrics of the file are applied to what the storage already holds, so gauges are
  replaced and counters added to.
\<close>

theorem load_cases:
  assumes "file_ok s"
  shows "case map_get (files s) (path s) of
      None \<Rightarrow> FileBackedStorage_Load os s = (None, s)
    | Some data \<Rightarrow>
        (case (read_fault os (path s), Unmarshal_metrics data) of
           (Some e, _) \<Rightarrow> FileBackedStorage_Load os s = (Some e, s)
         | (None, None) \<Rightarrow> FileBackedStorage_Load os s = (Some json_decode_error, s)
         | (None, Some ms) \<Rightarrow>
             (\<exists>s'. FileBackedStorage_Load os s = (None, s') \<and> file_ok s' \<and> files s' = files s \<and>
                file_view s' = apply_batch ms (file_view s)))"
  using assms mem_batch_loop [of "mem s"]
  by (simp add: FileBackedStorage_Load_def load_loop_batch file_ok_def file_view_def split: option.split)

theorem load_cases_witness:
  "\<exists>s'. FileBackedStorage_Load no_faults (sample_file\<lparr>files := [(''m.json'', sample_bytes)]\<rparr>) = (None, s') \<and>
     counter_of (file_view s') ''hits'' = Some 3"
proof -
  have u: "Unmarshal_metrics sample_bytes = Some [counter_metric ''hits'' 10]" by code_simp
  have "file_ok (sample_file\<lparr>files := [(''m.json'', sample_bytes)]\<rparr>)"
    using sample_file_facts(1) by (simp add: file_ok_def)
  from load_cases [OF this, of no_faults] u
  have "\<exists>s'. FileBackedStorage_Load no_faults (sample_file\<lparr>files := [(''m.json'', sample_bytes)]\<rparr>) = (None, s') \<and>
      file_view s' = add_counter ''hits'' 10 (file_view (sample_file\<lparr>files := [(''m.json'', sample_bytes)]\<rparr>))"
    by (auto simp: sample_file_def no_faults_def map_get_def)
  moreover have "counter_of (add_counter ''hits'' 10 (file_view (sample_file\<lparr>files := [(''m.json'', sample_bytes)]\<rparr>)))
      ''hits'' = Some 3"
    by (simp add: sample_file_def file_view_def counter_total_def map_get_def)
  ultimately show ?thesis by metis
qed

end
