(* ===== verification/Http.thy ===== *)
theory Http
  imports GoText
begin

section \<open>Requests, responses and headers\<close>

text \<open>
  What the program uses of \<^verbatim>\<open>net/http\<close>. A handler is a function from a request and a state to
  the operations it performs on its \<^verbatim>\<open>http.ResponseWriter\<close>, in order, and the new state. A
  middleware is a function on handlers: it may change the request, and it may rewrite the
  operations of the handler it wraps before they reach its own writer. The server's writer
  interprets the operations that reach it: the first \<^verbatim>\<open>WriteHeader\<close>, or the first \<^verbatim>\<open>Write\<close>,
  fixes the status and the headers.
\<close>

subsection \<open>Headers\<close>

definition is_upper :: "char \<Rightarrow> bool" where
  "is_upper c = (65 \<le> (of_char c :: nat) \<and> (of_char c :: nat) \<le> 90)"

definition is_lower :: "char \<Rightarrow> bool" where
  "is_lower c = (97 \<le> (of_char c :: nat) \<and> (of_char c :: nat) \<le> 122)"

definition token_byte :: "char \<Rightarrow> bool" where
  "token_byte c =
     (is_upper c \<or> is_lower c \<or> is_digit c \<or>
      c \<in> set (CHR 0x27 # ''!#$%&*+-.^_`|~''))"

fun canonical_loop :: "bool \<Rightarrow> string \<Rightarrow> string" where
  "canonical_loop up [] = []"
| "canonical_loop up (c # cs) =
     (let d = (if up \<and> is_lower c then char_of ((of_char c :: nat) - 32)
               else if \<not> up \<and> is_upper c then char_of ((of_char c :: nat) + 32) else c)
      in d # canonical_loop (d = CHR ''-'') cs)"

text \<open>\<^verbatim>\<open>textproto.CanonicalMIMEHeaderKey\<close>: a key with a byte that no header name may have stays.\<close>

definition CanonicalMIMEHeaderKey :: "string \<Rightarrow> string" where
  "CanonicalMIMEHeaderKey s = (if list_all token_byte s then canonical_loop True s else s)"

type_synonym header = "(string, string list) gomap"

definition Header_Get :: "header \<Rightarrow> string \<Rightarrow> string" where
  "Header_Get h k =
     (case map_get h (CanonicalMIMEHeaderKey k) of Some (v # _) \<Rightarrow> v | _ \<Rightarrow> [])"

definition Header_Set :: "header \<Rightarrow> string \<Rightarrow> string \<Rightarrow> header" where
  "Header_Set h k v = map_set h (CanonicalMIMEHeaderKey k) [v]"

definition Header_Del :: "header \<Rightarrow> string \<Rightarrow> header" where
  "Header_Del h k = AList.delete (CanonicalMIMEHeaderKey k) h"

lemma Header_Get_Set [simp]:
  "Header_Get (Header_Set h k v) k' =
     (if CanonicalMIMEHeaderKey k' = CanonicalMIMEHeaderKey k then v else Header_Get h k')"
  by (simp add: Header_Get_def Header_Set_def)

lemma Header_Get_Del [simp]:
  "Header_Get (Header_Del h k) k' =
     (if CanonicalMIMEHeaderKey k' = CanonicalMIMEHeaderKey k then [] else Header_Get h k')"
  by (simp add: Header_Get_def Header_Del_def map_get_def delete_conv')

subsection \<open>internal/httpconst/httpconst.go\<close>

definition HeaderHashSHA256 :: string where "HeaderHashSHA256 = ''HashSHA256''"
definition HeaderCryptoEncrypted :: string where "HeaderCryptoEncrypted = ''X-Crypto-Encrypted''"
definition HeaderXRealIP :: string where "HeaderXRealIP = ''X-Real-IP''"
definition MetadataXRealIP :: string where "MetadataXRealIP = ''x-real-ip''"

subsection \<open>Requests\<close>

text \<open>
  A body is the bytes a reader gets from it and the error it ends with, if not with the end
  of the stream. \<open>params\<close> are the URL parameters the router found, \<open>now\<close> is the clock.
\<close>

type_synonym body = "bytes \<times> error option"

record request =
  Method :: string
  RequestURI :: string
  Header :: header
  Body :: body
  RemoteAddr :: string
  params :: "(string, string) gomap"
  now :: int64

definition URLParam :: "request \<Rightarrow> string \<Rightarrow> string" where
  "URLParam r k = (case map_get (params r) k of Some v \<Rightarrow> v | None \<Rightarrow> [])"

definition ReadAll :: "body \<Rightarrow> error + bytes" where
  "ReadAll b = (case snd b of Some e \<Rightarrow> Inl e | None \<Rightarrow> Inr (fst b))"

subsection \<open>Responses\<close>

datatype wop =
    SetHeader string string
  | DelHeader string
  | WriteHeader nat
  | WriteBody bytes

record writer =
  committed :: "(nat \<times> header) option"
  live :: header
  sent_body :: bytes

definition StatusOK :: nat where "StatusOK = 200"
definition StatusBadRequest :: nat where "StatusBadRequest = 400"
definition StatusForbidden :: nat where "StatusForbidden = 403"
definition StatusNotFound :: nat where "StatusNotFound = 404"
definition StatusInternalServerError :: nat where "StatusInternalServerError = 500"

lemmas status_defs = StatusOK_def StatusBadRequest_def StatusForbidden_def StatusNotFound_def
  StatusInternalServerError_def

definition StatusText :: "nat \<Rightarrow> string" where
  "StatusText c =
     (if c = StatusBadRequest then ''Bad Request''
      else if c = StatusForbidden then ''Forbidden''
      else if c = StatusInternalServerError then ''Internal Server Error''
      else if c = StatusOK then ''OK''
      else if c = StatusNotFound then ''Not Found'' else [])"

fun write_op :: "writer \<Rightarrow> wop \<Rightarrow> writer" where
  "write_op w (SetHeader k v) = w\<lparr>live := Header_Set (live w) k v\<rparr>"
| "write_op w (DelHeader k) = w\<lparr>live := Header_Del (live w) k\<rparr>"
| "write_op w (WriteHeader c) =
     (case committed w of Some _ \<Rightarrow> w | None \<Rightarrow> w\<lparr>committed := Some (c, live w)\<rparr>)"
| "write_op w (WriteBody b) =
     (case committed w of
        Some _ \<Rightarrow> w\<lparr>sent_body := sent_body w @ b\<rparr>
      | None \<Rightarrow> w\<lparr>committed := Some (StatusOK, live w), sent_body := sent_body w @ b\<rparr>)"

definition new_writer :: writer where
  "new_writer = \<lparr>committed = None, live = make_map, sent_body = []\<rparr>"

text \<open>The response a client gets: status, headers and body.\<close>

type_synonym response = "nat \<times> header \<times> bytes"

definition finish :: "writer \<Rightarrow> response" where
  "finish w =
     (case committed w of
        Some (c, h) \<Rightarrow> (c, h, sent_body w)
      | None \<Rightarrow> (StatusOK, live w, sent_body w))"

definition respond :: "wop list \<Rightarrow> response" where
  "respond ops = finish (foldl write_op new_writer ops)"

abbreviation resp_status :: "response \<Rightarrow> nat" where "resp_status r \<equiv> fst r"
abbreviation resp_header :: "response \<Rightarrow> header" where "resp_header r \<equiv> fst (snd r)"
abbreviation resp_body :: "response \<Rightarrow> bytes" where "resp_body r \<equiv> snd (snd r)"

type_synonym 's handler = "request \<Rightarrow> 's \<Rightarrow> wop list \<times> 's"

text \<open>\<^verbatim>\<open>http.Error\<close> and \<^verbatim>\<open>http.NotFound\<close>.\<close>

definition http_Error :: "string \<Rightarrow> nat \<Rightarrow> wop list" where
  "http_Error msg code =
     [DelHeader ''Content-Length'', SetHeader ''Content-Type'' ''text/plain; charset=utf-8'',
      SetHeader ''X-Content-Type-Options'' ''nosniff'', WriteHeader code,
      WriteBody (msg @ [CHR 0x0A])]"

definition http_NotFound :: "wop list" where
  "http_NotFound = http_Error ''404 page not found'' StatusNotFound"

subsection \<open>What a sequence of operations responds\<close>

text \<open>The bodies written, and the status: the first one set or, before it, a write.\<close>

fun op_body :: "wop \<Rightarrow> bytes" where
  "op_body (WriteBody b) = b"
| "op_body _ = []"

definition ops_body :: "wop list \<Rightarrow> bytes" where
  "ops_body ops = concat (map op_body ops)"

fun ops_status :: "wop list \<Rightarrow> nat" where
  "ops_status [] = StatusOK"
| "ops_status (WriteHeader c # ops) = c"
| "ops_status (WriteBody b # ops) = StatusOK"
| "ops_status (op # ops) = ops_status ops"

lemma foldl_write_body: "sent_body (foldl write_op w ops) = sent_body w @ ops_body ops"
proof (induction ops arbitrary: w)
  case (Cons op ops)
  then show ?case by (cases op) (auto simp: ops_body_def split: option.split)
qed (simp add: ops_body_def)

lemma foldl_write_committed:
  "committed w = Some x \<Longrightarrow> committed (foldl write_op w ops) = Some x"
proof (induction ops arbitrary: w)
  case (Cons op ops)
  then show ?case by (cases op) auto
qed simp

lemma foldl_write_status:
  "committed w = None \<Longrightarrow> fst (finish (foldl write_op w ops)) = ops_status ops"
proof (induction ops arbitrary: w)
  case (Cons op ops)
  then show ?case
    by (cases op) (auto simp: finish_def foldl_write_committed split: option.splits)
qed (simp add: finish_def)

lemma respond_status: "resp_status (respond ops) = ops_status ops"
  by (simp add: respond_def foldl_write_status new_writer_def)

lemma respond_body: "resp_body (respond ops) = ops_body ops"
proof -
  have "snd (snd (finish w)) = sent_body w" for w
    by (simp add: finish_def split: option.split)
  then show ?thesis by (simp add: respond_def foldl_write_body new_writer_def)
qed

lemma ops_body_simps [simp]:
  "ops_body [] = []" "ops_body (op # ops) = op_body op @ ops_body ops"
  "ops_body (xs @ ys) = ops_body xs @ ops_body ys"
  by (simp_all add: ops_body_def)

lemma http_Error_response [simp]:
  "ops_status (http_Error msg code) = code" "ops_body (http_Error msg code) = msg @ [CHR 0x0A]"
  by (simp_all add: http_Error_def)

end
