(* ===== verification/Net.thy ===== *)
theory Net
  imports GoText
begin

unbundle bit_operations_syntax

section \<open>Addresses\<close>

text \<open>
  What the program uses of package \<^verbatim>\<open>net\<close>: splitting a host and port, parsing an IP address
  and a CIDR block, and the membership test of a block. An address is its bytes, 4 or 16.
\<close>

type_synonym byte = "8 word"
type_synonym ip = "byte list"

subsection \<open>SplitHostPort\<close>

definition last_index :: "string \<Rightarrow> char \<Rightarrow> int" where
  "last_index s c =
     (let i = strings_IndexByte (rev s) c in if i < 0 then - 1 else int (length s) - 1 - i)"

text \<open>The host of \<^verbatim>\<open>net.SplitHostPort\<close>, \<open>None\<close> where it reports an error.\<close>

definition SplitHostPort :: "string \<Rightarrow> string option" where
  "SplitHostPort s =
     (let i = last_index s (CHR '':'')
      in if i < 0 then None
         else if hd s = CHR ''['' then
           (let e = strings_IndexByte s (CHR '']'')
            in if e < 0 \<or> e + 1 \<noteq> i then None
               else if CHR ''['' \<in> set (drop 1 s) \<or> CHR '']'' \<in> set (drop (nat e + 1) s) then None
               else Some (take (nat e - 1) (drop 1 s)))
         else
           (let host = take (nat i) s
            in if CHR '':'' \<in> set host then None
               else if CHR ''['' \<in> set s \<or> CHR '']'' \<in> set s then None
               else Some host))"

subsection \<open>ParseIP\<close>

text \<open>The pieces between the dots (or other separators) of a string: always at least one.\<close>

fun split_on :: "char \<Rightarrow> string \<Rightarrow> string list" where
  "split_on c [] = [[]]"
| "split_on c (x # xs) =
     (if x = c then [] # split_on c xs
      else case split_on c xs of p # ps \<Rightarrow> (x # p) # ps | [] \<Rightarrow> [[x]])"

text \<open>One decimal field: digits only, no leading zero, at most 255.\<close>

definition octet :: "string \<Rightarrow> byte option" where
  "octet s =
     (if s = [] \<or> \<not> list_all is_digit s \<or> (hd s = CHR ''0'' \<and> length s \<noteq> 1) \<or> 255 < digits_val s
      then None else Some (of_nat (digits_val s)))"

definition parseIPv4 :: "string \<Rightarrow> ip option" where
  "parseIPv4 s =
     (case map octet (split_on (CHR ''.'') s) of
        [Some a, Some b, Some c, Some d] \<Rightarrow> Some [a, b, c, d]
      | _ \<Rightarrow> None)"

definition hex_val :: "char \<Rightarrow> nat option" where
  "hex_val c =
     (let n = (of_char c :: nat)
      in if is_digit c then Some (n - 48)
         else if 97 \<le> n \<and> n \<le> 102 then Some (n - 87)
         else if 65 \<le> n \<and> n \<le> 70 then Some (n - 55) else None)"

text \<open>
  The loop of \<^verbatim>\<open>parseIPv6\<close>. \<open>n\<close> counts the 16-bit groups that still fit, \<open>ip\<close> holds the bytes
  so far and \<open>ell\<close> where the \<^verbatim>\<open>::\<close> stands. The result is the bytes and the place of the \<^verbatim>\<open>::\<close>.
\<close>

fun parseIPv6_loop :: "nat \<Rightarrow> ip \<Rightarrow> nat option \<Rightarrow> string \<Rightarrow> (ip \<times> nat option) option" where
  "parseIPv6_loop 0 ip ell s = (if s = [] then Some (ip, ell) else None)"
| "parseIPv6_loop (Suc n) ip ell s =
     (let ds = takeWhile (\<lambda>c. hex_val c \<noteq> None) s;
          r = dropWhile (\<lambda>c. hex_val c \<noteq> None) s;
          acc = foldl (\<lambda>a c. a * 16 + the (hex_val c)) 0 ds
      in if ds = [] \<or> 4 < length ds then None
         else if take 1 r = ''.'' then
           (if (ell = None \<and> length ip \<noteq> 12) \<or> 12 < length ip then None
            else case parseIPv4 s of None \<Rightarrow> None | Some v4 \<Rightarrow> Some (ip @ v4, ell))
         else
           (let ip' = ip @ [of_nat (acc div 256), of_nat (acc mod 256)]
            in case r of
                 [] \<Rightarrow> Some (ip', ell)
               | c # r1 \<Rightarrow>
                   if c \<noteq> CHR '':'' then None
                   else (case r1 of
                           [] \<Rightarrow> None
                         | d # r2 \<Rightarrow>
                             if d = CHR '':'' then
                               (if ell \<noteq> None then None
                                else if r2 = [] then Some (ip', Some (length ip'))
                                else parseIPv6_loop n ip' (Some (length ip')) r2)
                             else parseIPv6_loop n ip' ell r1)))"

definition expand_v6 :: "ip \<times> nat option \<Rightarrow> ip option" where
  "expand_v6 p =
     (case p of (ip, ell) \<Rightarrow>
        if length ip < 16 then
          (case ell of
             None \<Rightarrow> None
           | Some e \<Rightarrow> Some (take e ip @ replicate (16 - length ip) 0 @ drop e ip))
        else if ell = None then Some ip else None)"

definition parseIPv6 :: "string \<Rightarrow> ip option" where
  "parseIPv6 s =
     (if take 2 s = ''::'' then
        (if length s = 2 then Some (replicate 16 0)
         else Option.bind (parseIPv6_loop 8 [] (Some 0) (drop 2 s)) expand_v6)
      else Option.bind (parseIPv6_loop 8 [] None s) expand_v6)"

text \<open>
  \<^verbatim>\<open>netip.ParseAddr\<close> without zones: the first dot or colon decides. A percent sign, which
  would start a zone, makes every caller here reject the text. The result keeps whether the
  text was an IPv4 one.
\<close>

definition ParseAddr :: "string \<Rightarrow> ip option" where
  "ParseAddr s =
     (if CHR ''%'' \<in> set s then None
      else case dropWhile (\<lambda>c. c \<noteq> CHR ''.'' \<and> c \<noteq> CHR '':'') s of
             [] \<Rightarrow> None
           | c # _ \<Rightarrow> if c = CHR ''.'' then parseIPv4 s else parseIPv6 s)"

definition v4InV6Prefix :: ip where
  "v4InV6Prefix = replicate 10 0 @ [0xFF, 0xFF]"

definition As16 :: "ip \<Rightarrow> ip" where
  "As16 a = (if length a = 4 then v4InV6Prefix @ a else a)"

definition ParseIP :: "string \<Rightarrow> ip option" where
  "ParseIP s = map_option As16 (ParseAddr s)"

text \<open>\<^verbatim>\<open>IP.To4\<close>: the four bytes of an IPv4 address, also when it is written in 16.\<close>

definition To4 :: "ip \<Rightarrow> ip option" where
  "To4 a =
     (if length a = 4 then Some a
      else if length a = 16 \<and> take 12 a = v4InV6Prefix then Some (drop 12 a) else None)"

subsection \<open>CIDR blocks\<close>

fun CIDRMask_loop :: "nat \<Rightarrow> nat \<Rightarrow> ip" where
  "CIDRMask_loop 0 n = []"
| "CIDRMask_loop (Suc l) n =
     (if 8 \<le> n then 0xFF # CIDRMask_loop l (n - 8)
      else NOT (drop_bit n 0xFF) # CIDRMask_loop l 0)"

definition CIDRMask :: "nat \<Rightarrow> nat \<Rightarrow> ip" where
  "CIDRMask ones bits = CIDRMask_loop (bits div 8) ones"

definition and_bytes :: "ip \<Rightarrow> ip \<Rightarrow> ip" where
  "and_bytes a m = map2 (\<lambda>x y. x AND y) a m"

record IPNet =
  net_IP :: ip
  net_Mask :: ip

definition ip_Mask :: "ip \<Rightarrow> ip \<Rightarrow> ip" where
  "ip_Mask a m =
     (let a' = (if length m = 4 \<and> length a = 16 \<and> take 12 a = v4InV6Prefix then drop 12 a else a)
      in if length a' = length m then and_bytes a' m else [])"

text \<open>
  \<^verbatim>\<open>net.ParseCIDR\<close>. Its helper \<^verbatim>\<open>dtoi\<close> gives up at 0xFFFFFF, far above every mask length.
\<close>

definition ParseCIDR :: "string \<Rightarrow> IPNet option" where
  "ParseCIDR s =
     (case dropWhile (\<lambda>c. c \<noteq> CHR ''/'') s of
        [] \<Rightarrow> None
      | _ # ms \<Rightarrow>
          (case ParseAddr (takeWhile (\<lambda>c. c \<noteq> CHR ''/'') s) of
             None \<Rightarrow> None
           | Some a \<Rightarrow>
               let bits = length a * 8; n = digits_val ms
               in if ms = [] \<or> \<not> list_all is_digit ms \<or> bits < n then None
                  else let m = CIDRMask n bits
                       in Some \<lparr>net_IP = ip_Mask (As16 a) m, net_Mask = m\<rparr>))"

definition networkNumberAndMask :: "IPNet \<Rightarrow> (ip \<times> ip) option" where
  "networkNumberAndMask n =
     (case To4 (net_IP n) of
        Some a \<Rightarrow>
          if length (net_Mask n) = 4 then Some (a, net_Mask n)
          else if length (net_Mask n) = 16 then Some (a, drop 12 (net_Mask n)) else None
      | None \<Rightarrow>
          if length (net_IP n) = 16 \<and> length (net_Mask n) = 16 then Some (net_IP n, net_Mask n)
          else None)"

definition IPNet_Contains :: "IPNet \<Rightarrow> ip \<Rightarrow> bool" where
  "IPNet_Contains n a =
     (case networkNumberAndMask n of
        None \<Rightarrow> False
      | Some (nn, m) \<Rightarrow>
          let x = (case To4 a of Some v4 \<Rightarrow> v4 | None \<Rightarrow> a)
          in length x = length nn \<and> and_bytes nn m = and_bytes x m)"

subsection \<open>A block is the addresses that share its first bits\<close>

definition byte_bits :: "byte \<Rightarrow> bool list" where
  "byte_bits b = map (\<lambda>j. bit b (7 - j)) [0..<8]"

definition ip_bits :: "ip \<Rightarrow> bool list" where
  "ip_bits a = concat (map byte_bits a)"

lemma length_byte_bits [simp]: "length (byte_bits b) = 8"
  by (simp add: byte_bits_def)

lemma length_ip_bits [simp]: "length (ip_bits a) = 8 * length a"
  by (induction a) (simp_all add: ip_bits_def)

lemma ip_bits_simps [simp]: "ip_bits [] = []" "ip_bits (b # a) = byte_bits b @ ip_bits a"
  by (simp_all add: ip_bits_def)

lemma take_byte_bits:
  assumes "n \<le> 8"
  shows "take n (byte_bits b) = take n (byte_bits c) \<longleftrightarrow> (\<forall>i < 8. 8 \<le> i + n \<longrightarrow> bit b i = bit c i)"
proof -
  have "take n (byte_bits b) = take n (byte_bits c) \<longleftrightarrow> (\<forall>j < n. bit b (7 - j) = bit c (7 - j))"
    using assms by (auto simp: byte_bits_def take_map list_eq_iff_nth_eq)
  also have "\<dots> \<longleftrightarrow> (\<forall>i < 8. 8 \<le> i + n \<longrightarrow> bit b i = bit c i)"
  proof
    assume L: "\<forall>j < n. bit b (7 - j) = bit c (7 - j)"
    show "\<forall>i < 8. 8 \<le> i + n \<longrightarrow> bit b i = bit c i"
    proof (intro allI impI)
      fix i :: nat assume i: "i < 8" "8 \<le> i + n"
      then have "7 - i < n" "7 - (7 - i) = i" by simp_all
      then show "bit b i = bit c i" using L by metis
    qed
  next
    assume R: "\<forall>i < 8. 8 \<le> i + n \<longrightarrow> bit b i = bit c i"
    show "\<forall>j < n. bit b (7 - j) = bit c (7 - j)" using R assms by simp
  qed
  finally show ?thesis .
qed

lemma byte_eq_iff: "(b :: byte) = c \<longleftrightarrow> (\<forall>i < 8. bit b i = bit c i)"
  by (auto intro: bit_word_eqI)

lemma byte_bits_inject: "byte_bits b = byte_bits c \<longleftrightarrow> b = c"
  using take_byte_bits [of 8 b c] by (simp add: byte_eq_iff [of b c])

lemma all_ones: "(0xFF :: byte) = mask 8"
  by (simp add: mask_eq_exp_minus_1)

lemma bit_low_mask: "bit (drop_bit n (0xFF :: byte)) i \<longleftrightarrow> i + n < 8"
  unfolding all_ones bit_drop_bit_eq o_def bit_mask_iff by (auto simp: add.commute)

lemma and_all_ones: "(b :: byte) AND 0xFF = b"
  unfolding all_ones byte_eq_iff bit_and_iff bit_mask_iff by auto

lemma and_partial_mask:
  assumes "n \<le> 8"
  shows "b AND NOT (drop_bit n 0xFF) = c AND NOT (drop_bit n (0xFF :: byte)) \<longleftrightarrow>
         take n (byte_bits b) = take n (byte_bits c)"
  unfolding take_byte_bits [OF assms] byte_eq_iff bit_and_iff bit_not_iff bit_low_mask by (auto simp: not_less)

lemma zero_mask: "CIDRMask_loop l 0 = replicate l 0"
  by (induction l) simp_all

lemma and_zero_mask: "length x = l \<Longrightarrow> and_bytes x (CIDRMask_loop l 0) = replicate l 0"
  unfolding zero_mask by (induction l arbitrary: x) (auto simp: and_bytes_def length_Suc_conv)

lemma and_mask_bits:
  "length x = l \<Longrightarrow> length y = l \<Longrightarrow> n \<le> 8 * l \<Longrightarrow>
     and_bytes x (CIDRMask_loop l n) = and_bytes y (CIDRMask_loop l n) \<longleftrightarrow>
     take n (ip_bits x) = take n (ip_bits y)"
proof (induction l arbitrary: x y n)
  case (Suc l)
  then obtain b x' c y' where xy: "x = b # x'" "y = c # y'" "length x' = l" "length y' = l"
    by (auto simp: length_Suc_conv)
  show ?case
  proof (cases "8 \<le> n")
    case True
    have "take n (byte_bits z @ r) = byte_bits z @ take (n - 8) r" for z r
      using True by (simp add: take_append)
    then show ?thesis
      using Suc.IH [of x' y' "n - 8"] xy Suc.prems True
      by (auto simp: and_bytes_def and_all_ones byte_bits_inject)
  next
    case False
    then show ?thesis
      using and_partial_mask [of n b c] and_zero_mask [of x' l] and_zero_mask [of y' l] xy
      by (simp add: and_bytes_def)
  qed
qed (simp add: and_bytes_def)

lemma length_mask [simp]: "length (CIDRMask_loop l n) = l"
  by (induction l n rule: CIDRMask_loop.induct) simp_all

lemma and_bytes_idem:
  "length x = length m \<Longrightarrow> and_bytes (and_bytes x m) m = and_bytes x m"
  by (induction x m rule: list_induct2) (simp_all add: and_bytes_def and.assoc)

lemma length_and_bytes [simp]: "length (and_bytes x m) = min (length x) (length m)"
  by (simp add: and_bytes_def)

text \<open>
  An IPv4 block \<^verbatim>\<open>a.b.c.d/k\<close> contains exactly the IPv4 addresses, in either notation, that agree
  with \<^verbatim>\<open>a.b.c.d\<close> on their first \<open>k\<close> bits; no other address is in it.
\<close>

lemma cidr_v4_contains:
  assumes "ParseCIDR (addr @ CHR ''/'' # ms) = Some n" and "CHR ''/'' \<notin> set addr"
    and "ParseAddr addr = Some a" and "length a = 4"
  shows "IPNet_Contains n x \<longleftrightarrow>
    (\<exists>v4. To4 x = Some v4 \<and> take (digits_val ms) (ip_bits v4) = take (digits_val ms) (ip_bits a))"
proof -
  have split: "dropWhile (\<lambda>c. c \<noteq> CHR ''/'') (addr @ CHR ''/'' # ms) = CHR ''/'' # ms"
    "takeWhile (\<lambda>c. c \<noteq> CHR ''/'') (addr @ CHR ''/'' # ms) = addr"
    using assms(2) by (induction addr) auto
  have k: "digits_val ms \<le> 32"
    and n: "n = \<lparr>net_IP = ip_Mask (As16 a) (CIDRMask (digits_val ms) 32), net_Mask = CIDRMask (digits_val ms) 32\<rparr>"
    using assms(1,3,4) by (auto simp: ParseCIDR_def split Let_def split: if_splits)
  define m where "m = CIDRMask_loop 4 (digits_val ms)"
  have m: "CIDRMask (digits_val ms) 32 = m" "length m = 4" by (simp_all add: CIDRMask_def m_def)
  have nn: "networkNumberAndMask n = Some (and_bytes a m, m)"
    using assms(4) by (simp add: n m networkNumberAndMask_def ip_Mask_def As16_def v4InV6Prefix_def To4_def)
  show ?thesis
  proof (cases "To4 x")
    case None
    then have "length x \<noteq> 4" by (auto simp: To4_def split: if_splits)
    then show ?thesis using None assms(4) m by (simp add: IPNet_Contains_def nn)
  next
    case (Some v4)
    then have l: "length v4 = 4" by (auto simp: To4_def split: if_splits)
    have "IPNet_Contains n x \<longleftrightarrow> and_bytes a m = and_bytes v4 m"
      using Some l assms(4) m by (simp add: IPNet_Contains_def nn and_bytes_idem)
    also have "\<dots> \<longleftrightarrow> take (digits_val ms) (ip_bits a) = take (digits_val ms) (ip_bits v4)"
      unfolding m_def using l assms(4) k by (intro and_mask_bits) simp_all
    finally show ?thesis using Some by auto
  qed
qed

end
