(* ===== verification/Auditing.thy ===== *)
theory Auditing
  imports Json_Number
begin

section \<open>Request auditing\<close>

text \<open>
  \<^verbatim>\<open>internal/audit\<close>: a publisher that hands each event to its observers in turn. An observer
  appends the event as one JSON line to a file, or posts it to a URL. The world holds the
  files and the requests sent; what the operating system and the remote server do with them
  is a parameter.
\<close>

record Event =
  TS :: int64
  Names :: "string list"
  IPAddress :: string

text \<open>\<^verbatim>\<open>json.Marshal\<close> of an event, which holds nothing the encoder could reject.\<close>

definition Marshal_event :: "Event \<Rightarrow> bytes" where
  "Marshal_event e =
     CHR ''{'' # json_string ''ts'' @ '':'' @ FormatInt (TS e) @ '','' @
     json_string ''metrics'' @ '':['' @ concat (map (\<lambda>(i, n). (if i = 0 then [] else '','') @ json_string n)
        (enumerate 0 (Names e))) @ ''],'' @
     json_string ''ip_address'' @ '':'' @ json_string (IPAddress e) @ ''}''"

record FileObserver =
  fname :: string
  fclosed :: bool

record HTTPObserver =
  url :: string

datatype Observer = FileObs FileObserver | HttpObs HTTPObserver

record audit_world =
  disk :: "(string, bytes) gomap"
  posts :: "(string \<times> bytes) list"

record audit_env =
  open_fault :: "string \<Rightarrow> error option"
  append_fault :: "string \<Rightarrow> bytes \<Rightarrow> (error \<times> nat) option"
  request_fault :: "string \<Rightarrow> error option"
  http_do :: "string \<Rightarrow> bytes \<Rightarrow> error + nat"

definition file_contents :: "audit_world \<Rightarrow> string \<Rightarrow> bytes" where
  "file_contents w p = (case map_get (disk w) p of Some b \<Rightarrow> b | None \<Rightarrow> [])"

definition append_file :: "audit_world \<Rightarrow> string \<Rightarrow> bytes \<Rightarrow> audit_world" where
  "append_file w p b = w\<lparr>disk := map_set (disk w) p (file_contents w p @ b)\<rparr>"

text \<open>Opening in append mode creates a missing file and keeps an existing one.\<close>

definition NewFileObserver ::
    "audit_env \<Rightarrow> string \<Rightarrow> audit_world \<Rightarrow> (error + FileObserver) \<times> audit_world" where
  "NewFileObserver env p w =
     (case open_fault env p of
        Some e \<Rightarrow> (Inl (Wrapf ''audit: open %q: %w'' [p] e), w)
      | None \<Rightarrow> (Inr \<lparr>fname = p, fclosed = False\<rparr>, append_file w p []))"

definition os_ErrClosed :: error where "os_ErrClosed = Sentinel ''file already closed''"

definition FileObserver_Receive ::
    "audit_env \<Rightarrow> FileObserver \<Rightarrow> Event \<Rightarrow> audit_world \<Rightarrow> audit_world eff" where
  "FileObserver_Receive env o1 e w =
     (let line = Marshal_event e @ [CHR 0x0A]
      in if fclosed o1 then (Some (Wrapf ''audit: write %q: %w'' [fname o1] os_ErrClosed), w)
         else case append_fault env (fname o1) line of
                None \<Rightarrow> (None, append_file w (fname o1) line)
              | Some (err, n) \<Rightarrow>
                  (Some (Wrapf ''audit: write %q: %w'' [fname o1] err),
                   append_file w (fname o1) (take n line)))"

definition FileObserver_Close :: "FileObserver \<Rightarrow> error option \<times> FileObserver" where
  "FileObserver_Close o1 =
     (if fclosed o1 then (Some os_ErrClosed, o1) else (None, o1\<lparr>fclosed := True\<rparr>))"

definition NewHTTPObserver :: "string \<Rightarrow> HTTPObserver" where
  "NewHTTPObserver u = \<lparr>url = u\<rparr>"

definition HTTPObserver_Receive ::
    "audit_env \<Rightarrow> HTTPObserver \<Rightarrow> Event \<Rightarrow> audit_world \<Rightarrow> audit_world eff" where
  "HTTPObserver_Receive env o1 e w =
     (let data = Marshal_event e
      in case request_fault env (url o1) of
           Some err \<Rightarrow> (Some (Wrapf ''audit: build request: %w'' [] err), w)
         | None \<Rightarrow>
             let w' = w\<lparr>posts := posts w @ [(url o1, data)]\<rparr>
             in (case http_do env (url o1) data of
                   Inl err \<Rightarrow> (Some (Wrapf ''audit: post %q: %w'' [url o1] err), w')
                 | Inr status \<Rightarrow>
                     if status < 200 \<or> 300 \<le> status
                     then (Some (Opaque ''audit: unexpected status''), w') else (None, w')))"

fun Observer_Receive ::
    "audit_env \<Rightarrow> Observer \<Rightarrow> Event \<Rightarrow> audit_world \<Rightarrow> audit_world eff" where
  "Observer_Receive env (FileObs o1) e w = FileObserver_Receive env o1 e w"
| "Observer_Receive env (HttpObs o1) e w = HTTPObserver_Receive env o1 e w"

record Publisher =
  observers :: "Observer list"
  has_logger :: bool

definition NewPublisher :: "bool \<Rightarrow> Observer list \<Rightarrow> Publisher" where
  "NewPublisher lg obs = \<lparr>observers = obs, has_logger = lg\<rparr>"

text \<open>The loop of \<^verbatim>\<open>Notify\<close>: it logs the error of an observer and goes on with the next.\<close>

fun Notify_loop ::
    "audit_env \<Rightarrow> bool \<Rightarrow> Observer list \<Rightarrow> Event \<Rightarrow> audit_world \<Rightarrow> error list \<times> audit_world" where
  "Notify_loop env lg [] e w = ([], w)"
| "Notify_loop env lg (o1 # os) e w =
     (case Observer_Receive env o1 e w of
        (r, w1) \<Rightarrow>
          (case Notify_loop env lg os e w1 of
             (errs, w2) \<Rightarrow>
               ((case r of Some err \<Rightarrow> if lg then [err] else [] | None \<Rightarrow> []) @ errs, w2)))"

definition Publisher_Notify ::
    "audit_env \<Rightarrow> Publisher \<Rightarrow> Event \<Rightarrow> audit_world \<Rightarrow> error list \<times> audit_world" where
  "Publisher_Notify env p e w = Notify_loop env (has_logger p) (observers p) e w"

text \<open>\<^verbatim>\<open>Close\<close> closes every file observer and returns the first error.\<close>

fun Close_loop :: "Observer list \<Rightarrow> error option \<times> Observer list" where
  "Close_loop [] = (None, [])"
| "Close_loop (HttpObs o1 # os) = (case Close_loop os of (e, os') \<Rightarrow> (e, HttpObs o1 # os'))"
| "Close_loop (FileObs o1 # os) =
     (case FileObserver_Close o1 of
        (r, o2) \<Rightarrow> (case Close_loop os of (e, os') \<Rightarrow> (if r = None then e else r, FileObs o2 # os')))"

definition Publisher_Close :: "Publisher \<Rightarrow> error option \<times> Publisher" where
  "Publisher_Close p = (case Close_loop (observers p) of (e, os) \<Rightarrow> (e, p\<lparr>observers := os\<rparr>))"

subsection \<open>One event, one line\<close>

lemma hex_digit_printable: "d < 16 \<Longrightarrow> 0x20 \<le> ord (hex_digit d)"
  using hex_value_digit [of d] by (auto simp: hex_value_def is_digit_def is_hex_letter_def lower_def split: if_splits)

lemma escape_ascii_printable: "c \<in> set (escape_ascii d) \<Longrightarrow> 0x20 \<le> ord c"
proof -
  assume c: "c \<in> set (escape_ascii d)"
  have "ord d div 16 < 16" "ord d mod 16 < 16"
    using nat_of_char_less_256 [of d] by (simp_all add: less_mult_imp_div_less)
  then have h: "0x20 \<le> ord (hex_digit (ord d div 16))" "0x20 \<le> ord (hex_digit (ord d mod 16))"
    by (simp_all only: hex_digit_printable)
  show ?thesis
    using c h by (simp add: escape_ascii_def split: if_splits) (elim disjE; simp)+
qed

lemma utf8_bytes_high:
  assumes "utf8_size bs \<noteq> 0" and "c \<in> set (take (utf8_size bs) bs)"
  shows "0x80 \<le> ord c"
proof -
  obtain a b r where bs: "bs = a # b # r"
    using assms(1) by (cases bs; cases "tl bs") (auto simp: utf8_size_def)
  show ?thesis
    using assms unfolding bs
    by (auto simp: utf8_size_def cont_byte_def numeral_2_eq_2 numeral_3_eq_3 numeral_eq_Suc
        split: if_splits list.splits)
qed

lemma escape_printable: "c \<in> set (escape s) \<Longrightarrow> 0x20 \<le> ord c"
proof (induction s rule: escape.induct)
  case (2 d ds)
  show ?case
  proof (cases "ord d < 0x80")
    case True
    then show ?thesis using 2 escape_ascii_printable by auto
  next
    case False
    let ?n = "utf8_size (d # ds)"
    consider "?n = 0" | "take 3 (d # ds) = [CHR 0xE2, CHR 0x80, CHR 0xA8]" "?n \<noteq> 0"
      | "take 3 (d # ds) = [CHR 0xE2, CHR 0x80, CHR 0xA9]" "?n \<noteq> 0"
      | (copy) "take 3 (d # ds) \<noteq> [CHR 0xE2, CHR 0x80, CHR 0xA8]"
        "take 3 (d # ds) \<noteq> [CHR 0xE2, CHR 0x80, CHR 0xA9]" "?n \<noteq> 0"
      by blast
    then show ?thesis
    proof cases
      case copy
      then have "escape (d # ds) = take ?n (d # ds) @ escape (drop (?n - 1) ds)"
        using False by (auto simp add: Let_def simp del: take_Suc_Cons)
      then have "c \<in> set (take ?n (d # ds)) \<or> c \<in> set (escape (drop (?n - 1) ds))"
        using "2.prems" by auto
      then show ?thesis
        using utf8_bytes_high [OF copy(3), of c] "2.IH"(5) False copy by auto
    qed (use False 2 in \<open>auto simp: Let_def\<close>)
  qed
qed simp

lemma json_string_line: "CHR 0x0A \<notin> set (json_string s)"
  using escape_printable [of "CHR 0x0A" s] by (auto simp: json_string_def)

lemma FormatInt_line: "CHR 0x0A \<notin> set (FormatInt i)"
proof -
  have "\<not> is_digit (CHR 0x0A)" by (simp add: is_digit_def)
  then have "CHR 0x0A \<notin> set (show_nat n)" for n using show_nat_digits [of n] by (metis list_all_iff)
  then show ?thesis by (simp add: FormatInt_def)
qed

lemma Marshal_event_line: "CHR 0x0A \<notin> set (Marshal_event e)"
  using json_string_line FormatInt_line by (auto simp: Marshal_event_def)

text \<open>
  C23. The audit log is append-only, one event per line (audit.go Notify, file_observer.go
  Receive): however the other observers fail, an event reaches every observer; the file of an
  open file observer named once gets exactly one new line, the event's JSON text, which
  contains no line break whatever the metric names and the client address are.
\<close>

theorem audit_line_appended:
  assumes "observers p = xs @ FileObs f # ys" and "\<not> fclosed f" and "append_fault env (fname f) = (\<lambda>_. None)"
    and "\<forall>g. FileObs g \<in> set (xs @ ys) \<longrightarrow> fname g \<noteq> fname f"
    and "Publisher_Notify env p e w = (errs, w')"
  shows "file_contents w' (fname f) = file_contents w (fname f) @ Marshal_event e @ [CHR 0x0A] \<and>
    CHR 0x0A \<notin> set (Marshal_event e)"
proof -
  have other: "file_contents (snd (Notify_loop env lg os e v)) q = file_contents v q"
    if "\<forall>g. FileObs g \<in> set os \<longrightarrow> fname g \<noteq> q" for lg os v q
    using that
  proof (induction os arbitrary: v)
    case (Cons o1 os)
    have "file_contents (snd (Observer_Receive env o1 e v)) q = file_contents v q"
      using Cons.prems by (cases o1) (auto simp: FileObserver_Receive_def HTTPObserver_Receive_def append_file_def
          file_contents_def Let_def split: option.splits sum.splits)
    then show ?case using Cons by (auto simp: case_prod_unfold)
  qed simp
  have app: "Notify_loop env lg (as @ bs) e v =
      (fst (Notify_loop env lg as e v) @ fst (Notify_loop env lg bs e (snd (Notify_loop env lg as e v))),
       snd (Notify_loop env lg bs e (snd (Notify_loop env lg as e v))))" for lg as bs v
    by (induction as arbitrary: v) (auto simp: case_prod_unfold)
  have "file_contents w' (fname f) = file_contents w (fname f) @ Marshal_event e @ [CHR 0x0A]"
    using assms other [of xs "fname f"] other [of ys "fname f"]
    by (auto simp: Publisher_Notify_def app case_prod_unfold FileObserver_Receive_def Let_def append_file_def
        file_contents_def)
  then show ?thesis using Marshal_event_line by simp
qed

definition sample_event :: Event where
  "sample_event = \<lparr>TS = 42, Names = [''Alloc'', [CHR 0x0A]], IPAddress = ''10.0.0.1''\<rparr>"

definition sample_audit_env :: audit_env where
  "sample_audit_env =
     \<lparr>open_fault = (\<lambda>_. None), append_fault = (\<lambda>_ _. None), request_fault = (\<lambda>_. None), http_do = (\<lambda>_ _. Inr 500)\<rparr>"

definition sample_publisher :: Publisher where
  "sample_publisher =
     \<lparr>observers = [HttpObs \<lparr>url = ''http://a''\<rparr>, FileObs \<lparr>fname = ''audit.log'', fclosed = False\<rparr>], has_logger = True\<rparr>"

theorem audit_line_appended_witness:
  "file_contents (snd (Publisher_Notify sample_audit_env sample_publisher
      sample_event \<lparr>disk = [(''audit.log'', ''x'')], posts = []\<rparr>)) ''audit.log'' =
    ''x'' @ Marshal_event sample_event @ [CHR 0x0A]"
proof -
  let ?w = "\<lparr>disk = [(''audit.log'', ''x'')], posts = []\<rparr>"
  let ?f = "\<lparr>fname = ''audit.log'', fclosed = False\<rparr>"
  obtain errs w' where r: "Publisher_Notify sample_audit_env sample_publisher sample_event ?w = (errs, w')" by fastforce
  have "observers sample_publisher = [HttpObs \<lparr>url = ''http://a''\<rparr>] @ FileObs ?f # []"
    by (simp add: sample_publisher_def)
  from audit_line_appended [OF this _ _ _ r] have
    "file_contents w' ''audit.log'' = file_contents ?w ''audit.log'' @ Marshal_event sample_event @ [CHR 0x0A]"
    by (simp add: sample_audit_env_def)
  then show ?thesis by (simp add: r) (simp add: file_contents_def map_get_def)
qed

end
