(* ===== verification/Handler.thy ===== *)
theory Handler
  imports FileStorage Http Net Auditing "HOL-Library.Product_Lexorder"
begin

section \<open>The HTTP endpoints\<close>

text \<open>
  \<^verbatim>\<open>internal/handler/handler.go\<close>. The state of the server is the storage's, the log, and the
  audit events handed to the publisher: each is delivered by a goroutine of its own after
  the handler went on, so the handler only records it. Arguments of the handlers are the
  texts of errors and the HTML template engine's output.
\<close>

record 's hstate =
  store :: 's
  hlog :: "string list"
  access :: "(string \<times> string \<times> nat \<times> nat) list"
  audit_out :: "Event list"

record 's MetricHandler =
  svc :: "'s MetricService"
  pinger :: "('s \<Rightarrow> 's eff) option"
  publisher :: "Publisher option"

record MetricView =
  VType :: string
  VName :: string
  VValue :: string

text \<open>
  \<open>Error\<close> is the text of an error, \<open>json_error\<close> the decoder's message for a body it rejects,
  and \<open>execute_template\<close> what \<^verbatim>\<open>listTemplate.Execute\<close> writes and whether it fails.
\<close>

record henv =
  Error :: "error \<Rightarrow> string"
  json_error :: "body \<Rightarrow> string"
  execute_template :: "MetricView list \<Rightarrow> bytes \<times> error option"

definition NewMetricHandler ::
    "'s MetricService \<Rightarrow> ('s \<Rightarrow> 's eff) option \<Rightarrow> Publisher option \<Rightarrow> 's MetricHandler" where
  "NewMetricHandler sv pg pub = \<lparr>svc = sv, pinger = pg, publisher = pub\<rparr>"

subsection \<open>Helpers\<close>

definition clientIP :: "request \<Rightarrow> string" where
  "clientIP r =
     (let rip = strings_TrimSpace (Header_Get (Header r) ''X-Real-IP'')
      in if rip \<noteq> [] then rip
         else let xff = Header_Get (Header r) ''X-Forwarded-For''
              in if xff \<noteq> [] then
                   (let i = strings_IndexByte xff (CHR '','')
                    in if 0 \<le> i then strings_TrimSpace (take (nat i) xff) else strings_TrimSpace xff)
                 else (case SplitHostPort (RemoteAddr r) of None \<Rightarrow> RemoteAddr r | Some host \<Rightarrow> host))"

definition emitAudit :: "'s MetricHandler \<Rightarrow> request \<Rightarrow> string list \<Rightarrow> 's hstate \<Rightarrow> 's hstate" where
  "emitAudit h r names s =
     (case publisher h of
        None \<Rightarrow> s
      | Some _ \<Rightarrow> s\<lparr>audit_out := audit_out s @ [\<lparr>TS = now r, Names = names, IPAddress = clientIP r\<rparr>]\<rparr>)"

definition log_error :: "string \<Rightarrow> 's hstate \<Rightarrow> 's hstate" where
  "log_error msg s = s\<lparr>hlog := hlog s @ [msg]\<rparr>"

definition internalError :: "string \<Rightarrow> 's hstate \<Rightarrow> wop list \<times> 's hstate" where
  "internalError msg s =
     (http_Error (StatusText StatusInternalServerError) StatusInternalServerError, log_error msg s)"

definition httpStatusForError :: "error \<Rightarrow> nat" where
  "httpStatusForError err =
     (if errors_Is err ''metric not found'' then StatusNotFound
      else if errors_Is err ''unknown metric type'' \<or> errors_Is err ''metric name is empty'' \<or>
              errors_Is err ''value is required for gauge'' \<or> errors_Is err ''delta is required for counter''
      then StatusBadRequest else StatusBadRequest)"

text \<open>
  \<^verbatim>\<open>json.NewDecoder(r.Body).Decode\<close>: a value that is complete in the bytes before a read error
  is decoded, but a scalar at the very end needs one more read.
\<close>

definition Decoder_value :: "body \<Rightarrow> json option" where
  "Decoder_value b =
     (case json_run Want_Value [] (fst b) of
        None \<Rightarrow> None
      | Some (v, r) \<Rightarrow>
          (case v of
             JArr _ \<Rightarrow> Some v
           | JObj _ \<Rightarrow> Some v
           | _ \<Rightarrow> if snd b \<noteq> None \<and> r = [] then None else Some v))"

subsection \<open>The endpoints\<close>

definition Ping :: "'s MetricHandler \<Rightarrow> 's hstate handler" where
  "Ping h r s =
     (case pinger h of
        None \<Rightarrow> (http_Error ''database not configured'' StatusInternalServerError, s)
      | Some ping \<Rightarrow>
          (case ping (store s) of
             (Some err, st) \<Rightarrow> internalError ''db ping failed'' (s\<lparr>store := st\<rparr>)
           | (None, st) \<Rightarrow> ([WriteHeader StatusOK], s\<lparr>store := st\<rparr>)))"

definition Handler_UpdateMetric :: "henv \<Rightarrow> 's MetricHandler \<Rightarrow> 's hstate handler" where
  "Handler_UpdateMetric env h r s =
     (let mType = URLParam r ''type''; name = URLParam r ''name''; val = URLParam r ''value''
      in if name = [] then (http_NotFound, s)
         else case MetricService_UpdateMetric (svc h) (store s) mType name val of
                (Some err, st) \<Rightarrow> (http_Error (Error env err) (httpStatusForError err), s\<lparr>store := st\<rparr>)
              | (None, st) \<Rightarrow> ([WriteHeader StatusOK], emitAudit h r [name] (s\<lparr>store := st\<rparr>)))"

definition Handler_GetValue :: "henv \<Rightarrow> 's MetricHandler \<Rightarrow> 's hstate handler" where
  "Handler_GetValue env h r s =
     (let mType = URLParam r ''type''; name = URLParam r ''name''
      in if name = [] then (http_NotFound, s)
         else case MetricService_GetValue (svc h) (store s) mType name of
                (Inl err, st) \<Rightarrow> (http_Error (Error env err) (httpStatusForError err), s\<lparr>store := st\<rparr>)
              | (Inr val, st) \<Rightarrow>
                  ([SetHeader ''Content-Type'' ''text/plain'', WriteHeader StatusOK, WriteBody val],
                   s\<lparr>store := st\<rparr>))"

text \<open>
  The JSON answer: the encoder writes the whole text and a line break, or nothing when the
  metric has no JSON text; the status has been sent before.
\<close>

definition encode_metric_response :: "Metrics \<Rightarrow> 's hstate \<Rightarrow> wop list \<times> 's hstate" where
  "encode_metric_response m s =
     (let ops = [SetHeader ''Content-Type'' ''application/json'', WriteHeader StatusOK]
      in case Marshal_metric m of
           Some bs \<Rightarrow> (ops @ [WriteBody (bs @ [CHR 0x0A])], s)
         | None \<Rightarrow> (ops, log_error ''failed to encode response'' s))"

definition UpdateMetricJSON :: "henv \<Rightarrow> 's MetricHandler \<Rightarrow> 's hstate handler" where
  "UpdateMetricJSON env h r s =
     (case Option.bind (Decoder_value (Body r)) decode_metric of
        None \<Rightarrow> (http_Error (''invalid json: '' @ json_error env (Body r)) StatusBadRequest, s)
      | Some m \<Rightarrow>
          if ID m = [] then (http_Error ''id is required'' StatusBadRequest, s)
          else case MetricService_UpdateMetricFromModel (svc h) (store s) m of
                 (Some err, st) \<Rightarrow> (http_Error (Error env err) (httpStatusForError err), s\<lparr>store := st\<rparr>)
               | (None, st) \<Rightarrow>
                   (case MetricService_GetMetric (svc h) st (MType m) (ID m) of
                      (Inl err, st') \<Rightarrow> internalError ''failed to get metric after update'' (s\<lparr>store := st'\<rparr>)
                    | (Inr updated, st') \<Rightarrow>
                        encode_metric_response updated (emitAudit h r [ID m] (s\<lparr>store := st'\<rparr>))))"

definition GetValueJSON :: "henv \<Rightarrow> 's MetricHandler \<Rightarrow> 's hstate handler" where
  "GetValueJSON env h r s =
     (case Option.bind (Decoder_value (Body r)) decode_metric of
        None \<Rightarrow> (http_Error (''invalid json: '' @ json_error env (Body r)) StatusBadRequest, s)
      | Some req \<Rightarrow>
          if ID req = [] then (http_Error ''id is required'' StatusBadRequest, s)
          else case MetricService_GetMetric (svc h) (store s) (MType req) (ID req) of
                 (Inl err, st) \<Rightarrow> (http_Error (Error env err) (httpStatusForError err), s\<lparr>store := st\<rparr>)
               | (Inr m, st) \<Rightarrow> encode_metric_response m (s\<lparr>store := st\<rparr>))"

definition UpdateMetricsBatch :: "henv \<Rightarrow> 's MetricHandler \<Rightarrow> 's hstate handler" where
  "UpdateMetricsBatch env h r s =
     (case Option.bind (Decoder_value (Body r)) decode_metrics of
        None \<Rightarrow> (http_Error (''invalid json: '' @ json_error env (Body r)) StatusBadRequest, s)
      | Some metrics \<Rightarrow>
          if metrics = [] then ([WriteHeader StatusOK], s)
          else case MetricService_UpdateBatch (svc h) (store s) metrics of
                 (Some err, st) \<Rightarrow> internalError ''batch update failed'' (s\<lparr>store := st\<rparr>)
               | (None, st) \<Rightarrow> ([WriteHeader StatusOK], emitAudit h r (map ID metrics) (s\<lparr>store := st\<rparr>)))"

text \<open>The dashboard: the rows are collected in the map's order and then sorted.\<close>

definition metric_views :: "(string \<times> string) list \<Rightarrow> MetricView list" where
  "metric_views kvs =
     List.map_filter
       (\<lambda>(key, val).
          let i = strings_IndexByte key (CHR ''/'')
          in if i < 0 then None
             else Some \<lparr>VType = take (nat i) key, VName = drop (nat i + 1) key, VValue = val\<rparr>) kvs"

definition view_key :: "MetricView \<Rightarrow> string \<times> string" where
  "view_key v = (VType v, VName v)"

definition sort_views :: "MetricView list \<Rightarrow> MetricView list" where
  "sort_views = sort_key view_key"

definition ListMetrics ::
    "(string, string) map_order \<Rightarrow> henv \<Rightarrow> 's MetricHandler \<Rightarrow> 's hstate handler" where
  "ListMetrics om env h r s =
     (case MetricService_GetAllMetrics (svc h) (store s) of
        (metrics, st) \<Rightarrow>
          let data = sort_views (metric_views (go_range om metrics));
              ops = [SetHeader ''Content-Type'' ''text/html; charset=utf-8'', WriteHeader StatusOK]
          in (case execute_template env data of
                (html, None) \<Rightarrow> (ops @ [WriteBody html], s\<lparr>store := st\<rparr>)
              | (html, Some err) \<Rightarrow>
                  (ops @ [WriteBody html], log_error ''failed to execute template'' (s\<lparr>store := st\<rparr>))))"

text \<open>The routes, in the order they are registered: method, pattern and endpoint.\<close>

definition Routes ::
    "(string, string) map_order \<Rightarrow> henv \<Rightarrow> 's MetricHandler \<Rightarrow> (string \<times> string \<times> 's hstate handler) list" where
  "Routes om env h =
     [(''GET'', ''/'', ListMetrics om env h),
      (''GET'', ''/ping'', Ping h),
      (''POST'', ''/update'', UpdateMetricJSON env h),
      (''POST'', ''/update/'', UpdateMetricJSON env h),
      (''POST'', ''/value'', GetValueJSON env h),
      (''POST'', ''/value/'', GetValueJSON env h),
      (''POST'', ''/updates/'', UpdateMetricsBatch env h),
      (''POST'', ''/update/{type}/{name}/{value}'', Handler_UpdateMetric env h),
      (''GET'', ''/value/{type}/{name}'', Handler_GetValue env h)]"

subsection \<open>What the endpoints promise over any storage that keeps its contract\<close>

lemma text_error_status:
  "text_metric ty n val = Inl err \<Longrightarrow> httpStatusForError err = StatusBadRequest"
  by (auto simp: text_metric_def httpStatusForError_def ErrUnknownType_def ParseFloat_def ParseInt_def Let_def
      split: if_splits sum.splits option.splits prod.splits)

lemma model_error_status: "model_error m = Some err \<Longrightarrow> httpStatusForError err = StatusBadRequest"
  by (auto simp: model_error_def httpStatusForError_def ErrUnknownType_def ErrValueRequired_def
      ErrDeltaRequired_def split: if_splits)

lemma emitAudit_store [simp]: "store (emitAudit h r ns s) = store s" "hlog (emitAudit h r ns s) = hlog s"
  by (simp_all add: emitAudit_def split: option.split)

lemma encode_response_frame [simp]:
  "store (snd (encode_metric_response m s)) = store s"
  "audit_out (snd (encode_metric_response m s)) = audit_out s"
  by (simp_all add: encode_metric_response_def log_error_def Let_def split: option.split)

lemma encode_response_ops:
  "fst (encode_metric_response m s) =
     [SetHeader ''Content-Type'' ''application/json'', WriteHeader StatusOK] @
     (case Marshal_metric m of Some bs \<Rightarrow> [WriteBody (bs @ [CHR 0x0A])] | None \<Rightarrow> [])"
  by (simp add: encode_metric_response_def Let_def split: option.split)

text \<open>The audit events a request adds: one with the given names when there is a publisher.\<close>

definition audit_of :: "Publisher option \<Rightarrow> request \<Rightarrow> string list \<Rightarrow> Event list" where
  "audit_of pub r names =
     (case pub of None \<Rightarrow> [] | Some _ \<Rightarrow> [\<lparr>TS = now r, Names = names, IPAddress = clientIP r\<rparr>])"

lemma emitAudit_out: "audit_out (emitAudit h r ns s) = audit_out s @ audit_of (publisher h) r ns"
  by (simp add: emitAudit_def audit_of_def split: option.split)

locale handler_contract = service_contract st view ok fmt cb
  for st :: "'s Storage" and view ok fmt cb +
  fixes env :: henv
    and pg :: "('s \<Rightarrow> 's eff) option"
    and pub :: "Publisher option"
begin

abbreviation the_handler :: "'s MetricHandler" where
  "the_handler \<equiv> \<lparr>svc = the_svc, pinger = pg, publisher = pub\<rparr>"

lemma text_endpoint:
  assumes "ok (store s)" and "URLParam r ''name'' \<noteq> []"
  shows "case text_metric (URLParam r ''type'') (URLParam r ''name'') (URLParam r ''value'') of
      Inl err \<Rightarrow> Handler_UpdateMetric env the_handler r s = (http_Error (Error env err) StatusBadRequest, s)
    | Inr m \<Rightarrow> \<exists>s'. Handler_UpdateMetric env the_handler r s = ([WriteHeader StatusOK], s') \<and> ok (store s') \<and>
        view (store s') = apply_metric m (view (store s)) \<and>
        audit_out s' = audit_out s @ audit_of pub r [URLParam r ''name'']"
proof (cases "text_metric (URLParam r ''type'') (URLParam r ''name'') (URLParam r ''value'')")
  case (Inl err)
  then show ?thesis
    using update_text [OF assms(1), of "URLParam r ''type''" "URLParam r ''name''" "URLParam r ''value''"] assms(2)
    by (simp add: Handler_UpdateMetric_def text_error_status [OF Inl])
next
  case (Inr m)
  then show ?thesis
    using update_text [OF assms(1), of "URLParam r ''type''" "URLParam r ''name''" "URLParam r ''value''"] assms(2)
    by (auto simp: Handler_UpdateMetric_def emitAudit_out)
qed

lemma value_endpoint:
  assumes "ok (store s)" and "URLParam r ''name'' \<noteq> []"
  shows "Handler_GetValue env the_handler r s =
    (case (if URLParam r ''type'' \<noteq> model_Gauge \<and> URLParam r ''type'' \<noteq> model_Counter then Inl ErrUnknownType
           else case table_value fmt (view (store s)) (URLParam r ''type'') (URLParam r ''name'') of
                  None \<Rightarrow> Inl ErrMetricNotFound | Some v \<Rightarrow> Inr v) of
       Inl err \<Rightarrow> http_Error (Error env err) (httpStatusForError err)
     | Inr val \<Rightarrow> [SetHeader ''Content-Type'' ''text/plain'', WriteHeader StatusOK, WriteBody val], s)"
  using assms by (simp add: Handler_GetValue_def query_value split: option.split)

text \<open>The metric a query returns after a model has been applied.\<close>

lemma model_then_query:
  assumes "ok s'" and "view s' = apply_metric m (view s)" and "model_error m = None" and "ID m \<noteq> []"
  shows "MetricService_GetMetric the_svc s' (MType m) (ID m) =
    (Inr (if MType m = model_Gauge then gauge_metric (ID m) (the (Value m))
          else counter_metric (ID m) (counter_total (view s) (ID m) + the (Delta m))), s')"
  using assms by (auto simp: query_metric model_error_def table_metric_def apply_metric_def split: if_splits)

lemma json_endpoint:
  assumes "ok (store s)" and "Option.bind (Decoder_value (Body r)) decode_metric = Some m" and "ID m \<noteq> []"
  shows "case model_error m of
      Some err \<Rightarrow> UpdateMetricJSON env the_handler r s = (http_Error (Error env err) StatusBadRequest, s)
    | None \<Rightarrow> \<exists>s1. ok (store s1) \<and> view (store s1) = apply_metric m (view (store s)) \<and>
        audit_out s1 = audit_out s @ audit_of pub r [ID m] \<and>
        UpdateMetricJSON env the_handler r s = encode_metric_response
          (if MType m = model_Gauge then gauge_metric (ID m) (the (Value m))
           else counter_metric (ID m) (counter_total (view (store s)) (ID m) + the (Delta m))) s1"
proof (cases "model_error m")
  case None
  obtain st where st: "MetricService_UpdateMetricFromModel the_svc (store s) m = (None, st)" "ok st"
    "view st = apply_metric m (view (store s))"
    using update_model [OF assms(1), of m] None by auto
  let ?s1 = "emitAudit the_handler r [ID m] (s\<lparr>store := st\<rparr>)"
  have "UpdateMetricJSON env the_handler r s = encode_metric_response
          (if MType m = model_Gauge then gauge_metric (ID m) (the (Value m))
           else counter_metric (ID m) (counter_total (view (store s)) (ID m) + the (Delta m))) ?s1"
    using model_then_query [OF st(2,3) None assms(3)] st(1) assms(2,3)
    by (simp add: UpdateMetricJSON_def)
  moreover have "audit_out ?s1 = audit_out s @ audit_of pub r [ID m]" by (simp add: emitAudit_out)
  ultimately show ?thesis using None st(2,3) by (auto intro!: exI [of _ ?s1])
next
  case (Some err)
  then show ?thesis
    using model_rejected [OF Some, of "store s"] assms(2,3)
    by (simp add: UpdateMetricJSON_def model_error_status [OF Some])
qed

lemma batch_endpoint:
  assumes "ok (store s)" and "Option.bind (Decoder_value (Body r)) decode_metrics = Some ms"
  shows "\<exists>s'. UpdateMetricsBatch env the_handler r s = ([WriteHeader StatusOK], s') \<and> ok (store s') \<and>
    view (store s') = apply_batch ms (view (store s)) \<and>
    audit_out s' = audit_out s @ (if ms = [] then [] else audit_of pub r (map ID ms))"
  using update_list [OF assms(1), of ms] assms
  by (auto simp: UpdateMetricsBatch_def emitAudit_out)

lemma query_endpoint:
  assumes "ok (store s)" and "Option.bind (Decoder_value (Body r)) decode_metric = Some q" and "ID q \<noteq> []"
    and "table_metric (view (store s)) (ID q) (MType q) = Some m"
  shows "GetValueJSON env the_handler r s = encode_metric_response m s"
  using assms by (auto simp: GetValueJSON_def query_metric table_metric_def split: if_splits)

end

interpretation mem_h: handler_contract "MemStorage_Storage og oc" mem_view mem_ok FormatFloat_f None env pg pub
  for og oc env pg pub
  by unfold_locales

interpretation fbs_h: handler_contract "FileBackedStorage_Storage og oc" file_view file_ok FormatFloat_f
    "Some (FileBackedStorage_SaveOnUpdate os og oc)" env pg pub
  for og oc os env pg pub
  by unfold_locales

subsection \<open>Lemmas for the properties\<close>

lemma Decoder_value_clean: "Decoder_value (bs, None) = json_decode_value bs"
  by (auto simp: Decoder_value_def json_decode_value_def split: option.splits json.splits)

lemma respond_encoded:
  assumes "json_safe m"
  shows "resp_status (respond (fst (encode_metric_response m s))) = StatusOK"
    and "Decode_metric (resp_body (respond (fst (encode_metric_response m s)))) = Some m"
proof -
  obtain bs where bs: "Marshal_metric m = Some bs" "\<And>r. number_end r \<Longrightarrow> Decode_metric (bs @ r) = Some m"
    by (rule Decode_Marshal_metric [OF assms]) blast
  have "number_end [CHR 0x0A]" by (simp add: number_end_def is_digit_def)
  with bs show "resp_status (respond (fst (encode_metric_response m s))) = StatusOK"
    "Decode_metric (resp_body (respond (fst (encode_metric_response m s)))) = Some m"
    by (simp_all add: encode_response_ops respond_status respond_body)
qed

lemma json_safe_simps [simp]:
  "json_safe (gauge_metric n v) \<longleftrightarrow> utf8_valid n \<and> f64_finite v"
  "json_safe (counter_metric n d) \<longleftrightarrow> utf8_valid n"
  by (simp_all add: json_safe_def)

abbreviation mem_handler :: "gauge_order \<Rightarrow> counter_order \<Rightarrow> Publisher option \<Rightarrow> MemStorage MetricHandler" where
  "mem_handler og oc pub \<equiv> NewMetricHandler (NewMetricService (MemStorage_Storage og oc)) None pub"

lemma mem_handler_eq: "mem_handler og oc pub = \<lparr>svc = mem_svc.the_svc og oc, pinger = None, publisher = pub\<rparr>"
  by (simp add: NewMetricHandler_def NewMetricService_def)

subsection \<open>Properties\<close>

text \<open>
  C19. The JSON update endpoint echoes what it stored (handler.go UpdateMetricJSON, with
  service/metrics.go and storage.go). When the body is the JSON text of a metric with an id, a
  known type and its value, the server answers 200, applies exactly that metric, emits one
  audit event with its name if auditing is on, and its answer is JSON that decodes to the
  metric as it is stored now: the gauge's new value, or the counter's total.
\<close>

theorem update_json_echo:
  assumes "mem_ok (store s)" and "json_safe m" and "ID m \<noteq> []" and "model_error m = None"
    and "Marshal_metric m = Some bs" and "Body r = (bs, None)"
    and "UpdateMetricJSON env (mem_handler og oc pub) r s = (ops, s')"
  shows "resp_status (respond ops) = 200 \<and> mem_view (store s') = apply_metric m (mem_view (store s)) \<and>
    audit_out s' = audit_out s @ audit_of pub r [ID m] \<and>
    Decode_metric (resp_body (respond ops)) = table_metric (mem_view (store s')) (ID m) (MType m)"
proof -
  have "Option.bind (Decoder_value (Body r)) decode_metric = Decode_metric bs"
    by (simp add: assms(6) Decoder_value_clean Decode_metric_def)
  also have "\<dots> = Some m" using Decode_Marshal_metric [OF assms(2)] assms(5) by (metis append_Nil2 number_end_Nil option.inject)
  finally have d: "Option.bind (Decoder_value (Body r)) decode_metric = Some m" .
  let ?u = "if MType m = model_Gauge then gauge_metric (ID m) (the (Value m))
            else counter_metric (ID m) (counter_total (mem_view (store s)) (ID m) + the (Delta m))"
  obtain s1 where s1: "mem_view (store s1) = apply_metric m (mem_view (store s))"
    "audit_out s1 = audit_out s @ audit_of pub r [ID m]"
    "UpdateMetricJSON env (mem_handler og oc pub) r s = encode_metric_response ?u s1"
    using mem_h.json_endpoint [OF assms(1) d assms(3), where og = og and oc = oc and env = env and pg = None and pub = pub]
    unfolding mem_handler_eq assms(4) option.case by blast
  have t: "table_metric (apply_metric m (mem_view (store s))) (ID m) (MType m) = Some ?u"
    using assms(4) by (auto simp: model_error_def table_metric_def apply_metric_def split: if_splits)
  have "json_safe ?u" using assms(2,4) by (auto simp: json_safe_def model_error_def split: if_splits)
  note resp = respond_encoded [OF this, of s1]
  have "ops = fst (encode_metric_response ?u s1)" "s' = snd (encode_metric_response ?u s1)"
    using assms(7) s1(3) by simp_all
  with resp s1(1,2) t show ?thesis by (simp only: StatusOK_def encode_response_frame)
qed

definition sample_request :: "bytes \<Rightarrow> request" where
  "sample_request bs =
     \<lparr>Method = ''POST'', RequestURI = ''/update'', Header = [(''X-Real-Ip'', [''10.0.0.7''])], Body = (bs, None),
      RemoteAddr = ''127.0.0.1:5000'', params = [(''type'', ''gauge''), (''name'', ''cpu''), (''value'', ''1.5'')], now = 1700000000\<rparr>"

definition sample_env :: henv where
  "sample_env = \<lparr>Error = (\<lambda>_. ''error''), json_error = (\<lambda>_. ''bad''), execute_template = (\<lambda>vs. (concat (map VName vs), None))\<rparr>"

definition empty_state :: "MemStorage hstate" where
  "empty_state = \<lparr>store = NewMemStorage, hlog = [], access = [], audit_out = []\<rparr>"

abbreviation sample_pub :: "Publisher option" where
  "sample_pub \<equiv> Some \<lparr>observers = [], has_logger = True\<rparr>"

theorem update_json_echo_witness:
  "let m = counter_metric ''hits'' 41; bs = the (Marshal_metric m);
       (ops, s') = UpdateMetricJSON sample_env (mem_handler id id sample_pub) (sample_request bs) empty_state
   in resp_status (respond ops) = 200 \<and> Decode_metric (resp_body (respond ops)) = Some m \<and>
      audit_out s' = [\<lparr>TS = 1700000000, Names = [''hits''], IPAddress = ''10.0.0.7''\<rparr>]"
proof -
  let ?m = "counter_metric ''hits'' 41"
  have v: "utf8_valid ''hits''" by code_simp
  obtain bs where bs: "Marshal_metric ?m = Some bs" using Decode_Marshal_metric [of ?m] v by auto
  obtain ops s' where u: "UpdateMetricJSON sample_env (mem_handler id id sample_pub) (sample_request bs) empty_state = (ops, s')"
    by fastforce
  have b: "Body (sample_request bs) = (bs, None)" by (simp add: sample_request_def)
  have ip: "clientIP (sample_request bs) = ''10.0.0.7''"
  proof -
    have "strings_TrimSpace (Header_Get [(''X-Real-Ip'', [''10.0.0.7''])] ''X-Real-IP'') = ''10.0.0.7''" by code_simp
    then show ?thesis by (simp add: clientIP_def sample_request_def)
  qed
  have t: "table_metric (apply_metric ?m empty_table) ''hits'' model_Counter = Some ?m"
    by (simp add: table_metric_def)
  have "mem_ok (store empty_state)" by (simp add: empty_state_def mem_new)
  from update_json_echo [OF this _ _ _ bs b u] v ip t
  have "resp_status (respond ops) = 200 \<and> Decode_metric (resp_body (respond ops)) = Some ?m \<and>
      audit_out s' = [\<lparr>TS = 1700000000, Names = [''hits''], IPAddress = ''10.0.0.7''\<rparr>]"
    by (simp add: empty_state_def mem_new(2) model_error_def audit_of_def sample_request_def)
  then show ?thesis by (simp only: Let_def bs option.sel u prod.case)
qed

lemma mem_batch_json:
  assumes "mem_ok (store s)" and "list_all json_safe ms" and "Marshal_metrics ms = Some bs" and "Body r = (bs, None)"
  shows "\<exists>s'. UpdateMetricsBatch env (mem_handler og oc pub) r s = ([WriteHeader 200], s') \<and> mem_ok (store s') \<and>
    mem_view (store s') = apply_batch ms (mem_view (store s)) \<and>
    audit_out s' = audit_out s @ (if ms = [] then [] else audit_of pub r (map ID ms))"
proof -
  have "Option.bind (Decoder_value (Body r)) decode_metrics = Decode_metrics bs"
    by (simp add: assms(4) Decoder_value_clean Decode_metrics_def)
  also have "\<dots> = Some ms"
    using Decode_Marshal_metrics [OF assms(2)] assms(3) by (metis append_Nil2 number_end_Nil option.inject)
  finally show ?thesis
    using mem_h.batch_endpoint [OF assms(1), where og = og and oc = oc and env = env and pg = None and pub = pub]
    unfolding mem_handler_eq StatusOK_def by blast
qed

text \<open>
  The batch endpoint applies the whole batch (handler.go UpdateMetricsBatch): when the body
  is the JSON text of a list of metrics, the server answers 200 and the storage holds the old
  metrics with the list applied in order, counters summed and entries it cannot use skipped.
  One audit event names all ids; an empty list changes nothing and emits none.
\<close>

theorem update_batch_effect:
  assumes "mem_ok (store s)" and "list_all json_safe ms" and "Marshal_metrics ms = Some bs" and "Body r = (bs, None)"
  shows "\<exists>s'. UpdateMetricsBatch env (mem_handler og oc pub) r s = ([WriteHeader 200], s') \<and> mem_ok (store s') \<and>
    mem_view (store s') = apply_batch ms (mem_view (store s)) \<and>
    audit_out s' = audit_out s @ (if ms = [] then [] else audit_of pub r (map ID ms))"
  by (rule mem_batch_json [OF assms])

theorem update_batch_effect_witness:
  "\<exists>s'. UpdateMetricsBatch sample_env (mem_handler id id None)
      (sample_request (the (Marshal_metrics [counter_metric ''c'' 5, gauge_metric ''g'' 0, counter_metric ''c'' 3]))) empty_state =
      ([WriteHeader 200], s') \<and> counter_or_zero (store s') ''c'' = 8"
proof -
  let ?ms = "[counter_metric ''c'' 5, gauge_metric ''g'' 0, counter_metric ''c'' 3]"
  have "utf8_valid ''c''" "utf8_valid ''g''" "f64_finite 0" by code_simp+
  then have safe: "list_all json_safe ?ms" by simp
  obtain bs where bs: "Marshal_metrics ?ms = Some bs" using Decode_Marshal_metrics [OF safe] by auto
  have "mem_ok (store empty_state)" "Body (sample_request bs) = (bs, None)"
    by (simp_all add: empty_state_def mem_new sample_request_def)
  from update_batch_effect [OF this(1) safe bs this(2), of sample_env id id None]
  show ?thesis by (auto simp: bs counter_or_zero_total empty_state_def mem_new(2))
qed

lemma respond_status_simps [simp]:
  "resp_status (respond (http_Error msg c)) = c"
  "resp_status (respond [WriteHeader c]) = c"
  "resp_status (respond (SetHeader k v # WriteHeader c # ops)) = c"
  by (simp_all add: respond_status)

lemma encode_status [simp]: "resp_status (respond (fst (encode_metric_response m s))) = StatusOK"
  by (simp add: encode_response_ops)

lemma mem_UpdateMetric_safe:
  assumes "mem_ok (store s)" and "Handler_UpdateMetric env (mem_handler og oc pub) r s = (ops, s')"
  shows "mem_ok (store s') \<and> (resp_status (respond ops) \<in> {400, 404} \<longrightarrow> s' = s)"
proof (cases "URLParam r ''name'' = []")
  case True
  then show ?thesis using assms by (simp add: Handler_UpdateMetric_def)
next
  case False
  then show ?thesis
    using mem_h.text_endpoint [OF assms(1) False, where og = og and oc = oc and env = env and pg = None and pub = pub] assms(1,2) unfolding mem_handler_eq
    by (auto simp: status_defs split: sum.splits)
qed

lemma mem_UpdateMetricJSON_safe:
  assumes "mem_ok (store s)" and "UpdateMetricJSON env (mem_handler og oc pub) r s = (ops, s')"
  shows "mem_ok (store s') \<and> (resp_status (respond ops) \<in> {400, 404} \<longrightarrow> s' = s)"
proof (cases "Option.bind (Decoder_value (Body r)) decode_metric")
  case None
  then show ?thesis using assms by (simp add: UpdateMetricJSON_def)
next
  case (Some m)
  show ?thesis
  proof (cases "ID m = []")
    case True
    then show ?thesis using assms Some by (simp add: UpdateMetricJSON_def)
  next
    case False
    show ?thesis
    proof (cases "model_error m")
      case None
      with mem_h.json_endpoint [OF assms(1) Some False, where og = og and oc = oc and env = env and pg = None and pub = pub] assms(2)
      obtain u s1 where "mem_ok (store s1)" "(ops, s') = encode_metric_response u s1"
        unfolding mem_handler_eq by auto
      then have "ops = fst (encode_metric_response u s1)" "s' = snd (encode_metric_response u s1)"
        by (metis fst_conv, metis snd_conv)
      then show ?thesis using \<open>mem_ok (store s1)\<close> by (simp add: status_defs)
    next
      case err: (Some err)
      then show ?thesis
        using mem_h.json_endpoint [OF assms(1) Some False, where og = og and oc = oc and env = env and pg = None and pub = pub] assms unfolding mem_handler_eq
        by simp
    qed
  qed
qed

lemma mem_UpdateMetricsBatch_safe:
  assumes "mem_ok (store s)" and "UpdateMetricsBatch env (mem_handler og oc pub) r s = (ops, s')"
  shows "mem_ok (store s') \<and> (resp_status (respond ops) \<in> {400, 404} \<longrightarrow> s' = s)"
proof (cases "Option.bind (Decoder_value (Body r)) decode_metrics")
  case None
  then show ?thesis using assms by (simp add: UpdateMetricsBatch_def)
next
  case (Some ms)
  then show ?thesis
    using mem_h.batch_endpoint [OF assms(1) Some, where og = og and oc = oc and env = env and pg = None and pub = pub] assms(2) unfolding mem_handler_eq
    by (auto simp: status_defs)
qed

lemma mem_reads_safe:
  assumes "f \<in> {ListMetrics om env (mem_handler og oc pub), Ping (mem_handler og oc pub),
      GetValueJSON env (mem_handler og oc pub), Handler_GetValue env (mem_handler og oc pub)}"
    and "mem_ok (store s)" and "f r s = (ops, s')"
  shows "store s' = store s \<and> (resp_status (respond ops) \<in> {400, 404} \<longrightarrow> s' = s)"
proof -
  have get: "st = store s" if "MetricService_GetMetric (svc (mem_handler og oc pub)) (store s) ty n = (x, st)" for ty n x st
    using that mem_svc.query_metric [OF assms(2), where og = og and oc = oc] unfolding mem_handler_eq by simp
  have enc: "store s1 = store s0 \<and> resp_status (respond ops1) = 200"
    if "encode_metric_response m s0 = (ops1, s1)" for m s0 ops1 s1
    using encode_response_frame(1) [of m s0] encode_status [of m s0] that by (simp add: status_defs)
  consider "f = ListMetrics om env (mem_handler og oc pub)" | "f = Ping (mem_handler og oc pub)"
    | "f = GetValueJSON env (mem_handler og oc pub)" | "f = Handler_GetValue env (mem_handler og oc pub)"
    using assms(1) by blast
  then show ?thesis
  proof cases
    case 1
    then show ?thesis
      using assms(3) unfolding mem_handler_eq
      by (auto simp: ListMetrics_def MetricService_GetAllMetrics_def mem_queries log_error_def status_defs
          split: prod.splits option.splits)
  next
    case 2
    then show ?thesis using assms(3) by (simp add: Ping_def NewMetricHandler_def)
  next
    case 3
    then show ?thesis
      using assms(3) by (auto simp: GetValueJSON_def dest!: get enc split: option.splits prod.splits sum.splits if_splits)
  next
    case 4
    have "s' = s"
    proof (cases "URLParam r ''name'' = []")
      case True
      then show ?thesis using 4 assms(3) by (simp add: Handler_GetValue_def)
    next
      case False
      show ?thesis
        using 4 assms(3) mem_h.value_endpoint [OF assms(2) False, where og = og and oc = oc and env = env and pg = None and pub = pub]
        unfolding mem_handler_eq by simp
    qed
    then show ?thesis by simp
  qed
qed



subsection \<open>The dashboard\<close>

definition entry_view :: "string \<times> string \<Rightarrow> MetricView" where
  "entry_view kv =
     \<lparr>VType = takeWhile (\<lambda>c. c \<noteq> CHR ''/'') (fst kv), VName = drop 1 (dropWhile (\<lambda>c. c \<noteq> CHR ''/'') (fst kv)),
      VValue = snd kv\<rparr>"

lemma entry_view_split:
  assumes "CHR ''/'' \<notin> set ty"
  shows "entry_view (ty @ CHR ''/'' # n, v) = \<lparr>VType = ty, VName = n, VValue = v\<rparr>"
    and "metric_views [(ty @ CHR ''/'' # n, v)] = [\<lparr>VType = ty, VName = n, VValue = v\<rparr>]"
proof -
  have *: "\<forall>c \<in> set ty. c \<noteq> CHR ''/''" using assms by blast
  then show "entry_view (ty @ CHR ''/'' # n, v) = \<lparr>VType = ty, VName = n, VValue = v\<rparr>"
    by (simp add: entry_view_def takeWhile_append dropWhile_append)
  have "strings_IndexByte (ty @ CHR ''/'' # n) (CHR ''/'') = int (length ty)" using assms by simp
  then show "metric_views [(ty @ CHR ''/'' # n, v)] = [\<lparr>VType = ty, VName = n, VValue = v\<rparr>]"
    by (simp add: metric_views_def List.map_filter_def)
qed

text \<open>An entry of the map of all metrics has its type before the first slash.\<close>

definition metric_key :: "string \<Rightarrow> bool" where
  "metric_key k = (\<exists>ty n. k = ty @ CHR ''/'' # n \<and> CHR ''/'' \<notin> set ty)"

lemma metric_views_map:
  "(\<forall>kv \<in> set kvs. metric_key (fst kv)) \<Longrightarrow> metric_views kvs = map entry_view kvs"
proof (induction kvs)
  case (Cons kv kvs)
  obtain ty n v where kv: "kv = (ty @ CHR ''/'' # n, v)" "CHR ''/'' \<notin> set ty"
    using Cons.prems by (cases kv) (auto simp: metric_key_def)
  have "metric_views (kv # kvs) = metric_views [kv] @ metric_views kvs"
    by (simp add: metric_views_def List.map_filter_def)
  then show ?case using Cons entry_view_split [OF kv(2)] kv(1) by simp
qed (simp add: metric_views_def List.map_filter_def)

lemma entry_view_inj:
  assumes "metric_key (fst a)" "metric_key (fst b)" "view_key (entry_view a) = view_key (entry_view b)"
  shows "fst a = fst b"
  using assms entry_view_split by (cases a; cases b) (auto simp: metric_key_def view_key_def)

lemma wf_map_mset_eq:
  assumes "wf_map m" "wf_map m'" "map_get m = map_get m'"
  shows "mset m = mset m'"
proof -
  have "distinct m" "distinct m'" using assms(1,2) by (simp_all add: wf_map_def distinct_map)
  moreover have "set m = set m'"
    using wf_map_in_iff [OF assms(1)] wf_map_in_iff [OF assms(2)] assms(3) by (auto simp: set_eq_iff)
  ultimately show ?thesis by (simp add: set_eq_iff_mset_eq_distinct)
qed

text \<open>Whatever list of its entries a map is, sorting the rows gives the same table.\<close>

lemma sort_views_unique:
  assumes wf: "wf_map m" and keys: "\<forall>kv \<in> set m. metric_key (fst kv)" and eq: "mset kvs = mset m"
  shows "sort_views (metric_views kvs) = sort_views (map entry_view m)"
proof -
  have set: "set kvs = set m" using eq by (metis set_mset_mset)
  have "inj_on view_key (set (map entry_view kvs))"
  proof (rule inj_onI)
    fix x y assume "x \<in> set (map entry_view kvs)" "y \<in> set (map entry_view kvs)" "view_key x = view_key y"
    then obtain a b where ab: "a \<in> set m" "x = entry_view a" "b \<in> set m" "y = entry_view b"
      "view_key (entry_view a) = view_key (entry_view b)"
      using set by auto
    then have "fst a = fst b" using keys entry_view_inj by blast
    then have "a = b" using ab wf by (metis eq_key_imp_eq_value prod.collapse wf_map_def)
    then show "x = y" using ab by simp
  qed
  moreover have "metric_views kvs = map entry_view kvs" using keys set by (intro metric_views_map) simp
  ultimately show ?thesis
    unfolding sort_views_def
    using eq sort_key_inj_key_eq [of "map entry_view kvs" "sort_key view_key (map entry_view m)" view_key]
    by simp
qed

lemma metric_key_types:
  assumes "ty \<in> {model_Gauge, model_Counter}"
  shows "metric_key (ty @ CHR ''/'' # n)" and "CHR ''/'' \<notin> set ty"
proof -
  show t: "CHR ''/'' \<notin> set ty" using assms by (auto simp: model_Gauge_def model_Counter_def)
  then show "metric_key (ty @ CHR ''/'' # n)" by (auto simp: metric_key_def)
qed

definition dashboard_rows :: "MemStorage \<Rightarrow> MetricView list" where
  "dashboard_rows m = sort_views (map entry_view (MemStorage_GetAllMetrics id id m))"

lemma all_metrics_entry:
  assumes "mem_ok m"
  shows "(k, v) \<in> set (MemStorage_GetAllMetrics og oc m) \<longleftrightarrow>
    (\<exists>ty n. k = ty @ CHR ''/'' # n \<and> ty \<in> {model_Gauge, model_Counter} \<and> MemStorage_GetValue m ty n = Some v)"
proof -
  have "(k, v) \<in> set (MemStorage_GetAllMetrics og oc m) \<longleftrightarrow>
      (\<exists>ty n. k = ty @ CHR ''/'' # n \<and> MemStorage_GetValue m ty n = Some v)"
    using wf_map_in_iff [OF all_metrics_wf, of k v og oc m] mem.get_all [OF assms, of og oc k v]
    by (simp add: mem_queries mem_value_table)
  moreover have "MemStorage_GetValue m ty n = Some v \<Longrightarrow> ty \<in> {model_Gauge, model_Counter}" for ty n
    by (auto simp: MemStorage_GetValue_def split: if_splits)
  ultimately show ?thesis by blast
qed

lemma all_metrics_keys:
  "mem_ok m \<Longrightarrow> \<forall>kv \<in> set (MemStorage_GetAllMetrics og oc m). metric_key (fst kv)"
  using all_metrics_entry metric_key_types(1) by fastforce

lemma rows_any_order:
  assumes "mem_ok m"
  shows "sort_views (metric_views (go_range om (MemStorage_GetAllMetrics og oc m))) = dashboard_rows m"
proof -
  have "map_get (MemStorage_GetAllMetrics og oc m) k = map_get (MemStorage_GetAllMetrics id id m) k" for k
    using mem.get_all [OF assms, of og oc k] mem.get_all [OF assms, of id id k]
    by (simp add: mem_queries) (metis not_Some_eq)
  then have "mset (MemStorage_GetAllMetrics og oc m) = mset (MemStorage_GetAllMetrics id id m)"
    by (intro wf_map_mset_eq all_metrics_wf) (rule ext)
  then show ?thesis
    unfolding dashboard_rows_def
    by (intro sort_views_unique all_metrics_wf all_metrics_keys assms) simp
qed

lemma dashboard_rows_in:
  assumes "mem_ok m"
  shows "\<lparr>VType = ty, VName = n, VValue = v\<rparr> \<in> set (dashboard_rows m) \<longleftrightarrow> MemStorage_GetValue m ty n = Some v"
proof
  assume "\<lparr>VType = ty, VName = n, VValue = v\<rparr> \<in> set (dashboard_rows m)"
  then obtain k u where "(k, u) \<in> set (MemStorage_GetAllMetrics id id m)"
    and e: "entry_view (k, u) = \<lparr>VType = ty, VName = n, VValue = v\<rparr>"
    by (force simp: dashboard_rows_def sort_views_def)
  then obtain ty' n' where "k = ty' @ CHR ''/'' # n'" "ty' \<in> {model_Gauge, model_Counter}"
    "MemStorage_GetValue m ty' n' = Some u"
    using all_metrics_entry [OF assms] by blast
  with e entry_view_split(1) [OF metric_key_types(2)] show "MemStorage_GetValue m ty n = Some v" by simp
next
  assume g: "MemStorage_GetValue m ty n = Some v"
  then have ty: "ty \<in> {model_Gauge, model_Counter}" by (auto simp: MemStorage_GetValue_def split: if_splits)
  then have "(ty @ CHR ''/'' # n, v) \<in> set (MemStorage_GetAllMetrics id id m)"
    using g all_metrics_entry [OF assms] by blast
  then show "\<lparr>VType = ty, VName = n, VValue = v\<rparr> \<in> set (dashboard_rows m)"
    unfolding dashboard_rows_def sort_views_def set_sort set_map
    using entry_view_split(1) [OF metric_key_types(2) [OF ty], of n v] by (metis imageI)
qed

text \<open>
  C20. The dashboard is deterministic (handler.go ListMetrics over storage.go GetAllMetrics):
  the page is rendered from a list of rows that does not depend on any of the three map
  iteration orders involved. The list has one row per stored metric, with the text
  \<^verbatim>\<open>GetValue\<close> gives, in strictly ascending order of type and then name.
\<close>

theorem dashboard_deterministic:
  assumes "mem_ok (store s)"
  shows "\<exists>rows. sorted (map view_key rows) \<and> distinct (map view_key rows) \<and>
    (\<forall>ty n v. \<lparr>VType = ty, VName = n, VValue = v\<rparr> \<in> set rows \<longleftrightarrow> MemStorage_GetValue (store s) ty n = Some v) \<and>
    (\<forall>om og oc pub. fst (ListMetrics om env (mem_handler og oc pub) r s) =
       [SetHeader ''Content-Type'' ''text/html; charset=utf-8'', WriteHeader 200,
        WriteBody (fst (execute_template env rows))])"
proof (intro exI conjI allI)
  let ?rows = "dashboard_rows (store s)"
  show "sorted (map view_key ?rows)" by (simp add: dashboard_rows_def sort_views_def)
  show "distinct (map view_key ?rows)"
  proof -
    let ?m = "MemStorage_GetAllMetrics id id (store s)"
    have "inj_on (\<lambda>a. view_key (entry_view a)) (set ?m)"
      by (rule inj_onI)
        (metis all_metrics_keys [OF assms] all_metrics_wf entry_view_inj eq_key_imp_eq_value prod.collapse wf_map_def)
    moreover have "distinct ?m" using all_metrics_wf [of id id "store s"] by (simp add: wf_map_def distinct_map)
    ultimately have "distinct (map view_key (map entry_view ?m))" by (simp add: distinct_map comp_def)
    then show ?thesis
      unfolding dashboard_rows_def sort_views_def by (metis distinct_map distinct_sort set_sort)
  qed
  show "\<lparr>VType = ty, VName = n, VValue = v\<rparr> \<in> set ?rows \<longleftrightarrow> MemStorage_GetValue (store s) ty n = Some v" for ty n v
    by (rule dashboard_rows_in [OF assms])
  show "fst (ListMetrics om env (mem_handler og oc pub) r s) =
      [SetHeader ''Content-Type'' ''text/html; charset=utf-8'', WriteHeader 200,
       WriteBody (fst (execute_template env ?rows))]" for om og oc pub
    unfolding mem_handler_eq
    by (simp add: ListMetrics_def MetricService_GetAllMetrics_def mem_queries rows_any_order [OF assms]
        StatusOK_def split: prod.split option.split)
qed

theorem dashboard_deterministic_witness:
  "let s = empty_state\<lparr>store := snd (MemStorage_UpdateBatch NewMemStorage [gauge_metric ''b'' 0, gauge_metric ''a'' 0])\<rparr>
   in fst (ListMetrics rev sample_env (mem_handler rev id None) (sample_request []) s) =
      [SetHeader ''Content-Type'' ''text/html; charset=utf-8'', WriteHeader 200, WriteBody ''ab''] \<and>
      fst (ListMetrics id sample_env (mem_handler id id None) (sample_request []) s) =
      fst (ListMetrics rev sample_env (mem_handler rev id None) (sample_request []) s)"
proof -
  let ?s = "empty_state\<lparr>store := snd (MemStorage_UpdateBatch NewMemStorage [gauge_metric ''b'' 0, gauge_metric ''a'' 0])\<rparr>"
  have ok: "mem_ok (store ?s)" by code_simp
  have "fst (ListMetrics rev sample_env (mem_handler rev id None) (sample_request []) ?s) =
      [SetHeader ''Content-Type'' ''text/html; charset=utf-8'', WriteHeader 200, WriteBody ''ab'']"
    by code_simp
  moreover obtain rows where r: "\<And>om og oc pub. fst (ListMetrics om sample_env (mem_handler og oc pub) (sample_request []) ?s) =
      [SetHeader ''Content-Type'' ''text/html; charset=utf-8'', WriteHeader 200,
        WriteBody (fst (execute_template sample_env rows))]"
    using dashboard_deterministic [OF ok, of sample_env "sample_request []"] by blast
  ultimately show ?thesis unfolding Let_def by (auto simp only: r)
qed



text \<open>
  C22. A gauge that is not a number is answered with an empty body (handler.go GetValueJSON): the
  endpoint has already sent status 200 and the JSON content type when the encoder fails, so
  the client gets 200 and no JSON; only the log tells.
\<close>

theorem nan_value_empty_body:
  assumes "mem_ok (store s)" and "Option.bind (Decoder_value (Body r)) decode_metric = Some q" and "ID q \<noteq> []"
    and "MType q = model_Gauge" and "gauge_of (mem_view (store s)) (ID q) = Some v" and "\<not> f64_finite v"
  shows "\<exists>ops s'. GetValueJSON env (mem_handler og oc pub) r s = (ops, s') \<and>
    resp_status (respond ops) = 200 \<and> resp_body (respond ops) = [] \<and> hlog s' = hlog s @ [''failed to encode response'']"
proof -
  have "json_float v = None" using assms(6) f64_trichotomy [of v] by (auto simp: json_float_def)
  then have m: "Marshal_metric (gauge_metric (ID q) v) = None" by (simp add: Marshal_metric_def metric_json_def)
  have "GetValueJSON env (mem_handler og oc pub) r s = encode_metric_response (gauge_metric (ID q) v) s"
    unfolding mem_handler_eq
    by (rule mem_h.query_endpoint [OF assms(1-3)]) (simp add: table_metric_def assms(4) assms(5) [simplified])
  then show ?thesis
    by (simp add: encode_metric_response_def Let_def m log_error_def respond_body StatusOK_def)
qed

theorem nan_value_empty_body_witness:
  "let s = empty_state\<lparr>store := \<lparr>gauges = [(''cpu'', f64_NaN)], counters = []\<rparr>\<rparr>;
       r = sample_request (the (Marshal_metric (gauge_metric ''cpu'' 0)))
   in resp_status (respond (fst (GetValueJSON sample_env (mem_handler id id None) r s))) = 200 \<and>
      resp_body (respond (fst (GetValueJSON sample_env (mem_handler id id None) r s))) = []"
proof -
  let ?s = "empty_state\<lparr>store := \<lparr>gauges = [(''cpu'', f64_NaN)], counters = []\<rparr>\<rparr>"
  let ?m = "gauge_metric ''cpu'' 0"
  have v: "utf8_valid ''cpu''" "f64_finite 0" by code_simp+
  then obtain bs where bs: "Marshal_metric ?m = Some bs" "Decode_metric (bs @ []) = Some ?m"
    using Decode_Marshal_metric [of ?m] by (metis json_safe_simps(1) number_end_Nil)
  have d: "Option.bind (Decoder_value (Body (sample_request bs))) decode_metric = Some ?m"
    using bs(2) by (simp add: sample_request_def Decoder_value_clean Decode_metric_def)
  have ok: "mem_ok (store ?s)" and g: "gauge_of (mem_view (store ?s)) (ID ?m) = Some f64_NaN"
    by (simp_all add: mem_ok_def wf_map_def map_get_def)
  have nf: "\<not> f64_finite f64_NaN" by code_simp
  show ?thesis
    using nan_value_empty_body [OF ok d _ _ g nf, where env = sample_env and og = id and oc = id and pub = None]
    unfolding Let_def bs(1) option.sel by auto
qed

end
