(* ===== verification/Hash.thy ===== *)
theory Hash
  imports Json
begin

unbundle bit_operations_syntax

section \<open>Body signatures\<close>

text \<open>
  \<^verbatim>\<open>pkg/hash/hash.go\<close>: the hexadecimal HMAC-SHA256 of a body, and the comparison of two such
  texts. SHA-256 and HMAC are written out on 32-bit words, as the standard defines them, so that
  a signature can be computed.
\<close>

subsection \<open>SHA-256\<close>

type_synonym word32 = "32 word"

definition sha_k :: "word32 list" where
  "sha_k =
     [1116352408, 1899447441, 3049323471, 3921009573, 961987163, 1508970993, 2453635748, 2870763221,
      3624381080, 310598401, 607225278, 1426881987, 1925078388, 2162078206, 2614888103, 3248222580,
      3835390401, 4022224774, 264347078, 604807628, 770255983, 1249150122, 1555081692, 1996064986,
      2554220882, 2821834349, 2952996808, 3210313671, 3336571891, 3584528711, 113926993, 338241895,
      666307205, 773529912, 1294757372, 1396182291, 1695183700, 1986661051, 2177026350, 2456956037,
      2730485921, 2820302411, 3259730800, 3345764771, 3516065817, 3600352804, 4094571909, 275423344,
      430227734, 506948616, 659060556, 883997877, 958139571, 1322822218, 1537002063, 1747873779,
      1955562222, 2024104815, 2227730452, 2361852424, 2428436474, 2756734187, 3204031479, 3329325298]"

definition sha_h0 :: "word32 list" where
  "sha_h0 =
     [1779033703, 3144134277, 1013904242, 2773480762, 1359893119, 2600822924, 528734635, 1541459225]"

definition be_bytes :: "nat \<Rightarrow> nat \<Rightarrow> bytes" where
  "be_bytes n v = map (\<lambda>i. char_of (v div 256 ^ (n - 1 - i))) [0..<n]"

definition sha_pad :: "bytes \<Rightarrow> bytes" where
  "sha_pad bs =
     bs @ [CHR 0x80] @ replicate ((119 - length bs mod 64) mod 64) (CHR 0x00) @
     be_bytes 8 (8 * length bs mod 2 ^ 64)"

fun be_words :: "bytes \<Rightarrow> word32 list" where
  "be_words (a # b # c # d # r) =
     of_nat (((ord a * 256 + ord b) * 256 + ord c) * 256 + ord d) # be_words r"
| "be_words _ = []"

fun sha_schedule :: "nat \<Rightarrow> word32 list \<Rightarrow> word32 list" where
  "sha_schedule 0 ws = rev ws"
| "sha_schedule (Suc n) ws =
     (let x = ws ! 14; y = ws ! 1;
          s0 = word_rotr 7 x XOR word_rotr 18 x XOR drop_bit 3 x;
          s1 = word_rotr 17 y XOR word_rotr 19 y XOR drop_bit 10 y
      in sha_schedule n ((s1 + ws ! 6 + s0 + ws ! 15) # ws))"

fun sha_round :: "word32 list \<Rightarrow> word32 \<times> word32 \<Rightarrow> word32 list" where
  "sha_round [a, b, c, d, e, f, g, h] (k, w) =
     (let s1 = word_rotr 6 e XOR word_rotr 11 e XOR word_rotr 25 e;
          ch = (e AND f) XOR (NOT e AND g);
          t1 = h + s1 + ch + k + w;
          s0 = word_rotr 2 a XOR word_rotr 13 a XOR word_rotr 22 a;
          maj = (a AND b) XOR (a AND c) XOR (b AND c)
      in [t1 + s0 + maj, a, b, c, d + t1, e, f, g])"
| "sha_round st _ = st"

definition sha_block :: "word32 list \<Rightarrow> word32 list \<Rightarrow> word32 list" where
  "sha_block hs ws = map2 (+) hs (foldl sha_round hs (zip sha_k (sha_schedule 48 (rev ws))))"

function sha_blocks :: "word32 list \<Rightarrow> word32 list \<Rightarrow> word32 list" where
  "sha_blocks hs ws = (if ws = [] then hs else sha_blocks (sha_block hs (take 16 ws)) (drop 16 ws))"
  by pat_completeness auto
termination
  by (relation "measure (\<lambda>(hs, ws). length ws)") auto

declare sha_blocks.simps [simp del]

definition sha256 :: "bytes \<Rightarrow> bytes" where
  "sha256 bs = concat (map (\<lambda>w. be_bytes 4 (unat w)) (sha_blocks sha_h0 (be_words (sha_pad bs))))"

subsection \<open>HMAC and hexadecimal text\<close>

definition hmac_key :: "bytes \<Rightarrow> bytes" where
  "hmac_key key =
     (let k = (if 64 < length key then sha256 key else key)
      in k @ replicate (64 - length k) (CHR 0x00))"

definition xor_pad :: "nat \<Rightarrow> bytes \<Rightarrow> bytes" where
  "xor_pad p k = map (\<lambda>c. char_of (ord c XOR p)) k"

definition hmac_sha256 :: "bytes \<Rightarrow> bytes \<Rightarrow> bytes" where
  "hmac_sha256 key body =
     sha256 (xor_pad 0x5c (hmac_key key) @ sha256 (xor_pad 0x36 (hmac_key key) @ body))"

definition EncodeToString :: "bytes \<Rightarrow> string" where
  "EncodeToString bs = concat (map (\<lambda>c. [hex_digit (ord c div 16), hex_digit (ord c mod 16)]) bs)"

fun DecodeString :: "string \<Rightarrow> bytes option" where
  "DecodeString [] = Some []"
| "DecodeString [c] = None"
| "DecodeString (a # b # r) =
     (case (hex_value a, hex_value b) of
        (Some x, Some y) \<Rightarrow> map_option (\<lambda>bs. char_of (x * 16 + y) # bs) (DecodeString r)
      | _ \<Rightarrow> None)"

subsection \<open>pkg/hash/hash.go\<close>

definition Sign :: "bytes \<Rightarrow> string \<Rightarrow> string" where
  "Sign body key = EncodeToString (hmac_sha256 key body)"

definition Equal :: "string \<Rightarrow> string \<Rightarrow> bool" where
  "Equal a b =
     (case (DecodeString a, DecodeString b) of
        (Some x, Some y) \<Rightarrow> x = y
      | _ \<Rightarrow> False)"

subsection \<open>Comparing signatures\<close>

lemma ord_hex_digit: "d < 16 \<Longrightarrow> ord (hex_digit d) = (if d < 10 then 48 + d else 87 + d)"
proof -
  assume "d < 16"
  then have "d \<in> {0, 1, 2, 3, 4, 5, 6, 7, 8, 9, 10, 11, 12, 13, 14, 15}" by (simp; presburger)
  then show ?thesis by (auto simp: hex_digit_def)
qed

lemma ord_lower: "ord (lower c) = (if 65 \<le> ord c \<and> ord c \<le> 90 then ord c + 32 else ord c)"
  by (simp add: lower_def)

lemma hex_value_ord:
  "hex_value c = (let n = ord (lower c) in
     if 48 \<le> n \<and> n \<le> 57 then Some (n - 48) else if 97 \<le> n \<and> n \<le> 102 then Some (n - 87) else None)"
  by (auto simp: hex_value_def is_digit_def digit_val_def is_hex_letter_def hex_letter_val_def ord_lower Let_def)

lemma hex_value_lower: "hex_value c = Some d \<longleftrightarrow> d < 16 \<and> lower c = hex_digit d"
proof
  assume h: "hex_value c = Some d"
  then have d: "d < 16" by (auto simp: hex_value_ord Let_def split: if_splits)
  then have "ord (lower c) = ord (hex_digit d)"
    using h by (auto simp: ord_hex_digit hex_value_ord Let_def split: if_splits)
  then show "d < 16 \<and> lower c = hex_digit d" using d by simp
next
  assume "d < 16 \<and> lower c = hex_digit d"
  then show "hex_value c = Some d" by (auto simp: hex_value_ord Let_def ord_hex_digit)
qed

lemma EncodeToString_simps [simp]:
  "EncodeToString [] = []"
  "EncodeToString (c # bs) = hex_digit (ord c div 16) # hex_digit (ord c mod 16) # EncodeToString bs"
  by (simp_all add: EncodeToString_def)

text \<open>A text decodes to given bytes exactly when it is their hexadecimal text in any letter case.\<close>

lemma DecodeString_iff: "DecodeString a = Some bs \<longleftrightarrow> map lower a = EncodeToString bs"
proof (induction a arbitrary: bs rule: DecodeString.induct)
  case 1
  then show ?case by (cases bs) auto
next
  case (2 c)
  then show ?case by (cases bs) auto
next
  case (3 a b r)
  show ?case
  proof (cases bs)
    case Nil
    then show ?thesis by (auto split: option.splits)
  next
    case (Cons c cs)
    have IH: "DecodeString r = Some cs \<longleftrightarrow> map lower r = EncodeToString cs"
      if "hex_value a = Some x" "hex_value b = Some y" for x y
      using 3 [of "hex_value a" "hex_value b" x y] that by simp
    have "ord c < 256" by (rule nat_of_char_less_256)
    then have d: "ord c div 16 < 16" "ord c mod 16 < 16" by (simp_all add: less_mult_imp_div_less)
    have "DecodeString (a # b # r) = Some bs \<longleftrightarrow>
        (\<exists>x y. hex_value a = Some x \<and> hex_value b = Some y \<and> char_of (x * 16 + y) = c \<and> DecodeString r = Some cs)"
      using Cons by (auto split: option.splits)
    also have "\<dots> \<longleftrightarrow> lower a = hex_digit (ord c div 16) \<and> lower b = hex_digit (ord c mod 16) \<and> DecodeString r = Some cs"
    proof
      assume "\<exists>x y. hex_value a = Some x \<and> hex_value b = Some y \<and> char_of (x * 16 + y) = c \<and> DecodeString r = Some cs"
      then obtain x y where xy: "hex_value a = Some x" "hex_value b = Some y" "char_of (x * 16 + y) = c"
        "DecodeString r = Some cs" by blast
      then have l: "x < 16" "y < 16" "lower a = hex_digit x" "lower b = hex_digit y" by (simp_all add: hex_value_lower)
      then have "ord c = x * 16 + y" using xy(3) by auto
      then show "lower a = hex_digit (ord c div 16) \<and> lower b = hex_digit (ord c mod 16) \<and> DecodeString r = Some cs"
        using l xy(4) by simp
    next
      assume "lower a = hex_digit (ord c div 16) \<and> lower b = hex_digit (ord c mod 16) \<and> DecodeString r = Some cs"
      then show "\<exists>x y. hex_value a = Some x \<and> hex_value b = Some y \<and> char_of (x * 16 + y) = c \<and> DecodeString r = Some cs"
        using d by (intro exI [of _ "ord c div 16"] exI [of _ "ord c mod 16"]) (simp add: hex_value_lower)
    qed
    also have "\<dots> \<longleftrightarrow> map lower (a # b # r) = EncodeToString bs"
      using IH [of "ord c div 16" "ord c mod 16"] d Cons by (auto simp: hex_value_lower)
    finally show ?thesis .
  qed
qed

lemma lower_hex_digit: "d < 16 \<Longrightarrow> lower (hex_digit d) = hex_digit d"
  using hex_value_digit [of d] hex_value_lower [of "hex_digit d" d] by simp

lemma lower_EncodeToString: "map lower (EncodeToString bs) = EncodeToString bs"
proof (induction bs)
  case (Cons c bs)
  have "ord c < 256" by (rule nat_of_char_less_256)
  then show ?case using Cons by (simp add: lower_hex_digit less_mult_imp_div_less)
qed simp

lemma length_EncodeToString: "length (EncodeToString bs) = 2 * length bs"
  by (induction bs) simp_all

lemma EncodeToString_inject: "EncodeToString x = EncodeToString y \<longleftrightarrow> x = y"
  by (metis DecodeString_iff lower_EncodeToString option.inject)

lemma Equal_Sign_iff: "Equal a (Sign body key) \<longleftrightarrow> map lower a = Sign body key"
proof -
  have "DecodeString (Sign body key) = Some (hmac_sha256 key body)"
    by (simp add: Sign_def DecodeString_iff lower_EncodeToString)
  then have "Equal a (Sign body key) \<longleftrightarrow> DecodeString a = Some (hmac_sha256 key body)"
    by (auto simp: Equal_def split: option.split)
  then show ?thesis by (simp add: DecodeString_iff Sign_def)
qed

lemma Equal_Sign [simp]: "Equal (Sign body key) (Sign body key)"
  by (simp add: Equal_Sign_iff) (simp add: Sign_def lower_EncodeToString)


end
