(* ===== verification/Crypto.thy ===== *)
theory Crypto
  imports Hash
begin

section \<open>Encrypted bodies\<close>

text \<open>
  \<^verbatim>\<open>pkg/crypto\<close>: the hybrid envelope (a fresh AES-256-GCM key wrapped with RSA-OAEP) and the
  loading of keys. The primitives are parameters: RSA-OAEP, AES-GCM, the random source, the PEM
  and X.509 parsers. The layout of the envelope and every length check are the program's.
\<close>

record ('pub, 'priv) crypto_lib =
  EncryptOAEP :: "'pub \<Rightarrow> bytes \<Rightarrow> bytes \<Rightarrow> error + bytes"
  DecryptOAEP :: "'priv \<Rightarrow> bytes \<Rightarrow> error + bytes"
  gcm_Seal :: "bytes \<Rightarrow> bytes \<Rightarrow> bytes \<Rightarrow> bytes"
  gcm_Open :: "bytes \<Rightarrow> bytes \<Rightarrow> bytes \<Rightarrow> error + bytes"

text \<open>What the random source gives to one call of \<^verbatim>\<open>Encrypt\<close>: key, nonce and OAEP seed.\<close>

record randomness =
  r_key :: "error + bytes"
  r_nonce :: "error + bytes"
  r_seed :: bytes

definition wrappedLenBytes :: nat where "wrappedLenBytes = 2"
definition aesKeyBytes :: nat where "aesKeyBytes = 32"
definition NonceSize :: nat where "NonceSize = 12"

text \<open>\<^verbatim>\<open>aes.NewCipher\<close> accepts keys of 16, 24 and 32 bytes; \<^verbatim>\<open>cipher.NewGCM\<close> accepts every AES block.\<close>

definition aes_key_ok :: "bytes \<Rightarrow> bool" where
  "aes_key_ok k = (length k \<in> {16, 24, 32})"

definition PutUint16 :: "nat \<Rightarrow> bytes" where
  "PutUint16 v = [char_of (v div 256), char_of (v mod 256)]"

definition Uint16 :: "bytes \<Rightarrow> nat" where
  "Uint16 bs = (case bs of a # b # _ \<Rightarrow> ord a * 256 + ord b | _ \<Rightarrow> 0)"

definition Encrypt ::
    "('pub, 'priv) crypto_lib \<Rightarrow> 'pub \<Rightarrow> randomness \<Rightarrow> bytes \<Rightarrow> error + bytes" where
  "Encrypt lib pub rnd plaintext =
     (case r_key rnd of
        Inl err \<Rightarrow> Inl (Wrapf ''rand aes key: %w'' [] err)
      | Inr aesKey \<Rightarrow>
          if \<not> aes_key_ok aesKey then Inl (Wrapf ''aes new cipher: %w'' [] (Opaque ''crypto/aes: invalid key size''))
          else case r_nonce rnd of
                 Inl err \<Rightarrow> Inl (Wrapf ''rand nonce: %w'' [] err)
               | Inr nonce \<Rightarrow>
                   let ciphertext = gcm_Seal lib aesKey nonce plaintext
                   in case EncryptOAEP lib pub (r_seed rnd) aesKey of
                        Inl err \<Rightarrow> Inl (Wrapf ''rsa wrap: %w'' [] err)
                      | Inr wrapped \<Rightarrow>
                          if 0xFFFF < length wrapped then Inl (Opaque ''wrapped key too large'')
                          else Inr (PutUint16 (length wrapped) @ wrapped @ nonce @ ciphertext))"

definition Decrypt :: "('pub, 'priv) crypto_lib \<Rightarrow> 'priv \<Rightarrow> bytes \<Rightarrow> error + bytes" where
  "Decrypt lib priv envelope =
     (if length envelope < wrappedLenBytes then Inl (Opaque ''envelope too short'')
      else let keyLen = Uint16 (take wrappedLenBytes envelope)
           in if length envelope < wrappedLenBytes + keyLen then Inl (Opaque ''envelope truncated (wrapped key)'')
              else case DecryptOAEP lib priv (take keyLen (drop wrappedLenBytes envelope)) of
                     Inl err \<Rightarrow> Inl (Wrapf ''rsa unwrap: %w'' [] err)
                   | Inr aesKey \<Rightarrow>
                       if \<not> aes_key_ok aesKey
                       then Inl (Wrapf ''aes new cipher: %w'' [] (Opaque ''crypto/aes: invalid key size''))
                       else if length envelope < wrappedLenBytes + keyLen + NonceSize
                       then Inl (Opaque ''envelope truncated (nonce)'')
                       else let nonce = take NonceSize (drop (wrappedLenBytes + keyLen) envelope);
                                ciphertext = drop (wrappedLenBytes + keyLen + NonceSize) envelope
                            in case gcm_Open lib aesKey nonce ciphertext of
                                 Inl err \<Rightarrow> Inl (Wrapf ''aes-gcm open: %w'' [] err)
                               | Inr plaintext \<Rightarrow> Inr plaintext)"

subsection \<open>Loading keys\<close>

text \<open>
  A parsed key is an RSA key or one of another kind. The parsers are parameters: \<open>pem\<close> gives
  the bytes of the first PEM block.
\<close>

datatype 'k parsed_key = RSA_key 'k | Other_key

definition LoadPublicKey ::
    "(string \<Rightarrow> error + bytes) \<Rightarrow> (bytes \<Rightarrow> bytes option) \<Rightarrow> (bytes \<Rightarrow> 'k parsed_key option) \<Rightarrow>
     (bytes \<Rightarrow> 'k option) \<Rightarrow> string \<Rightarrow> error + 'k" where
  "LoadPublicKey readFile pem parsePKIX parsePKCS1 p =
     (case readFile p of
        Inl err \<Rightarrow> Inl (Wrapf ''read public key %q: %w'' [p] err)
      | Inr data \<Rightarrow>
          (case pem data of
             None \<Rightarrow> Inl (Opaque ''no PEM block'')
           | Some block \<Rightarrow>
               (case parsePKIX block of
                  Some (RSA_key k) \<Rightarrow> Inr k
                | Some Other_key \<Rightarrow> Inl (Opaque ''not an RSA public key'')
                | None \<Rightarrow>
                    (case parsePKCS1 block of
                       Some k \<Rightarrow> Inr k
                     | None \<Rightarrow> Inl (Opaque ''parse public key: unsupported format'')))))"

definition LoadPrivateKey ::
    "(string \<Rightarrow> error + bytes) \<Rightarrow> (bytes \<Rightarrow> bytes option) \<Rightarrow> (bytes \<Rightarrow> 'k option) \<Rightarrow>
     (bytes \<Rightarrow> 'k parsed_key option) \<Rightarrow> string \<Rightarrow> error + 'k" where
  "LoadPrivateKey readFile pem parsePKCS1 parsePKCS8 p =
     (case readFile p of
        Inl err \<Rightarrow> Inl (Wrapf ''read private key %q: %w'' [p] err)
      | Inr data \<Rightarrow>
          (case pem data of
             None \<Rightarrow> Inl (Opaque ''no PEM block'')
           | Some block \<Rightarrow>
               (case parsePKCS1 block of
                  Some k \<Rightarrow> Inr k
                | None \<Rightarrow>
                    (case parsePKCS8 block of
                       Some (RSA_key k) \<Rightarrow> Inr k
                     | Some Other_key \<Rightarrow> Inl (Opaque ''not an RSA private key'')
                     | None \<Rightarrow> Inl (Opaque ''parse private key: unsupported format'')))))"

subsection \<open>Decryption reverses encryption\<close>

text \<open>
  What is relied on: the two keys are a pair, GCM opens what it sealed, and the random source
  fills the buffers it is given.
\<close>

definition key_pair :: "('pub, 'priv) crypto_lib \<Rightarrow> 'pub \<Rightarrow> 'priv \<Rightarrow> bool" where
  "key_pair lib pub priv \<longleftrightarrow>
     (\<forall>seed k w. EncryptOAEP lib pub seed k = Inr w \<longrightarrow> DecryptOAEP lib priv w = Inr k)"

definition gcm_opens :: "('pub, 'priv) crypto_lib \<Rightarrow> bool" where
  "gcm_opens lib \<longleftrightarrow> (\<forall>k n p. gcm_Open lib k n (gcm_Seal lib k n p) = Inr p)"

definition fills :: "randomness \<Rightarrow> bool" where
  "fills rnd \<longleftrightarrow> (\<forall>n. r_nonce rnd = Inr n \<longrightarrow> length n = NonceSize)"

lemma Uint16_Put: "v \<le> 0xFFFF \<Longrightarrow> Uint16 (PutUint16 v) = v"
  by (simp add: Uint16_def PutUint16_def less_mult_imp_div_less)

lemma Decrypt_envelope:
  assumes "length wrapped \<le> 0xFFFF" and "length nonce = NonceSize" and "DecryptOAEP lib priv wrapped = Inr k"
    and "aes_key_ok k" and "gcm_Open lib k nonce ct = Inr p"
  shows "Decrypt lib priv (PutUint16 (length wrapped) @ wrapped @ nonce @ ct) = Inr p"
proof -
  have l: "length (PutUint16 (length wrapped)) = wrappedLenBytes" by (simp add: PutUint16_def wrappedLenBytes_def)
  then have t: "take wrappedLenBytes (PutUint16 (length wrapped) @ r) = PutUint16 (length wrapped)"
    "drop wrappedLenBytes (PutUint16 (length wrapped) @ r) = r"
    "drop (wrappedLenBytes + j) (PutUint16 (length wrapped) @ r) = drop j r" for r j
    by simp_all
  show ?thesis
    using assms by (simp add: Decrypt_def Let_def t l Uint16_Put add.assoc)
qed

lemma Decrypt_Encrypt:
  assumes "key_pair lib pub priv" and "gcm_opens lib" and "fills rnd" and "Encrypt lib pub rnd p = Inr env"
  shows "Decrypt lib priv env = Inr p"
proof -
  obtain k n w where "aes_key_ok k" "r_nonce rnd = Inr n" "EncryptOAEP lib pub (r_seed rnd) k = Inr w"
    "\<not> 0xFFFF < length w" "env = PutUint16 (length w) @ w @ n @ gcm_Seal lib k n p"
    using assms(4) by (auto simp: Encrypt_def Let_def split: sum.splits if_splits)
  then show ?thesis
    using assms(1-3) by (auto simp: key_pair_def gcm_opens_def fills_def intro!: Decrypt_envelope)
qed

text \<open>
  C25. Envelope round trip (pkg/crypto/cipher.go Encrypt and Decrypt): when the private key
  belongs to the public key, whatever \<^verbatim>\<open>Encrypt\<close> returns for a body, \<^verbatim>\<open>Decrypt\<close> turns back into
  that body, for every length of the wrapped key up to 65535 and every plaintext, empty or
  not.
\<close>

theorem envelope_roundtrip:
  assumes "key_pair lib pub priv" and "gcm_opens lib" and "fills rnd" and "Encrypt lib pub rnd p = Inr env"
  shows "Decrypt lib priv env = Inr p"
  using Decrypt_Encrypt [OF assms] .

text \<open>A library of the examples: the wrapped key and the sealed text are the plain ones.\<close>

definition plain_lib :: "(unit, unit) crypto_lib" where
  "plain_lib =
     \<lparr>EncryptOAEP = (\<lambda>_ seed k. if length k = 32 then Inr (k @ seed) else Inl (Opaque ''message too long'')), DecryptOAEP = (\<lambda>_ w. Inr (take 32 w)),
      gcm_Seal = (\<lambda>k n p. n @ p), gcm_Open = (\<lambda>k n c. if take (length n) c = n then Inr (drop (length n) c)
        else Inl (Opaque ''cipher: message authentication failed''))\<rparr>"

definition plain_rnd :: randomness where
  "plain_rnd = \<lparr>r_key = Inr (replicate 32 (CHR ''k'')), r_nonce = Inr (replicate 12 (CHR ''n'')), r_seed = ''s''\<rparr>"

lemma plain_lib_facts: "key_pair plain_lib () ()" "gcm_opens plain_lib" "fills plain_rnd"
  by (auto simp: key_pair_def gcm_opens_def fills_def plain_lib_def plain_rnd_def NonceSize_def split: if_splits)

lemma plain_Encrypt:
  "Encrypt plain_lib () plain_rnd p =
     Inr (PutUint16 33 @ (replicate 32 (CHR ''k'') @ ''s'') @ replicate 12 (CHR ''n'') @ replicate 12 (CHR ''n'') @ p)"
  by (simp add: Encrypt_def plain_lib_def plain_rnd_def aes_key_ok_def)

theorem envelope_roundtrip_witness:
  "\<exists>env. Encrypt plain_lib () plain_rnd ''metrics'' = Inr env \<and> Decrypt plain_lib () env = Inr ''metrics''"
  using envelope_roundtrip [OF plain_lib_facts plain_Encrypt] plain_Encrypt by blast

end
