(* ===== verification/Middleware.thy ===== *)
theory Middleware
  imports Handler Crypto
begin

section \<open>The middleware chain\<close>

text \<open>
  \<^verbatim>\<open>internal/middleware\<close> and the router of \<^verbatim>\<open>cmd/server/main.go\<close>. A middleware that wraps the
  response writer is a function on the operations that reach the wrapper. gzip and the
  decryption of a body are parameters.
\<close>

type_synonym 's middleware = "'s hstate handler \<Rightarrow> 's hstate handler"

subsection \<open>logger.go\<close>

text \<open>
  The wrapper remembers the status of the last \<^verbatim>\<open>WriteHeader\<close> (200 before the first) and the
  number of bytes written, and passes every call on.
\<close>

fun logger_status :: "nat \<Rightarrow> wop list \<Rightarrow> nat" where
  "logger_status st [] = st"
| "logger_status st (WriteHeader c # ops) = logger_status c ops"
| "logger_status st (op # ops) = logger_status st ops"

definition Logger :: "'s middleware" where
  "Logger next r s =
     (case next r s of
        (ops, s') \<Rightarrow>
          (ops, s'\<lparr>access := access s' @ [(RequestURI r, Method r, logger_status StatusOK ops, length (ops_body ops))]\<rparr>))"

subsection \<open>gzip.go\<close>

text \<open>
  \<open>gunzip\<close> opens a body as a gzip stream: \<open>None\<close> when its header is bad, else what can be read
  from it and the error it ends with. \<open>gzip_stream\<close> is the compressed stream for a sequence of
  writes; creating the writer cannot fail with the level the program uses.
\<close>

record gzip_lib =
  gunzip :: "body \<Rightarrow> body option"
  gzip_stream :: "bytes list \<Rightarrow> bytes"

text \<open>
  The wrapper compresses what is written to it: the writer below sees a write at the same
  moment, and after the handler the rest of the stream. All bytes are accounted to that last
  write.
\<close>

fun op_written :: "wop \<Rightarrow> bytes list" where
  "op_written (WriteBody b) = [b]"
| "op_written _ = []"

definition gzip_ops :: "gzip_lib \<Rightarrow> wop list \<Rightarrow> wop list" where
  "gzip_ops lib ops =
     map (\<lambda>op. case op of WriteBody b \<Rightarrow> WriteBody [] | _ \<Rightarrow> op) ops @
     [WriteBody (gzip_stream lib (concat (map op_written ops)))]"

definition GzipMiddleware :: "gzip_lib \<Rightarrow> 's middleware" where
  "GzipMiddleware lib next r s =
     (case (if Header_Get (Header r) ''Content-Encoding'' = ''gzip''
            then map_option (\<lambda>b. r\<lparr>Body := b\<rparr>) (gunzip lib (Body r)) else Some r) of
        None \<Rightarrow> (http_Error ''failed to decompress request body'' StatusBadRequest, s)
      | Some r' \<Rightarrow>
          if \<not> strings_Contains (Header_Get (Header r') ''Accept-Encoding'') ''gzip'' then next r' s
          else case next r' s of
                 (ops, s') \<Rightarrow>
                   ([SetHeader ''Content-Encoding'' ''gzip'', DelHeader ''Content-Length''] @ gzip_ops lib ops, s'))"

subsection \<open>hash.go\<close>

text \<open>The wrapper keeps status and body back; header operations reach the writer below at once.\<close>

fun hash_writer :: "wop list \<Rightarrow> nat \<Rightarrow> bytes \<Rightarrow> wop list \<times> nat \<times> bytes" where
  "hash_writer [] st buf = ([], st, buf)"
| "hash_writer (WriteHeader c # ops) st buf = hash_writer ops c buf"
| "hash_writer (WriteBody b # ops) st buf = hash_writer ops st (buf @ b)"
| "hash_writer (op # ops) st buf =
     (case hash_writer ops st buf of (hs, st', buf') \<Rightarrow> (op # hs, st', buf'))"

definition hash_flush :: "string \<Rightarrow> nat \<Rightarrow> bytes \<Rightarrow> wop list" where
  "hash_flush key st body =
     (if key \<noteq> [] then [SetHeader HeaderHashSHA256 (Sign body key)] else []) @
     (if st \<noteq> 0 then [WriteHeader st] else []) @ [WriteBody body]"

definition HashMiddleware :: "string \<Rightarrow> 's middleware option" where
  "HashMiddleware key =
     (if key = [] then None
      else Some (\<lambda>next r s.
        (case ReadAll (Body r) of
           Inl err \<Rightarrow>
             (http_Error (StatusText StatusInternalServerError) StatusInternalServerError,
              log_error ''failed to read request body'' s)
         | Inr body \<Rightarrow>
             let r' = r\<lparr>Body := (body, None)\<rparr>; incoming = Header_Get (Header r') HeaderHashSHA256
             in if incoming \<noteq> [] \<and> \<not> Equal incoming (Sign body key)
                then (http_Error (StatusText StatusBadRequest) StatusBadRequest, s)
                else (case next r' s of
                        (ops, s') \<Rightarrow>
                          (case hash_writer ops StatusOK [] of
                             (hs, st, buf) \<Rightarrow> (hs @ hash_flush key st buf, s'))))))"

subsection \<open>crypto.go\<close>

definition CryptoMiddleware :: "(bytes \<Rightarrow> error + bytes) option \<Rightarrow> 's middleware option" where
  "CryptoMiddleware priv =
     (case priv of
        None \<Rightarrow> None
      | Some decrypt \<Rightarrow>
          Some (\<lambda>next r s.
            (if Header_Get (Header r) HeaderCryptoEncrypted = [] then next r s
             else case ReadAll (Body r) of
                    Inl err \<Rightarrow>
                      (http_Error (StatusText StatusBadRequest) StatusBadRequest, log_error ''crypto: read body'' s)
                  | Inr envelope \<Rightarrow>
                      (case decrypt envelope of
                         Inl err \<Rightarrow>
                           (http_Error (StatusText StatusBadRequest) StatusBadRequest, log_error ''crypto: decrypt'' s)
                       | Inr plaintext \<Rightarrow>
                           next (r\<lparr>Body := (plaintext, None),
                                   Header := Header_Del (Header r) HeaderCryptoEncrypted\<rparr>) s))))"

subsection \<open>trusted\_subnet.go\<close>

definition TrustedSubnetMiddleware :: "string \<Rightarrow> error + 's middleware option" where
  "TrustedSubnetMiddleware cidr =
     (if cidr = [] then Inr None
      else case ParseCIDR cidr of
             None \<Rightarrow> Inl (Wrapf ''trusted_subnet: invalid CIDR %q: %w'' [cidr] (Opaque ''invalid CIDR address''))
           | Some network \<Rightarrow>
               Inr (Some (\<lambda>next r s.
                 (case ParseIP (Header_Get (Header r) HeaderXRealIP) of
                    Some addr \<Rightarrow>
                      if IPNet_Contains network addr then next r s
                      else (http_Error (StatusText StatusForbidden) StatusForbidden,
                            log_error ''rejected request from untrusted subnet'' s)
                  | None \<Rightarrow>
                      (http_Error (StatusText StatusForbidden) StatusForbidden,
                       log_error ''rejected request from untrusted subnet'' s)))))"

subsection \<open>newRouter\<close>

text \<open>
  The chain in the order of the \<^verbatim>\<open>Use\<close> calls, the first outermost. \<open>mux\<close> is the mounted
  sub-router; chi's \<^verbatim>\<open>Recoverer\<close> passes every call on that does not panic.
\<close>

definition use :: "'s middleware option \<Rightarrow> 's middleware" where
  "use m next = (case m of None \<Rightarrow> next | Some f \<Rightarrow> f next)"

definition newRouter ::
    "gzip_lib \<Rightarrow> string \<Rightarrow> (bytes \<Rightarrow> error + bytes) option \<Rightarrow> 's middleware option \<Rightarrow> 's hstate handler \<Rightarrow>
     's hstate handler" where
  "newRouter lib key priv subnet mux =
     Logger (use subnet (use (CryptoMiddleware priv) (GzipMiddleware lib (use (HashMiddleware key) mux))))"

subsection \<open>What the guards let through\<close>

fun header_op :: "wop \<Rightarrow> bool" where
  "header_op (WriteHeader c) = False"
| "header_op (WriteBody b) = False"
| "header_op op = True"

lemma hash_writer_spec:
  "hash_writer ops st buf = (hs, st', buf') \<Longrightarrow> list_all header_op hs \<and> buf' = buf @ ops_body ops"
  by (induction ops st buf arbitrary: hs rule: hash_writer.induct)
    (auto simp: ops_body_def split: prod.splits)

lemma header_ops_only:
  "list_all header_op hs \<Longrightarrow>
     committed (foldl write_op w hs) = committed w \<and> sent_body (foldl write_op w hs) = sent_body w"
proof (induction hs arbitrary: w)
  case (Cons op hs)
  then show ?case by (cases op) auto
qed simp

text \<open>Behind the wrapper the body is unchanged and carries its signature.\<close>

lemma respond_hash_flush:
  assumes "list_all header_op hs" and "key \<noteq> []"
  shows "resp_body (respond (hs @ hash_flush key st buf)) = buf"
    and "Header_Get (resp_header (respond (hs @ hash_flush key st buf))) HeaderHashSHA256 = Sign buf key"
  using header_ops_only [OF assms(1), of new_writer] assms(2)
  by (simp_all add: respond_def hash_flush_def finish_def new_writer_def)

text \<open>
  C27. The signature guard (middleware/hash.go with pkg/hash): with a key configured and a body
  that can be read, a request whose \<^verbatim>\<open>HashSHA256\<close> header is not the signature of that body
  (in either letter case) is answered with status 400, and neither the handler nor any state is
  touched. Every other request, one without the header included, runs the handler on the same body,
  and the answer has the handler's body and a header with that body's signature.
\<close>

theorem hash_guard:
  assumes "HashMiddleware key = Some f" and "Body r = (body, None)"
  shows "if Header_Get (Header r) HeaderHashSHA256 \<noteq> [] \<and>
            map lower (Header_Get (Header r) HeaderHashSHA256) \<noteq> Sign body key
         then resp_status (respond (fst (f next r s))) = 400 \<and> snd (f next r s) = s
         else snd (f next r s) = snd (next r s) \<and>
           resp_body (respond (fst (f next r s))) = ops_body (fst (next r s)) \<and>
           Header_Get (resp_header (respond (fst (f next r s)))) HeaderHashSHA256 = Sign (ops_body (fst (next r s))) key"
proof -
  have key: "key \<noteq> []" using assms(1) by (auto simp: HashMiddleware_def)
  have r: "r\<lparr>Body := (body, None)\<rparr> = r" using assms(2) by simp
  obtain ops s' where n: "next r s = (ops, s')" by fastforce
  obtain hs st buf where h: "hash_writer ops StatusOK [] = (hs, st, buf)" by (metis prod_cases3)
  note spec = hash_writer_spec [OF h]
  have f: "f next r s =
      (if Header_Get (Header r) HeaderHashSHA256 \<noteq> [] \<and>
          map lower (Header_Get (Header r) HeaderHashSHA256) \<noteq> Sign body key
       then (http_Error (StatusText StatusBadRequest) StatusBadRequest, s)
       else (hs @ hash_flush key st buf, s'))"
    using assms key by (auto simp: HashMiddleware_def ReadAll_def r n h Equal_Sign_iff)
  show ?thesis
    unfolding f n using spec by (simp add: respond_status StatusBadRequest_def respond_hash_flush key)
qed

theorem hash_guard_witness:
  "let f = the (HashMiddleware ''secret'') :: MemStorage middleware;
       r = (sample_request ''[]'')\<lparr>Header := Header_Set make_map HeaderHashSHA256 ''0''\<rparr>
   in resp_status (respond (fst (f (\<lambda>_ s. ([WriteHeader 200], s)) r empty_state))) = 400"
proof -
  let ?f = "the (HashMiddleware ''secret'') :: MemStorage middleware"
  let ?r = "(sample_request ''[]'')\<lparr>Header := Header_Set make_map HeaderHashSHA256 ''0''\<rparr>"
  have f: "HashMiddleware ''secret'' = Some ?f" by (simp add: HashMiddleware_def)
  have b: "Body ?r = (''[]'', None)" by (simp add: sample_request_def)
  have h: "Header_Get (Header ?r) HeaderHashSHA256 = ''0''" by simp
  have "even (length (Sign ''[]'' ''secret''))" by (simp add: Sign_def length_EncodeToString)
  moreover have "odd (length (map lower ''0''))" by simp
  ultimately have ne: "map lower ''0'' \<noteq> Sign ''[]'' ''secret''" by metis
  show ?thesis
    using hash_guard [OF f b, of "\<lambda>_ s. ([WriteHeader 200], s)" empty_state] ne unfolding Let_def h by simp
qed

text \<open>
  C28. The trusted-subnet guard is exact (middleware/trusted\_subnet.go with net.ParseCIDR,
  net.ParseIP and IPNet.Contains): for an IPv4 block \<^verbatim>\<open>a.b.c.d/k\<close> a request is passed on exactly
  when its \<^verbatim>\<open>X-Real-IP\<close> header is the text of an IPv4 address, plain or mapped into IPv6, that
  agrees with \<^verbatim>\<open>a.b.c.d\<close> in the first \<open>k\<close> bits; a request with any other header, or none, is
  answered 403 and its handler does not run.
\<close>

theorem trusted_subnet_exact:
  assumes "TrustedSubnetMiddleware (addr @ CHR ''/'' # ms) = Inr (Some f)" and "CHR ''/'' \<notin> set addr"
    and "ParseAddr addr = Some a" and "length a = 4"
  shows "f next r s =
    (if \<exists>x v4. ParseIP (Header_Get (Header r) HeaderXRealIP) = Some x \<and> To4 x = Some v4 \<and>
          take (digits_val ms) (ip_bits v4) = take (digits_val ms) (ip_bits a)
     then next r s
     else (http_Error ''Forbidden'' 403, log_error ''rejected request from untrusted subnet'' s))"
proof -
  obtain n where n: "ParseCIDR (addr @ CHR ''/'' # ms) = Some n"
    using assms(1) by (auto simp: TrustedSubnetMiddleware_def split: option.splits)
  show ?thesis
    using assms(1) cidr_v4_contains [OF n assms(2-4)]
    by (auto simp: TrustedSubnetMiddleware_def n StatusText_def status_defs split: option.split)
qed

theorem trusted_subnet_exact_witness:
  "\<exists>f :: MemStorage middleware. TrustedSubnetMiddleware ''10.0.0.0/8'' = Inr (Some f) \<and>
     f (\<lambda>_ s. ([WriteHeader 200], s)) (sample_request []) empty_state = ([WriteHeader 200], empty_state)"
proof -
  have n: "(TrustedSubnetMiddleware ''10.0.0.0/8'' :: error + MemStorage middleware option) \<noteq> Inr None"
    by (simp add: TrustedSubnetMiddleware_def split: option.split)
  have "ParseCIDR ''10.0.0.0/8'' \<noteq> None" by code_simp
  then obtain f where f: "TrustedSubnetMiddleware (''10.0.0.0'' @ CHR ''/'' # ''8'') = Inr (Some (f :: MemStorage middleware))"
    by (auto simp: TrustedSubnetMiddleware_def)
  have a: "ParseAddr ''10.0.0.0'' = Some [10, 0, 0, 0]" by code_simp
  have x: "ParseIP ''10.0.0.7'' = Some (v4InV6Prefix @ [10, 0, 0, 7])" "To4 (v4InV6Prefix @ [10, 0, 0, 7]) = Some [10, 0, 0, 7]"
    "take (digits_val ''8'') (ip_bits [10, 0, 0, 7]) = take (digits_val ''8'') (ip_bits [10, 0, 0, 0])" by code_simp+
  have h: "Header_Get (Header (sample_request [])) HeaderXRealIP = ''10.0.0.7''" by code_simp
  have "f (\<lambda>_ s. ([WriteHeader 200], s)) (sample_request []) empty_state = ([WriteHeader 200], empty_state)"
    using trusted_subnet_exact [OF f _ a, of "\<lambda>_ s. ([WriteHeader 200], s)" "sample_request []" empty_state] x h by auto
  with f show ?thesis by auto
qed

end
