(* ===== verification/Retry.thy ===== *)
theory Retry
  imports Prelude
begin

section \<open>Bounded retries\<close>

text \<open>
  \<^verbatim>\<open>pkg/retry/retry.go\<close>, a wrapper around the third-party package \<^verbatim>\<open>retry-go\<close>, which is a
  parameter: a function of the operation, the number of attempts, the retry condition and
  the delay before a retry, on a state that also keeps the time slept.
\<close>

type_synonym 's retry_go =
  "('s \<Rightarrow> 's eff) \<Rightarrow> nat \<Rightarrow> (error \<Rightarrow> bool) \<Rightarrow> (nat \<Rightarrow> error \<Rightarrow> nat) \<Rightarrow> 's \<Rightarrow> 's eff"

text \<open>The delays in seconds.\<close>

definition delays :: "nat list" where
  "delays = [1, 3, 5]"

definition DoWithDelays :: "'s retry_go \<Rightarrow> ('s \<Rightarrow> 's eff) \<Rightarrow> (error \<Rightarrow> bool) \<Rightarrow> nat list \<Rightarrow> 's \<Rightarrow> 's eff" where
  "DoWithDelays rg fn isRetriable ivs s =
     rg fn (length ivs + 1) isRetriable (\<lambda>n _. if n < length ivs then ivs ! n else ivs ! (length ivs - 1)) s"

definition retry_Do :: "'s retry_go \<Rightarrow> ('s \<Rightarrow> 's eff) \<Rightarrow> (error \<Rightarrow> bool) \<Rightarrow> 's \<Rightarrow> 's eff" where
  "retry_Do rg fn isRetriable s = DoWithDelays rg fn isRetriable delays s"

subsection \<open>What retry-go is documented to do\<close>

text \<open>
  Run the operation; on success stop. On an error stop when it is not retriable or the
  attempts are used up, and return that error (\<^verbatim>\<open>LastErrorOnly\<close>); otherwise sleep and try
  again. \<open>i\<close> counts the attempts made; whether the delay function sees that count from 0 or
  from 1 is left open by \<open>base\<close>.
\<close>

fun retry_loop ::
    "(nat \<Rightarrow> 's \<Rightarrow> 's) \<Rightarrow> nat \<Rightarrow> ('s \<Rightarrow> 's eff) \<Rightarrow> nat \<Rightarrow> (error \<Rightarrow> bool) \<Rightarrow> (nat \<Rightarrow> error \<Rightarrow> nat) \<Rightarrow> nat \<Rightarrow> 's \<Rightarrow> 's eff" where
  "retry_loop sleep base fn 0 p d i s = (None, s)"
| "retry_loop sleep base fn (Suc n) p d i s =
     (case fn s of
        (None, s') \<Rightarrow> (None, s')
      | (Some e, s') \<Rightarrow>
          if n = 0 \<or> \<not> p e then (Some e, s')
          else retry_loop sleep base fn n p d (i + 1) (sleep (d (i + base) e) s'))"

definition retry_go_spec :: "(nat \<Rightarrow> 's \<Rightarrow> 's) \<Rightarrow> 's retry_go \<Rightarrow> bool" where
  "retry_go_spec sleep rg \<longleftrightarrow>
     (\<exists>base. \<forall>fn n p d s. 0 < n \<longrightarrow> rg fn n p d s = retry_loop sleep base fn n p d 0 s)"

text \<open>
  A trace of attempts: what each attempt returned, and the state after it. The last one is
  the result; all others were retriable errors.
\<close>

fun attempt_trace ::
    "(nat \<Rightarrow> 's \<Rightarrow> 's) \<Rightarrow> nat \<Rightarrow> ('s \<Rightarrow> 's eff) \<Rightarrow> nat \<Rightarrow> (error \<Rightarrow> bool) \<Rightarrow> (nat \<Rightarrow> error \<Rightarrow> nat) \<Rightarrow> nat \<Rightarrow> 's \<Rightarrow> 's eff list" where
  "attempt_trace sleep base fn 0 p d i s = []"
| "attempt_trace sleep base fn (Suc n) p d i s =
     (case fn s of
        (None, s') \<Rightarrow> [(None, s')]
      | (Some e, s') \<Rightarrow>
          (if n = 0 \<or> \<not> p e then [(Some e, s')]
           else (Some e, s') # attempt_trace sleep base fn n p d (i + 1) (sleep (d (i + base) e) s')))"

lemma attempt_trace_props:
  assumes "0 < n"
  shows "attempt_trace sleep base fn n p d i s \<noteq> [] \<and>
    length (attempt_trace sleep base fn n p d i s) \<le> n \<and>
    retry_loop sleep base fn n p d i s = last (attempt_trace sleep base fn n p d i s) \<and>
    (\<forall>x \<in> set (butlast (attempt_trace sleep base fn n p d i s)). \<exists>e. fst x = Some e \<and> p e) \<and>
    (fst (retry_loop sleep base fn n p d i s) = None \<or>
     (\<exists>e. fst (retry_loop sleep base fn n p d i s) = Some e \<and>
        (\<not> p e \<or> length (attempt_trace sleep base fn n p d i s) = n)))"
  using assms
proof (induction n arbitrary: i s)
  case (Suc n)
  show ?case
  proof (cases "fn s")
    case (Pair r s')
    show ?thesis
    proof (cases r)
      case None
      then show ?thesis using Pair by simp
    next
      case (Some e)
      then show ?thesis
      proof (cases "n = 0 \<or> \<not> p e")
        case False
        then show ?thesis using Pair Some Suc.IH [of "i + 1" "sleep (d (i + base) e) s'"] by auto
      qed (use Pair Some in auto)
    qed
  qed
qed simp

lemma attempt_trace_runs: "x \<in> set (attempt_trace sleep base fn n p d i s) \<Longrightarrow> \<exists>s0. x = fn s0"
proof (induction n arbitrary: i s)
  case (Suc n)
  obtain r s' where fs: "fn s = (r, s')" by fastforce
  show ?case
  proof (cases "r = None \<or> n = 0 \<or> (\<exists>e. r = Some e \<and> \<not> p e)")
    case True
    then have "x = fn s" using Suc.prems fs by (auto split: if_splits option.splits)
    then show ?thesis by blast
  next
    case False
    then obtain e where "r = Some e" by (cases r) auto
    then have "x = fn s \<or> x \<in> set (attempt_trace sleep base fn n p d (i + 1) (sleep (d (i + base) e) s'))"
      using Suc.prems fs False by auto
    then show ?thesis using Suc.IH by blast
  qed
qed simp

lemma retry_go_loop:
  assumes "retry_go_spec sleep rg"
  obtains b d where "\<And>fn p s. retry_Do rg fn p s = retry_loop sleep b fn 4 p d 0 s"
proof -
  obtain b where b: "\<And>fn n p d s. 0 < n \<Longrightarrow> rg fn n p d s = retry_loop sleep b fn n p d 0 s"
    using assms unfolding retry_go_spec_def by blast
  have four: "length delays + 1 = 4" by (simp add: delays_def)
  show ?thesis by (rule that) (unfold retry_Do_def DoWithDelays_def four, rule b, simp)
qed


text \<open>An instance of the parameter, and an operation that always times out.\<close>

definition sample_retry_go :: "'s retry_go" where
  "sample_retry_go fn n p d s = retry_loop (\<lambda>_ s. s) 0 fn n p d 0 s"

lemma sample_retry_go_spec: "retry_go_spec (\<lambda>_ s. s) sample_retry_go"
  unfolding retry_go_spec_def sample_retry_go_def by blast


end
