(* ===== verification/Sender.thy ===== *)
theory Sender
  imports Middleware Retry
begin

section \<open>The agent's HTTP sender\<close>

text \<open>
  \<^verbatim>\<open>internal/agent/sender.go\<close> and \<^verbatim>\<open>pkg/compress/gzip.go\<close>. The network is a parameter: a function
  that takes a request and the state of the world and returns a status or an error.
\<close>

subsection \<open>pkg/compress/gzip.go\<close>

text \<open>Writing to a buffer with a valid level fails nowhere.\<close>

definition GzipData :: "gzip_lib \<Rightarrow> bytes \<Rightarrow> error + bytes" where
  "GzipData lib data = Inr (gzip_stream lib [data])"

subsection \<open>The local address\<close>

datatype iface_addr = IPNet_addr ip | Other_addr

definition IsLoopback :: "ip \<Rightarrow> bool" where
  "IsLoopback a =
     (case To4 a of Some v4 \<Rightarrow> hd v4 = 127 | None \<Rightarrow> a = replicate 15 0 @ [1])"

definition v4_String :: "ip \<Rightarrow> string" where
  "v4_String a = join ''.'' (map (\<lambda>b. show_nat (unat b)) a)"

fun first_ipv4 :: "iface_addr list \<Rightarrow> string" where
  "first_ipv4 [] = []"
| "first_ipv4 (Other_addr # as) = first_ipv4 as"
| "first_ipv4 (IPNet_addr a # as) =
     (if IsLoopback a then first_ipv4 as
      else case To4 a of Some v4 \<Rightarrow> v4_String v4 | None \<Rightarrow> first_ipv4 as)"

definition detectLocalIPv4 :: "error + iface_addr list \<Rightarrow> string" where
  "detectLocalIPv4 addrs = (case addrs of Inl _ \<Rightarrow> [] | Inr as \<Rightarrow> first_ipv4 as)"

subsection \<open>The sender\<close>

record 'pub Sender =
  serverURL :: string
  skey :: string
  pubKey :: "'pub option"
  localIP :: string

definition NewSender :: "error + iface_addr list \<Rightarrow> string \<Rightarrow> string \<Rightarrow> 'pub option \<Rightarrow> 'pub Sender" where
  "NewSender addrs u key pub = \<lparr>serverURL = u, skey = key, pubKey = pub, localIP = detectLocalIPv4 addrs\<rparr>"

text \<open>
  The environment: gzip, the crypto primitives and the random values of the next call, whether
  a URL can be parsed, the network, and the fields of a request that the transport fills.
\<close>

record ('pub, 'priv, 'w) sender_env =
  gz :: gzip_lib
  clib :: "('pub, 'priv) crypto_lib"
  rand_of :: "'w \<Rightarrow> randomness"
  url_fault :: "string \<Rightarrow> error option"
  http_Do :: "request \<Rightarrow> 'w \<Rightarrow> (error + nat) \<times> 'w"
  remote_addr :: string
  server_now :: int64

text \<open>\<^verbatim>\<open>errors.As\<close> for a \<^verbatim>\<open>*url.Error\<close>: the error itself or one it wraps.\<close>

fun isRetriableHTTPError :: "error \<Rightarrow> bool" where
  "isRetriableHTTPError (UrlError timeout temporary) = (timeout \<or> temporary)"
| "isRetriableHTTPError (Wrapf _ _ e) = isRetriableHTTPError e"
| "isRetriableHTTPError _ = False"

definition request_headers :: "'pub Sender \<Rightarrow> bool \<Rightarrow> bytes \<Rightarrow> header" where
  "request_headers s encrypted body =
     (let h1 = Header_Set (Header_Set (Header_Set make_map ''Content-Type'' ''application/json'')
                 ''Content-Encoding'' ''gzip'') ''Accept-Encoding'' ''gzip'';
          h2 = (if encrypted then Header_Set h1 HeaderCryptoEncrypted ''1'' else h1);
          h3 = (if localIP s \<noteq> [] then Header_Set h2 HeaderXRealIP (localIP s) else h2)
      in if skey s \<noteq> [] then Header_Set h3 HeaderHashSHA256 (Sign body (skey s)) else h3)"

definition newRequest ::
    "('pub, 'priv, 'w) sender_env \<Rightarrow> 'pub Sender \<Rightarrow> randomness \<Rightarrow> string \<Rightarrow> bytes \<Rightarrow> error + request" where
  "newRequest env s rnd u body =
     (case GzipData (gz env) body of
        Inl err \<Rightarrow> Inl (Wrapf ''compress: %w'' [] err)
      | Inr gzb \<Rightarrow>
          (case (case pubKey s of
                   None \<Rightarrow> Inr (gzb, False)
                 | Some pub \<Rightarrow>
                     (case Encrypt (clib env) pub rnd gzb of
                        Inl err \<Rightarrow> Inl (Wrapf ''encrypt: %w'' [] err)
                      | Inr envelope \<Rightarrow> Inr (envelope, True))) of
             Inl err \<Rightarrow> Inl err
           | Inr (reqBody, encrypted) \<Rightarrow>
               (case url_fault env u of
                  Some err \<Rightarrow> Inl (Wrapf ''create request: %w'' [] err)
                | None \<Rightarrow>
                    Inr \<lparr>Method = ''POST'', RequestURI = u, Header = request_headers s encrypted body,
                         Body = (reqBody, None), RemoteAddr = remote_addr env, params = make_map,
                         now = server_now env\<rparr>)))"

definition send :: "('pub, 'priv, 'w) sender_env \<Rightarrow> 'pub Sender \<Rightarrow> Metrics \<Rightarrow> 'w \<Rightarrow> 'w eff" where
  "send env s m w =
     (case Marshal_metric m of
        None \<Rightarrow> (Some (Wrapf ''marshal metric: %w'' [] json_unsupported_value), w)
      | Some body \<Rightarrow>
          (case newRequest env s (rand_of env w) (serverURL s @ ''/update'') body of
             Inl err \<Rightarrow> (Some (Wrapf ''build request for metric %s: %w'' [ID m] err), w)
           | Inr req \<Rightarrow>
               (case http_Do env req w of
                  (Inl err, w') \<Rightarrow> (Some (Wrapf ''send metric %s: %w'' [ID m] err), w')
                | (Inr status, w') \<Rightarrow>
                    if status \<noteq> StatusOK then (Some (Opaque ''unexpected status for metric''), w') else (None, w'))))"

fun send_all :: "('pub, 'priv, 'w) sender_env \<Rightarrow> 'pub Sender \<Rightarrow> Metrics list \<Rightarrow> 'w \<Rightarrow> 'w eff" where
  "send_all env s [] w = (None, w)"
| "send_all env s (m # ms) w =
     (case send env s m w of
        (Some err, w') \<Rightarrow> (Some err, w')
      | (None, w') \<Rightarrow> send_all env s ms w')"

definition SendMetrics ::
    "'w retry_go \<Rightarrow> ('pub, 'priv, 'w) sender_env \<Rightarrow> 'pub Sender \<Rightarrow> Metrics list \<Rightarrow> 'w \<Rightarrow> 'w eff" where
  "SendMetrics rg env s metrics w = retry_Do rg (send_all env s metrics) isRetriableHTTPError w"

definition sendBatch :: "('pub, 'priv, 'w) sender_env \<Rightarrow> 'pub Sender \<Rightarrow> Metrics list \<Rightarrow> 'w \<Rightarrow> 'w eff" where
  "sendBatch env s metrics w =
     (case Marshal_metrics metrics of
        None \<Rightarrow> (Some (Wrapf ''marshal metrics: %w'' [] json_unsupported_value), w)
      | Some body \<Rightarrow>
          (case newRequest env s (rand_of env w) (serverURL s @ ''/updates/'') body of
             Inl err \<Rightarrow> (Some (Wrapf ''build batch request: %w'' [] err), w)
           | Inr req \<Rightarrow>
               (case http_Do env req w of
                  (Inl err, w') \<Rightarrow> (Some (Wrapf ''send batch: %w'' [] err), w')
                | (Inr status, w') \<Rightarrow>
                    if status \<noteq> StatusOK then (Some (Opaque ''unexpected status for batch''), w') else (None, w'))))"

definition SendBatch ::
    "'w retry_go \<Rightarrow> ('pub, 'priv, 'w) sender_env \<Rightarrow> 'pub Sender \<Rightarrow> Metrics list \<Rightarrow> 'w \<Rightarrow> 'w eff" where
  "SendBatch rg env s metrics w =
     (if metrics = [] then (None, w) else retry_Do rg (sendBatch env s metrics) isRetriableHTTPError w)"

end
