(* ===== verification/Pipeline.thy ===== *)
theory Pipeline
  imports Sender
begin

section \<open>From the agent's sender to the server's storage\<close>

text \<open>
  What the agent puts into a request, the server's middleware takes apart again: the address
  for the subnet check, the encryption, the compression, the signature. The lemmas follow the
  chain from the outside to the endpoint.
\<close>

subsection \<open>Header names\<close>

lemma canonical_names [simp]:
  "CanonicalMIMEHeaderKey ''Content-Type'' = ''Content-Type''"
  "CanonicalMIMEHeaderKey ''Content-Encoding'' = ''Content-Encoding''"
  "CanonicalMIMEHeaderKey ''Accept-Encoding'' = ''Accept-Encoding''"
  "CanonicalMIMEHeaderKey ''Content-Length'' = ''Content-Length''"
  "CanonicalMIMEHeaderKey ''X-Content-Type-Options'' = ''X-Content-Type-Options''"
  "CanonicalMIMEHeaderKey HeaderCryptoEncrypted = ''X-Crypto-Encrypted''"
  "CanonicalMIMEHeaderKey HeaderXRealIP = ''X-Real-Ip''"
  "CanonicalMIMEHeaderKey HeaderHashSHA256 = ''Hashsha256''"
  by code_simp+

lemma Header_Get_make [simp]: "Header_Get make_map k = []"
  by (simp add: Header_Get_def)

lemma request_headers_get:
  "Header_Get (request_headers s enc body) ''Content-Encoding'' = ''gzip''"
  "Header_Get (request_headers s enc body) ''Accept-Encoding'' = ''gzip''"
  "Header_Get (request_headers s enc body) HeaderCryptoEncrypted = (if enc then ''1'' else [])"
  "Header_Get (request_headers s enc body) HeaderXRealIP = localIP s"
  "Header_Get (request_headers s enc body) HeaderHashSHA256 = (if skey s \<noteq> [] then Sign body (skey s) else [])"
  by (simp_all add: request_headers_def Let_def)

subsection \<open>One middleware at a time\<close>

definition gzip_ok :: "gzip_lib \<Rightarrow> bool" where
  "gzip_ok lib \<longleftrightarrow> (\<forall>b. gunzip lib (gzip_stream lib [b], None) = Some (b, None))"

text \<open>The subnet check admits the agent's address.\<close>

definition subnet_admits :: "string \<Rightarrow> string \<Rightarrow> bool" where
  "subnet_admits cidr addr \<longleftrightarrow>
     cidr = [] \<or> (\<exists>n a. ParseCIDR cidr = Some n \<and> ParseIP addr = Some a \<and> IPNet_Contains n a)"

lemma subnet_pass:
  assumes "TrustedSubnetMiddleware cidr = Inr subnet" and "subnet_admits cidr (Header_Get (Header r) HeaderXRealIP)"
  shows "use subnet next r s = next r s"
  using assms
  by (auto simp: TrustedSubnetMiddleware_def subnet_admits_def use_def split: if_splits option.splits)

lemma crypto_pass_plain:
  "Header_Get (Header r) HeaderCryptoEncrypted = [] \<Longrightarrow> use (CryptoMiddleware priv) next r s = next r s"
  by (simp add: CryptoMiddleware_def use_def split: option.split)

lemma crypto_pass_encrypted:
  assumes "Header_Get (Header r) HeaderCryptoEncrypted \<noteq> []" and "Body r = (envelope, None)"
    and "decrypt envelope = Inr plain"
  shows "use (CryptoMiddleware (Some decrypt)) next r s =
    next (r\<lparr>Body := (plain, None), Header := Header_Del (Header r) HeaderCryptoEncrypted\<rparr>) s"
  using assms by (simp add: CryptoMiddleware_def use_def ReadAll_def)

lemma gzip_pass:
  assumes "gzip_ok lib" and "Header_Get (Header r) ''Content-Encoding'' = ''gzip''"
    and "Header_Get (Header r) ''Accept-Encoding'' = ''gzip''" and "Body r = (gzip_stream lib [b], None)"
  shows "GzipMiddleware lib next r s =
    (case next (r\<lparr>Body := (b, None)\<rparr>) s of
       (ops, s') \<Rightarrow> ([SetHeader ''Content-Encoding'' ''gzip'', DelHeader ''Content-Length''] @ gzip_ops lib ops, s'))"
proof -
  have "strings_Contains ''gzip'' ''gzip''" by code_simp
  then show ?thesis using assms by (simp add: GzipMiddleware_def gzip_ok_def)
qed

lemma hash_pass:
  assumes "Body r = (body, None)"
    and "Header_Get (Header r) HeaderHashSHA256 = (if key \<noteq> [] then Sign body key else [])"
  shows "use (HashMiddleware key) next r s =
    (if key = [] then next r s
     else case next r s of
            (ops, s') \<Rightarrow> (case hash_writer ops StatusOK [] of (hs, st, buf) \<Rightarrow> (hs @ hash_flush key st buf, s')))"
proof -
  have r: "r\<lparr>Body := (body, None)\<rparr> = r" using assms(1) by simp
  show ?thesis using assms by (simp add: HashMiddleware_def use_def ReadAll_def r)
qed

lemma Logger_ops [simp]: "fst (Logger next r s) = fst (next r s)"
  "store (snd (Logger next r s)) = store (snd (next r s))"
  "audit_out (snd (Logger next r s)) = audit_out (snd (next r s))"
  by (simp_all add: Logger_def split: prod.split)

text \<open>The status of an answer survives both wrappers.\<close>

lemma ops_status_gzip [simp]: "ops_status (gzip_ops lib ops) = ops_status ops"
proof -
  have "ops_status (map (\<lambda>op. case op of WriteBody b \<Rightarrow> WriteBody [] | _ \<Rightarrow> op) ops @ [WriteBody x]) = ops_status ops" for x
    by (induction ops rule: ops_status.induct) (simp_all split: wop.split)
  then show ?thesis by (simp add: gzip_ops_def)
qed

lemma ops_status_headers [simp]:
  "ops_status (map (\<lambda>(k, v). SetHeader k v) hs @ ops) = ops_status ops"
  by (induction hs) auto

lemma hash_writer_bodies: "hash_writer (map WriteBody bs) st buf = ([], st, buf @ concat bs)"
  by (induction bs arbitrary: buf) simp_all

lemma hash_writer_answer:
  "hash_writer (map (\<lambda>(k, v). SetHeader k v) hs @ WriteHeader c # map WriteBody bs) st buf =
     (map (\<lambda>(k, v). SetHeader k v) hs, c, buf @ concat bs)"
  by (induction hs) (auto simp: hash_writer_bodies)

lemma hash_flush_status [simp]: "c \<noteq> 0 \<Longrightarrow> ops_status (hash_flush key c buf) = c"
  by (simp add: hash_flush_def)

subsection \<open>The chain\<close>

text \<open>
  An agent and a server that fit together: gzip is a pair of inverses, the URL parses, and an
  agent that encrypts has a working random source and the public key of the server's key.
\<close>

definition keys_fit :: "('pub, 'priv, 'w) sender_env \<Rightarrow> 'pub Sender \<Rightarrow> (bytes \<Rightarrow> error + bytes) option \<Rightarrow> bool" where
  "keys_fit env s priv \<longleftrightarrow>
     (case pubKey s of
        None \<Rightarrow> True
      | Some pub \<Rightarrow>
          (\<exists>pk. priv = Some (Decrypt (clib env) pk) \<and> key_pair (clib env) pub pk) \<and> gcm_opens (clib env) \<and>
          (\<forall>w p. fills (rand_of env w) \<and> (\<exists>e. Encrypt (clib env) pub (rand_of env w) p = Inr e)))"

lemma newRequest_fits:
  assumes "url_fault env u = None" and "keys_fit env s priv"
  obtains r enc where "newRequest env s (rand_of env w) u body = Inr r" "Header r = request_headers s enc body"
    "params r = make_map" "Method r = ''POST''" "RequestURI r = u"
    "\<not> enc \<Longrightarrow> Body r = (gzip_stream (gz env) [body], None)"
    "enc \<Longrightarrow> \<exists>decrypt envelope. priv = Some decrypt \<and> Body r = (envelope, None) \<and>
       decrypt envelope = Inr (gzip_stream (gz env) [body])"
proof (cases "pubKey s")
  case None
  then show ?thesis using assms(1) that [of _ False] by (simp add: newRequest_def GzipData_def)
next
  case (Some pub)
  then obtain pk e where pk: "priv = Some (Decrypt (clib env) pk)" "key_pair (clib env) pub pk"
    "gcm_opens (clib env)" "fills (rand_of env w)"
    "Encrypt (clib env) pub (rand_of env w) (gzip_stream (gz env) [body]) = Inr e"
    using assms(2) unfolding keys_fit_def by (simp; metis)
  then have "Decrypt (clib env) pk e = Inr (gzip_stream (gz env) [body])" using Decrypt_Encrypt by metis
  then show ?thesis using assms(1) Some pk that [of _ True] by (simp add: newRequest_def GzipData_def)
qed

text \<open>
  What the endpoint sees: the plain body. The operations on the way back are those of the
  signature and compression wrappers.
\<close>

lemma router_delivers:
  assumes "gzip_ok (gz env)" and "Header r = request_headers s enc body"
    and plain: "\<not> enc \<Longrightarrow> Body r = (gzip_stream (gz env) [body], None)"
    and crypt: "enc \<Longrightarrow> \<exists>decrypt envelope. priv = Some decrypt \<and> Body r = (envelope, None) \<and>
       decrypt envelope = Inr (gzip_stream (gz env) [body])"
    and subnet: "TrustedSubnetMiddleware cidr = Inr sub" "subnet_admits cidr (localIP s)"
    and mux: "\<And>r'. Body r' = (body, None) \<Longrightarrow> Method r' = Method r \<Longrightarrow> RequestURI r' = RequestURI r \<Longrightarrow>
      mux r' w = (map (\<lambda>(k, v). SetHeader k v) (hs r') @ WriteHeader 200 # map WriteBody (bs r'), f r')"
  shows "\<exists>r'. Body r' = (body, None) \<and> Method r' = Method r \<and> RequestURI r' = RequestURI r \<and>
    resp_status (respond (fst (newRouter (gz env) (skey s) priv sub mux r w))) = 200 \<and>
    store (snd (newRouter (gz env) (skey s) priv sub mux r w)) = store (f r')"
proof -
  define r1 where "r1 = (if enc then r\<lparr>Body := (gzip_stream (gz env) [body], None),
      Header := Header_Del (Header r) HeaderCryptoEncrypted\<rparr> else r)"
  define r2 where "r2 = r1\<lparr>Body := (body, None)\<rparr>"
  have h: "Header_Get (Header r1) k = Header_Get (request_headers s enc body) k"
    if "CanonicalMIMEHeaderKey k \<noteq> ''X-Crypto-Encrypted''" for k
    using that by (simp add: r1_def assms(2))
  have b1: "Body r1 = (gzip_stream (gz env) [body], None)" using plain by (simp add: r1_def)
  have c: "use (CryptoMiddleware priv) nx r w = nx r1 w" for nx
  proof (cases enc)
    case True
    then obtain decrypt envelope where "priv = Some decrypt" "Body r = (envelope, None)"
      "decrypt envelope = Inr (gzip_stream (gz env) [body])" using crypt by blast
    then show ?thesis
      using True crypto_pass_encrypted [of r envelope decrypt "gzip_stream (gz env) [body]" nx w]
      by (simp add: r1_def assms(2) request_headers_get)
  next
    case False
    then show ?thesis by (simp add: r1_def crypto_pass_plain assms(2) request_headers_get)
  qed
  have g: "GzipMiddleware (gz env) nx r1 w =
      (case nx r2 w of
         (ops, s') \<Rightarrow> ([SetHeader ''Content-Encoding'' ''gzip'', DelHeader ''Content-Length''] @ gzip_ops (gz env) ops, s'))" for nx
    unfolding r2_def by (rule gzip_pass [OF assms(1) _ _ b1]) (simp_all add: h request_headers_get)
  have r2: "Body r2 = (body, None)" "Method r2 = Method r" "RequestURI r2 = RequestURI r" by (simp_all add: r2_def r1_def)
  have hh: "Header_Get (Header r2) HeaderHashSHA256 = (if skey s \<noteq> [] then Sign body (skey s) else [])"
    by (simp add: r2_def h request_headers_get)
  have sub: "use sub nx r w = nx r w" for nx
    using subnet_pass [OF subnet(1)] subnet(2) by (simp add: assms(2) request_headers_get)
  have "resp_status (respond (fst (newRouter (gz env) (skey s) priv sub mux r w))) = 200"
    by (simp add: newRouter_def sub c g hash_pass [OF r2(1) hh] mux [OF r2] respond_status hash_writer_answer)
  moreover have "store (snd (newRouter (gz env) (skey s) priv sub mux r w)) = store (f r2)"
    by (simp add: newRouter_def sub c g hash_pass [OF r2(1) hh] mux [OF r2] hash_writer_answer)
  ultimately show ?thesis using r2 by blast
qed

text \<open>A network that hands every request to the server and returns its status.\<close>

definition deliver :: "'s hstate handler \<Rightarrow> request \<Rightarrow> 's hstate \<Rightarrow> (error + nat) \<times> 's hstate" where
  "deliver router r w = (case router r w of (ops, w') \<Rightarrow> (Inr (resp_status (respond ops)), w'))"

end
