(* ===== verification/EndToEnd.thy ===== *)
theory EndToEnd
  imports Pipeline
begin

section \<open>Delivery from the agent to the server's storage\<close>

text \<open>
  The agent's sender (\<^verbatim>\<open>internal/agent/sender.go\<close>, \<^verbatim>\<open>pkg/retry\<close>) composed with the server's
  router (\<^verbatim>\<open>cmd/server/main.go\<close> \<^verbatim>\<open>newRouter\<close>, \<^verbatim>\<open>internal/middleware\<close>) and its endpoints
  (\<^verbatim>\<open>internal/handler\<close>). chi's dispatch of a request to a route and the network are
  parameters. The network may lose answers: the server has served the request, and the
  client gets a timeout.
\<close>

subsection \<open>Dispatch and network\<close>

type_synonym 's dispatch = "(string \<times> string \<times> 's hstate handler) list \<Rightarrow> 's hstate handler"

text \<open>
  What chi documents for routes without parameters: a request whose method and path are those
  of a registered route goes to its handler.
\<close>

definition static_pattern :: "string \<Rightarrow> bool" where
  "static_pattern p \<longleftrightarrow> CHR ''{'' \<notin> set p"

definition serves_static :: "string \<Rightarrow> 's dispatch \<Rightarrow> bool" where
  "serves_static base dispatch \<longleftrightarrow>
     (\<forall>routes m p h r w. (m, p, h) \<in> set routes \<and> static_pattern p \<and> distinct (map (\<lambda>(m, p, h). (m, p)) routes) \<and>
        Method r = m \<and> RequestURI r = base @ p \<longrightarrow> dispatch routes r w = h r w)"

text \<open>The first \<open>k\<close> answers are lost with a timeout, after the server has served the request.\<close>

definition lossy_network :: "'s hstate handler \<Rightarrow> request \<Rightarrow> nat \<times> 's hstate \<Rightarrow> (error + nat) \<times> nat \<times> 's hstate" where
  "lossy_network router r kw =
     (case kw of (k, w) \<Rightarrow>
        (case router r w of
           (ops, w') \<Rightarrow>
             if k = 0 then (Inr (resp_status (respond ops)), (0, w'))
             else (Inl (UrlError True True), (k - 1, w'))))"

text \<open>
  Agent and server fit together: the same signing key, matching encryption keys, an agent
  address the server trusts, gzip libraries that are inverse to each other.
\<close>

definition connected ::
    "('pub, 'priv, nat \<times> 's hstate) sender_env \<Rightarrow> 'pub Sender \<Rightarrow> string \<Rightarrow> (bytes \<Rightarrow> error + bytes) option \<Rightarrow>
     's hstate handler \<Rightarrow> bool" where
  "connected env s cidr priv mux \<longleftrightarrow>
     gzip_ok (gz env) \<and> (\<forall>u. url_fault env u = None) \<and> keys_fit env s priv \<and> subnet_admits cidr (localIP s) \<and>
     (\<exists>sub. TrustedSubnetMiddleware cidr = Inr sub \<and>
        http_Do env = lossy_network (newRouter (gz env) (skey s) priv sub mux))"

text \<open>One request over that network: the endpoint sees the body the sender started from.\<close>

lemma request_served:
  assumes "connected env s cidr priv mux"
    and mux: "\<And>r'. Body r' = (body, None) \<Longrightarrow> Method r' = ''POST'' \<Longrightarrow> RequestURI r' = u \<Longrightarrow>
      mux r' w = (map (\<lambda>(k, v). SetHeader k v) (hs r') @ WriteHeader 200 # map WriteBody (bs r'), f r')"
  obtains r w' r' where "newRequest env s (rand_of env (k, w)) u body = Inr r"
    "http_Do env r (k, w) = (if k = 0 then (Inr 200, (0, w')) else (Inl (UrlError True True), (k - 1, w')))"
    "Body r' = (body, None)" "Method r' = ''POST''" "RequestURI r' = u" "store w' = store (f r')"
proof -
  obtain sub where sub: "TrustedSubnetMiddleware cidr = Inr sub"
    "http_Do env = lossy_network (newRouter (gz env) (skey s) priv sub mux)"
    and fit: "gzip_ok (gz env)" "url_fault env u = None" "keys_fit env s priv" "subnet_admits cidr (localIP s)"
    using assms(1) by (auto simp: connected_def)
  obtain r enc where r: "newRequest env s (rand_of env (k, w)) u body = Inr r" "Header r = request_headers s enc body"
    "Method r = ''POST''" "RequestURI r = u"
    "\<not> enc \<Longrightarrow> Body r = (gzip_stream (gz env) [body], None)"
    "enc \<Longrightarrow> \<exists>decrypt envelope. priv = Some decrypt \<and> Body r = (envelope, None) \<and>
       decrypt envelope = Inr (gzip_stream (gz env) [body])"
    by (rule newRequest_fits [OF fit(2,3), where w = "(k, w)" and body = body]) blast
  have mux': "mux r' w = (map (\<lambda>(k, v). SetHeader k v) (hs r') @ WriteHeader 200 # map WriteBody (bs r'), f r')"
    if "Body r' = (body, None)" "Method r' = Method r" "RequestURI r' = RequestURI r" for r'
    using mux [of r'] that r(3,4) by simp
  obtain r' where r': "Body r' = (body, None)" "Method r' = Method r" "RequestURI r' = RequestURI r"
    "resp_status (respond (fst (newRouter (gz env) (skey s) priv sub mux r w))) = 200"
    "store (snd (newRouter (gz env) (skey s) priv sub mux r w)) = store (f r')"
    using router_delivers [where mux = mux and f = f, OF fit(1) r(2,5,6) sub(1) fit(4) mux'] by blast
  show ?thesis
    by (rule that [OF r(1), of "snd (newRouter (gz env) (skey s) priv sub mux r w)" r'])
      (use r r' in \<open>auto simp: sub(2) lossy_network_def split: prod.split\<close>)
qed

subsection \<open>Batches and single metrics over any storage that keeps its contract\<close>

lemma static_routes: "distinct (map (\<lambda>(m, p, h). (m, p)) (Routes om env h))"
  by (simp add: Routes_def)

lemma dispatch_updates:
  assumes "serves_static base dispatch" and "Method r = ''POST''"
  shows "RequestURI r = base @ ''/updates/'' \<Longrightarrow> dispatch (Routes om env h) r w = UpdateMetricsBatch env h r w"
    and "RequestURI r = base @ ''/update'' \<Longrightarrow> dispatch (Routes om env h) r w = UpdateMetricJSON env h r w"
proof -
  have "(''POST'', ''/updates/'', UpdateMetricsBatch env h) \<in> set (Routes om env h)"
    "(''POST'', ''/update'', UpdateMetricJSON env h) \<in> set (Routes om env h)"
    "static_pattern ''/updates/''" "static_pattern ''/update''"
    by (simp_all add: Routes_def static_pattern_def)
  then show "RequestURI r = base @ ''/updates/'' \<Longrightarrow> dispatch (Routes om env h) r w = UpdateMetricsBatch env h r w"
    "RequestURI r = base @ ''/update'' \<Longrightarrow> dispatch (Routes om env h) r w = UpdateMetricJSON env h r w"
    using assms static_routes unfolding serves_static_def by blast+
qed

text \<open>What the endpoint for single metrics accepts.\<close>

definition sendable :: "Metrics \<Rightarrow> bool" where
  "sendable m \<longleftrightarrow> json_safe m \<and> model_error m = None \<and> ID m \<noteq> []"

context handler_contract
begin

definition serves :: "(string, string) map_order \<Rightarrow> ('pub, 'priv, nat \<times> 's hstate) sender_env \<Rightarrow> 'pub Sender \<Rightarrow> string \<Rightarrow>
    (bytes \<Rightarrow> error + bytes) option \<Rightarrow> 's dispatch \<Rightarrow> bool" where
  "serves om senv s cidr priv dispatch \<longleftrightarrow>
     serves_static (serverURL s) dispatch \<and> connected senv s cidr priv (dispatch (Routes om env the_handler))"

lemma batch_attempt:
  assumes "serves om senv s cidr priv dispatch" and "ok (store w)" and "list_all json_safe ms"
  shows "\<exists>w'. ok (store w') \<and> view (store w') = apply_batch ms (view (store w)) \<and>
    sendBatch senv s ms (k, w) =
      (if k = 0 then (None, (0, w')) else (Some (Wrapf ''send batch: %w'' [] (UrlError True True)), (k - 1, w')))"
proof -
  obtain body where body: "Marshal_metrics ms = Some body" "Decode_metrics body = Some ms"
    using Decode_Marshal_metrics [OF assms(3)] by (metis append_Nil2 number_end_Nil)
  have eff: "\<exists>w1. UpdateMetricsBatch env the_handler r w = ([WriteHeader 200], w1) \<and> ok (store w1) \<and>
      view (store w1) = apply_batch ms (view (store w))" if "Body r = (body, None)" for r
    using batch_endpoint [OF assms(2), of r ms] that body(2)
    by (auto simp: Decoder_value_clean Decode_metrics_def StatusOK_def)
  have mux: "dispatch (Routes om env the_handler) r w = (map (\<lambda>(k, v). SetHeader k v) [] @ WriteHeader 200 # map WriteBody [],
      snd (UpdateMetricsBatch env the_handler r w))"
    if "Body r = (body, None)" "Method r = ''POST''" "RequestURI r = serverURL s @ ''/updates/''" for r
    using dispatch_updates(1) [OF _ that(2,3)] eff [OF that(1)] assms(1) by (fastforce simp: serves_def)
  have con: "connected senv s cidr priv (dispatch (Routes om env the_handler))" using assms(1) by (simp add: serves_def)
  obtain r w' r' where r: "newRequest senv s (rand_of senv (k, w)) (serverURL s @ ''/updates/'') body = Inr r"
    "http_Do senv r (k, w) = (if k = 0 then (Inr 200, (0, w')) else (Inl (UrlError True True), (k - 1, w')))"
    "Body r' = (body, None)" "store w' = store (snd (UpdateMetricsBatch env the_handler r' w))"
    by (rule request_served [where f = "\<lambda>r. snd (UpdateMetricsBatch env the_handler r w)" and k = k, OF con mux]) auto
  then show ?thesis using eff [OF r(3)] body(1) by (auto simp: sendBatch_def StatusOK_def intro!: exI [of _ w'])
qed

lemma batch_retries:
  assumes "serves om senv s cidr priv dispatch" and "list_all json_safe ms" and "ok (store w)" and "0 < n"
  shows "\<exists>w'. ok (store w') \<and> view (store w') = (apply_batch ms ^^ (min (k + 1) n)) (view (store w)) \<and>
    retry_loop (\<lambda>_ x. x) b (sendBatch senv s ms) n isRetriableHTTPError d i (k, w) =
      (if k < n then None else Some (Wrapf ''send batch: %w'' [] (UrlError True True)), (k - n, w'))"
  using assms(3,4)
proof (induction n arbitrary: i k w)
  case (Suc n)
  obtain w1 where w1: "ok (store w1)" "view (store w1) = apply_batch ms (view (store w))"
    "sendBatch senv s ms (k, w) =
      (if k = 0 then (None, (0, w1)) else (Some (Wrapf ''send batch: %w'' [] (UrlError True True)), (k - 1, w1)))"
    using batch_attempt [OF assms(1) Suc.prems(1) assms(2)] by blast
  show ?case
  proof (cases "k = 0 \<or> n = 0")
    case True
    then show ?thesis using w1 by (cases k) (auto intro!: exI [of _ w1])
  next
    case False
    then obtain j where k: "k = Suc j" "0 < n" by (cases k) auto
    obtain w' where w': "ok (store w')" "view (store w') = (apply_batch ms ^^ min (j + 1) n) (view (store w1))"
      "retry_loop (\<lambda>_ x. x) b (sendBatch senv s ms) n isRetriableHTTPError d (i + 1) (j, w1) =
        (if j < n then None else Some (Wrapf ''send batch: %w'' [] (UrlError True True)), (j - n, w'))"
      using Suc.IH [OF w1(1) k(2), of j "i + 1"] by blast
    have "view (store w') = (apply_batch ms ^^ min (Suc j + 1) (Suc n)) (view (store w))"
      using w'(2) w1(2) by (simp add: funpow_swap1)
    then show ?thesis using w' w1 k by (auto intro!: exI [of _ w'])
  qed
qed simp

text \<open>The same for a single metric sent to \<^verbatim>\<open>/update\<close>.\<close>

lemma metric_attempt:
  assumes "serves om senv s cidr priv dispatch" and "ok (store w)" and "json_safe m" and "model_error m = None"
    and "ID m \<noteq> []"
  shows "\<exists>w'. ok (store w') \<and> view (store w') = apply_metric m (view (store w)) \<and>
    send senv s m (k, w) =
      (if k = 0 then (None, (0, w')) else (Some (Wrapf ''send metric %s: %w'' [ID m] (UrlError True True)), (k - 1, w')))"
proof -
  obtain body where body: "Marshal_metric m = Some body" "Decode_metric body = Some m"
    using Decode_Marshal_metric [OF assms(3)] by (metis append_Nil2 number_end_Nil)
  define u where "u = (if MType m = model_Gauge then gauge_metric (ID m) (the (Value m))
      else counter_metric (ID m) (counter_total (view (store w)) (ID m) + the (Delta m)))"
  define bs where "bs = (case Marshal_metric u of Some b \<Rightarrow> [b @ [CHR 0x0A]] | None \<Rightarrow> [])"
  have eff: "\<exists>w1. UpdateMetricJSON env the_handler r w =
        (map (\<lambda>(k, v). SetHeader k v) [(''Content-Type'', ''application/json'')] @ WriteHeader 200 # map WriteBody bs, w1) \<and>
      ok (store w1) \<and> view (store w1) = apply_metric m (view (store w))" if "Body r = (body, None)" for r
  proof -
    have "Option.bind (Decoder_value (Body r)) decode_metric = Some m"
      using body(2) by (simp add: that Decoder_value_clean Decode_metric_def)
    from json_endpoint [OF assms(2) this assms(5)] assms(4)
    obtain s1 where s1: "ok (store s1)" "view (store s1) = apply_metric m (view (store w))"
      "UpdateMetricJSON env the_handler r w = encode_metric_response u s1" by (auto simp: u_def)
    have "fst (encode_metric_response u s1) =
        map (\<lambda>(k, v). SetHeader k v) [(''Content-Type'', ''application/json'')] @ WriteHeader 200 # map WriteBody bs"
      by (simp add: encode_response_ops bs_def StatusOK_def split: option.split)
    then show ?thesis using s1 by (metis encode_response_frame(1) prod.collapse)
  qed
  have mux: "dispatch (Routes om env the_handler) r w =
      (map (\<lambda>(k, v). SetHeader k v) [(''Content-Type'', ''application/json'')] @ WriteHeader 200 # map WriteBody bs,
       snd (UpdateMetricJSON env the_handler r w))"
    if "Body r = (body, None)" "Method r = ''POST''" "RequestURI r = serverURL s @ ''/update''" for r
    using dispatch_updates(2) [OF _ that(2,3)] eff [OF that(1)] assms(1) by (fastforce simp: serves_def)
  have con: "connected senv s cidr priv (dispatch (Routes om env the_handler))" using assms(1) by (simp add: serves_def)
  obtain r w' r' where r: "newRequest senv s (rand_of senv (k, w)) (serverURL s @ ''/update'') body = Inr r"
    "http_Do senv r (k, w) = (if k = 0 then (Inr 200, (0, w')) else (Inl (UrlError True True), (k - 1, w')))"
    "Body r' = (body, None)" "store w' = store (snd (UpdateMetricJSON env the_handler r' w))"
    by (rule request_served [where f = "\<lambda>r. snd (UpdateMetricJSON env the_handler r w)" and k = k, OF con mux]) auto
  then show ?thesis using eff [OF r(3)] body(1) by (auto simp: send_def StatusOK_def intro!: exI [of _ w'])
qed

lemma all_sent:
  assumes "serves om senv s cidr priv dispatch" and "ok (store w)" and "list_all sendable ms"
  shows "\<exists>w'. ok (store w') \<and> view (store w') = apply_batch ms (view (store w)) \<and>
    send_all senv s ms (0, w) = (None, (0, w'))"
  using assms(2,3)
proof (induction ms arbitrary: w)
  case (Cons m ms)
  obtain w1 where w1: "ok (store w1)" "view (store w1) = apply_metric m (view (store w))" "send senv s m (0, w) = (None, (0, w1))"
    using metric_attempt [OF assms(1) Cons.prems(1), of m 0] Cons.prems(2) by (auto simp: sendable_def)
  show ?case using Cons.IH [OF w1(1)] Cons.prems(2) w1(2,3) by auto
qed simp

end

subsection \<open>Properties\<close>

lemma mem_serves:
  assumes "serves_static (serverURL s) dispatch"
    and "connected senv s cidr priv (dispatch (Routes om env (mem_handler og oc pub)))"
  shows "mem_h.serves og oc env None pub om senv s cidr priv dispatch"
  using assms by (simp add: mem_h.serves_def mem_handler_eq)

text \<open>
  C1. A batch reaches the server's storage through every layer (agent/sender.go SendBatch and
  newRequest, pkg/compress, pkg/crypto, pkg/hash, pkg/retry; cmd/server/main.go newRouter,
  middleware, handler.go UpdateMetricsBatch, service, storage.go). For an agent and a server
  with the same signing key (or none), matching encryption keys (or none), an agent address in
  the trusted subnet (or no subnet) and metrics that have a JSON text, over a network that
  loses the first \<open>k\<close> answers: the batch is applied exactly \<open>k + 1\<close> times when \<open>k < 4\<close> and
  \<^verbatim>\<open>SendBatch\<close> returns nil, and four times with an error otherwise. So a batch is delivered
  exactly once when no answer is lost, and otherwise its counters are counted again with
  every retry.
\<close>

theorem batch_delivery:
  assumes "mem_ok (store w)" and "list_all json_safe ms" and "ms \<noteq> []"
    and "retry_go_spec (\<lambda>_ x. x) rg" and "serves_static (serverURL s) dispatch"
    and "connected senv s cidr priv (dispatch (Routes om env (mem_handler og oc pub)))"
  shows "\<exists>w'. mem_ok (store w') \<and>
    mem_view (store w') = (apply_batch ms ^^ min (k + 1) 4) (mem_view (store w)) \<and>
    SendBatch rg senv s ms (k, w) =
      (if k < 4 then None else Some (Wrapf ''send batch: %w'' [] (UrlError True True)), (k - 4, w'))"
proof -
  obtain b d where r: "\<And>fn p x. retry_Do rg fn p x = retry_loop (\<lambda>_ x. x) b fn 4 p d 0 x"
    using retry_go_loop [OF assms(4)] by blast
  show ?thesis
    using mem_h.batch_retries [OF mem_serves [OF assms(5,6)] assms(2,1), of 4 k b d 0] assms(3)
    by (simp add: SendBatch_def r)
qed

text \<open>An agent and a server for the examples, with every layer switched on.\<close>

definition sample_gzip :: gzip_lib where
  "sample_gzip = \<lparr>gunzip = (\<lambda>b. Some b), gzip_stream = concat\<rparr>"

definition sample_sender :: "unit Sender" where
  "sample_sender = \<lparr>serverURL = ''http://localhost:8080'', skey = ''secret'', pubKey = Some (), localIP = ''10.1.2.3''\<rparr>"

definition sample_dispatch :: "string \<Rightarrow> 's dispatch" where
  "sample_dispatch base routes r w =
     (case find (\<lambda>(m, p, h). m = Method r \<and> base @ p = RequestURI r) routes of
        Some (m, p, h) \<Rightarrow> h r w
      | None \<Rightarrow> (http_NotFound, w))"

definition sample_subnet :: "'s middleware option" where
  "sample_subnet = (case TrustedSubnetMiddleware ''10.0.0.0/8'' of Inr m \<Rightarrow> m | Inl _ \<Rightarrow> None)"

definition sample_senv :: "MemStorage hstate handler \<Rightarrow> (unit, unit, nat \<times> MemStorage hstate) sender_env" where
  "sample_senv mux =
     \<lparr>gz = sample_gzip, clib = plain_lib, rand_of = (\<lambda>_. plain_rnd), url_fault = (\<lambda>_. None),
      http_Do = lossy_network (newRouter sample_gzip ''secret'' (Some (Decrypt plain_lib ())) sample_subnet mux),
      remote_addr = ''10.1.2.3:40000'', server_now = 1700000000\<rparr>"

lemma find_route:
  assumes "(m, p, h) \<in> set routes" and "distinct (map (\<lambda>(m, p, h). (m, p)) routes)"
  shows "find (\<lambda>(m', p', h'). m' = m \<and> base @ p' = base @ p) routes = Some (m, p, h)"
  using assms by (induction routes) (auto simp: image_iff)

lemma sample_dispatch_serves: "serves_static base (sample_dispatch base)"
  unfolding serves_static_def sample_dispatch_def using find_route [of _ _ _ _ base] by fastforce

lemma sample_connected:
  "connected (sample_senv mux) sample_sender ''10.0.0.0/8'' (Some (Decrypt plain_lib ())) mux"
proof -
  have net: "\<exists>n a. ParseCIDR ''10.0.0.0/8'' = Some n \<and> ParseIP ''10.1.2.3'' = Some a \<and> IPNet_Contains n a"
  proof -
    have "case (ParseCIDR ''10.0.0.0/8'', ParseIP ''10.1.2.3'') of (Some n, Some a) \<Rightarrow> IPNet_Contains n a | _ \<Rightarrow> False"
      by code_simp
    then show ?thesis by (auto split: option.splits)
  qed
  then have "TrustedSubnetMiddleware ''10.0.0.0/8'' = Inr (sample_subnet :: MemStorage middleware option)"
    by (auto simp: sample_subnet_def TrustedSubnetMiddleware_def split: option.split)
  then show ?thesis
    using net plain_lib_facts
    by (auto simp: connected_def sample_senv_def sample_sender_def gzip_ok_def sample_gzip_def keys_fit_def
        subnet_admits_def plain_Encrypt)
qed

theorem batch_delivery_witness:
  "\<exists>w'. counter_or_zero (store w') ''PollCount'' = 15 \<and>
    SendBatch sample_retry_go
      (sample_senv (sample_dispatch ''http://localhost:8080'' (Routes id sample_env (mem_handler id id None))))
      sample_sender [counter_metric ''PollCount'' 5, gauge_metric ''Alloc'' 0] (2, empty_state) = (None, (0, w'))"
proof -
  let ?ms = "[counter_metric ''PollCount'' 5, gauge_metric ''Alloc'' 0]"
  have "utf8_valid ''PollCount''" "utf8_valid ''Alloc''" "f64_finite 0" by code_simp+
  then have safe: "list_all json_safe ?ms" by simp
  have st: "mem_ok (store empty_state)" by (simp add: empty_state_def mem_new)
  have serves: "serves_static (serverURL sample_sender) (sample_dispatch ''http://localhost:8080'')"
    by (simp add: sample_sender_def sample_dispatch_serves)
  obtain w' where w': "mem_view (store w') = (apply_batch ?ms ^^ min (2 + 1) 4) (mem_view (store empty_state))"
    "SendBatch sample_retry_go
      (sample_senv (sample_dispatch ''http://localhost:8080'' (Routes id sample_env (mem_handler id id None))))
      sample_sender ?ms (2, empty_state) = (None, (0, w'))"
    using batch_delivery [OF st safe _ sample_retry_go_spec serves sample_connected, where k = 2 and om = id and env = sample_env and og = id and oc = id and pub = None] by auto
  have "counter_or_zero (store w') ''PollCount'' = 15"
    by (simp add: counter_or_zero_total w'(1) numeral_3_eq_3 apply_batch_total empty_state_def mem_new(2))
  with w'(2) show ?thesis by blast
qed

text \<open>
  C29. The two ways to report are equivalent (agent/sender.go SendMetrics and SendBatch): over a
  network that loses no answer, sending the metrics one by one to \<^verbatim>\<open>/update\<close> and sending them
  as one batch to \<^verbatim>\<open>/updates/\<close> both succeed and leave the same gauges and counters, when every
  metric has a name, a known type, its value and a JSON text.
\<close>

theorem single_equals_batch:
  assumes "mem_ok (store w)" and "list_all sendable ms" and "retry_go_spec (\<lambda>_ x. x) rg"
    and "serves_static (serverURL s) dispatch"
    and "connected senv s cidr priv (dispatch (Routes om env (mem_handler og oc pub)))"
  shows "\<exists>w1 w2. SendMetrics rg senv s ms (0, w) = (None, (0, w1)) \<and> SendBatch rg senv s ms (0, w) = (None, (0, w2)) \<and>
    mem_view (store w1) = mem_view (store w2) \<and> mem_view (store w1) = apply_batch ms (mem_view (store w))"
proof -
  obtain b d where r: "\<And>fn p x. retry_Do rg fn p x = retry_loop (\<lambda>_ x. x) b fn 4 p d 0 x"
    using retry_go_loop [OF assms(3)] by blast
  note serves = mem_serves [OF assms(4,5)]
  have safe: "list_all json_safe ms" using assms(2) by (auto simp: list_all_iff sendable_def)
  obtain w1 where w1: "mem_view (store w1) = apply_batch ms (mem_view (store w))" "send_all senv s ms (0, w) = (None, (0, w1))"
    using mem_h.all_sent [OF serves assms(1,2)] by blast
  obtain w2 where w2: "mem_view (store w2) = apply_batch ms (mem_view (store w))" "SendBatch rg senv s ms (0, w) = (None, (0, w2))"
  proof (cases "ms = []")
    case True
    then show ?thesis using that [of w] by (simp add: SendBatch_def)
  next
    case False
    then show ?thesis
      using mem_h.batch_retries [OF serves safe assms(1), of 4 0 b d 0] that by (auto simp: SendBatch_def r)
  qed
  have "SendMetrics rg senv s ms (0, w) = (None, (0, w1))" by (simp add: SendMetrics_def r w1(2) numeral_eq_Suc)
  with w1 w2 show ?thesis by auto
qed

theorem single_equals_batch_witness:
  "\<exists>w1 w2. let env = sample_senv (sample_dispatch ''http://localhost:8080'' (Routes id sample_env (mem_handler id id None)));
       ms = [counter_metric ''PollCount'' 5, counter_metric ''PollCount'' 2]
     in SendMetrics sample_retry_go env sample_sender ms (0, empty_state) = (None, (0, w1)) \<and>
        SendBatch sample_retry_go env sample_sender ms (0, empty_state) = (None, (0, w2)) \<and>
        mem_view (store w1) = mem_view (store w2) \<and> counter_or_zero (store w1) ''PollCount'' = 7"
proof -
  let ?ms = "[counter_metric ''PollCount'' 5, counter_metric ''PollCount'' 2]"
  have "utf8_valid ''PollCount''" by code_simp
  then have safe: "list_all sendable ?ms" by (simp add: sendable_def model_error_def)
  have st: "mem_ok (store empty_state)" by (simp add: empty_state_def mem_new)
  have serves: "serves_static (serverURL sample_sender) (sample_dispatch ''http://localhost:8080'')"
    by (simp add: sample_sender_def sample_dispatch_serves)
  let ?env = "sample_senv (sample_dispatch ''http://localhost:8080'' (Routes id sample_env (mem_handler id id None)))"
  obtain w1 w2 where w: "SendMetrics sample_retry_go ?env sample_sender ?ms (0, empty_state) = (None, (0, w1))"
    "SendBatch sample_retry_go ?env sample_sender ?ms (0, empty_state) = (None, (0, w2))"
    "mem_view (store w1) = mem_view (store w2)" "mem_view (store w1) = apply_batch ?ms (mem_view (store empty_state))"
    using single_equals_batch [OF st safe sample_retry_go_spec serves sample_connected,
        where om = id and env = sample_env and og = id and oc = id and pub = None] by blast
  have "counter_or_zero (store w1) ''PollCount'' = 7"
    by (simp add: counter_or_zero_total w(4) apply_batch_total empty_state_def mem_new(2))
  with w(1-3) show ?thesis unfolding Let_def by blast
qed

end
