(* ===== verification/Grpc.thy ===== *)
theory Grpc
  imports EndToEnd
begin

section \<open>The gRPC transport\<close>

text \<open>
  \<^verbatim>\<open>internal/grpcserver/server.go\<close> and \<^verbatim>\<open>internal/agent/grpc_sender.go\<close>. The generated protobuf
  messages are records with their getters; the gRPC connection is a parameter: a function that
  takes the outgoing metadata and a request and returns the status of the call.
\<close>

subsection \<open>Messages\<close>

text \<open>An enum of protobuf 3 is open: any 32-bit number may arrive as the type.\<close>

record pb_Metric =
  Id :: string
  Type :: "32 word"
  pb_Delta :: int64
  pb_Value :: float64

definition Metric_GAUGE :: "32 word" where "Metric_GAUGE = 0"
definition Metric_COUNTER :: "32 word" where "Metric_COUNTER = 1"

lemma metric_types [simp]: "Metric_GAUGE \<noteq> Metric_COUNTER" "Metric_COUNTER \<noteq> Metric_GAUGE"
  by (simp_all add: Metric_GAUGE_def Metric_COUNTER_def)

datatype code = InvalidArgument | Internal | PermissionDenied

text \<open>\<^verbatim>\<open>status.Errorf\<close>: a code, a format and its string arguments.\<close>

datatype rpc_status = Status code string "string list"

type_synonym metadata = "(string, string list) gomap"

text \<open>A handler of the one method: incoming metadata, request, state.\<close>

type_synonym 's unary = "metadata option \<Rightarrow> pb_Metric list \<Rightarrow> 's \<Rightarrow> rpc_status option \<times> 's"

subsection \<open>internal/grpcserver/server.go\<close>

record 's MetricsServer =
  gsvc :: "'s MetricService"

definition NewMetricsServer :: "'s MetricService \<Rightarrow> 's MetricsServer" where
  "NewMetricsServer sv = \<lparr>gsvc = sv\<rparr>"

text \<open>The loop of \<^verbatim>\<open>UpdateMetrics\<close>: the first metric of another type ends the call.\<close>

fun from_proto :: "pb_Metric list \<Rightarrow> rpc_status + Metrics list" where
  "from_proto [] = Inr []"
| "from_proto (m # ms) =
     (if Type m = Metric_GAUGE then map_sum id (Cons (gauge_metric (Id m) (pb_Value m))) (from_proto ms)
      else if Type m = Metric_COUNTER then map_sum id (Cons (counter_metric (Id m) (pb_Delta m))) (from_proto ms)
      else Inl (Status InvalidArgument ''unknown metric type %v for %q'' [Id m]))"

definition MetricsServer_UpdateMetrics :: "'s MetricsServer \<Rightarrow> 's unary" where
  "MetricsServer_UpdateMetrics srv md req s =
     (case from_proto req of
        Inl st \<Rightarrow> (Some st, s)
      | Inr ms \<Rightarrow>
          (case MetricService_UpdateBatch (gsvc srv) s ms of
             (Some err, s') \<Rightarrow> (Some (Status Internal ''update batch: %v'' []), s')
           | (None, s') \<Rightarrow> (None, s')))"

text \<open>The address of a call: the first \<^verbatim>\<open>x-real-ip\<close> value of the incoming metadata, or empty.\<close>

definition raw_ip :: "metadata option \<Rightarrow> string" where
  "raw_ip md =
     (case md of
        None \<Rightarrow> []
      | Some m \<Rightarrow> (case map_get m (map lower MetadataXRealIP) of Some (v # _) \<Rightarrow> v | _ \<Rightarrow> []))"

definition TrustedSubnetInterceptor :: "string \<Rightarrow> error + ('s unary \<Rightarrow> 's unary) option" where
  "TrustedSubnetInterceptor cidr =
     (if cidr = [] then Inr None
      else case ParseCIDR cidr of
             None \<Rightarrow> Inl (Wrapf ''trusted_subnet: invalid CIDR %q: %w'' [cidr] (Opaque ''invalid CIDR address''))
           | Some network \<Rightarrow>
               Inr (Some (\<lambda>handler md req s.
                 (let raw = raw_ip md
                  in case ParseIP raw of
                       Some addr \<Rightarrow>
                         if IPNet_Contains network addr then handler md req s
                         else (Some (Status PermissionDenied ''ip %q is not in trusted subnet'' [raw]), s)
                     | None \<Rightarrow> (Some (Status PermissionDenied ''ip %q is not in trusted subnet'' [raw]), s)))))"

subsection \<open>internal/agent/grpc\_sender.go\<close>

record GRPCSender =
  glocalIP :: string

definition NewGRPCSender :: "error option \<Rightarrow> error + iface_addr list \<Rightarrow> string \<Rightarrow> error + GRPCSender" where
  "NewGRPCSender client_fault addrs addr =
     (case client_fault of
        Some err \<Rightarrow> Inl (Wrapf ''grpc dial %q: %w'' [addr] err)
      | None \<Rightarrow> Inr \<lparr>glocalIP = detectLocalIPv4 addrs\<rparr>)"

text \<open>The loop of \<^verbatim>\<open>SendBatch\<close>: what has no value or another type is left out.\<close>

definition to_proto_metric :: "Metrics \<Rightarrow> pb_Metric option" where
  "to_proto_metric m =
     (if MType m = model_Gauge then
        map_option (\<lambda>v. \<lparr>Id = ID m, Type = Metric_GAUGE, pb_Delta = 0, pb_Value = v\<rparr>) (Value m)
      else if MType m = model_Counter then
        map_option (\<lambda>d. \<lparr>Id = ID m, Type = Metric_COUNTER, pb_Delta = d, pb_Value = 0\<rparr>) (Delta m)
      else None)"

definition to_proto :: "Metrics list \<Rightarrow> pb_Metric list" where
  "to_proto ms = List.map_filter to_proto_metric ms"

definition outgoing :: "GRPCSender \<Rightarrow> metadata" where
  "outgoing s = (if glocalIP s \<noteq> [] then map_set make_map MetadataXRealIP [glocalIP s] else make_map)"

definition status_error :: "rpc_status \<Rightarrow> error" where
  "status_error st = (case st of Status c fm args \<Rightarrow> Opaque fm)"

definition GRPCSender_SendBatch ::
    "(metadata \<Rightarrow> pb_Metric list \<Rightarrow> 'w \<Rightarrow> rpc_status option \<times> 'w) \<Rightarrow> GRPCSender \<Rightarrow> Metrics list \<Rightarrow> 'w \<Rightarrow> 'w eff" where
  "GRPCSender_SendBatch rpc s metrics w =
     (case rpc (outgoing s) (to_proto metrics) w of
        (Some st, w') \<Rightarrow> (Some (Wrapf ''grpc update metrics: %w'' [] (status_error st)), w')
      | (None, w') \<Rightarrow> (None, w'))"

subsection \<open>What arrives\<close>

text \<open>The two conversions together drop exactly the metrics a batch ignores anyway.\<close>

lemma from_to_proto: "\<exists>ms'. from_proto (to_proto ms) = Inr ms' \<and> (\<forall>t. apply_batch ms' t = apply_batch ms t)"
proof (induction ms)
  case (Cons m ms)
  then obtain ms' where ms': "from_proto (to_proto ms) = Inr ms'" "\<And>t. apply_batch ms' t = apply_batch ms t" by blast
  then show ?case
    by (auto simp: to_proto_def to_proto_metric_def apply_metric_def split: option.split)
qed (simp add: to_proto_def)

lemma from_proto_cases:
  "from_proto req =
     (case find (\<lambda>m. Type m \<noteq> Metric_GAUGE \<and> Type m \<noteq> Metric_COUNTER) req of
        Some m \<Rightarrow> Inl (Status InvalidArgument ''unknown metric type %v for %q'' [Id m])
      | None \<Rightarrow> Inr (map (\<lambda>m. if Type m = Metric_GAUGE then gauge_metric (Id m) (pb_Value m)
                            else counter_metric (Id m) (pb_Delta m)) req))"
  by (induction req) (auto split: option.split)

lemma raw_ip_outgoing: "raw_ip (Some (outgoing s)) = glocalIP s"
proof -
  have "map lower MetadataXRealIP = MetadataXRealIP" by code_simp
  then show ?thesis by (simp add: raw_ip_def outgoing_def)
qed

context service_contract
begin

lemma grpc_update:
  assumes "ok s"
  shows "\<exists>s'. MetricsServer_UpdateMetrics (NewMetricsServer the_svc) md (to_proto ms) s = (None, s') \<and> ok s' \<and>
    view s' = apply_batch ms (view s)"
proof -
  obtain ms' where ms': "from_proto (to_proto ms) = Inr ms'" "\<And>t. apply_batch ms' t = apply_batch ms t"
    using from_to_proto by blast
  from update_list [OF assms, of ms'] ms' show ?thesis
    by (auto simp: MetricsServer_UpdateMetrics_def NewMetricsServer_def)
qed

end

text \<open>A connection that hands every call to the server behind its interceptor.\<close>

definition grpc_wire :: "('s unary \<Rightarrow> 's unary) option \<Rightarrow> 's unary \<Rightarrow> metadata \<Rightarrow> pb_Metric list \<Rightarrow> 's \<Rightarrow> rpc_status option \<times> 's" where
  "grpc_wire interceptor srv md req = (case interceptor of None \<Rightarrow> srv | Some f \<Rightarrow> f srv) (Some md) req"

lemma interceptor_admits:
  assumes "TrustedSubnetInterceptor cidr = Inr i" and "subnet_admits cidr (glocalIP s)"
  shows "grpc_wire i srv (outgoing s) req st = srv (Some (outgoing s)) req st"
  using assms
  by (auto simp: TrustedSubnetInterceptor_def grpc_wire_def raw_ip_outgoing subnet_admits_def split: if_splits option.splits)

subsection \<open>Properties\<close>

text \<open>
  C7. The two transports are equivalent (grpc\_sender.go SendBatch with grpcserver/server.go
  UpdateMetrics, against handler.go UpdateMetricsBatch): a batch sent over gRPC to a server that
  trusts the agent's address succeeds and leaves exactly the gauges and counters that the same
  batch leaves as the JSON body of \<^verbatim>\<open>POST /updates/\<close>, malformed entries included: both
  transports ignore them.
\<close>

theorem grpc_equals_http:
  assumes "mem_ok (store w)" and "list_all json_safe ms" and "Marshal_metrics ms = Some bs" and "Body r = (bs, None)"
    and "TrustedSubnetInterceptor cidr = Inr i" and "subnet_admits cidr (glocalIP s)"
  shows "\<exists>s1 w2. GRPCSender_SendBatch
      (grpc_wire i (MetricsServer_UpdateMetrics (NewMetricsServer (NewMetricService (MemStorage_Storage og oc))))) s ms (store w) = (None, s1) \<and>
    UpdateMetricsBatch env (mem_handler og oc pub) r w = ([WriteHeader 200], w2) \<and>
    mem_view s1 = mem_view (store w2)"
proof -
  have http: "\<exists>w2. UpdateMetricsBatch env (mem_handler og oc pub) r w = ([WriteHeader 200], w2) \<and>
      mem_view (store w2) = apply_batch ms (mem_view (store w))"
    using mem_batch_json [OF assms(1-4)] by blast
  obtain s1 where "MetricsServer_UpdateMetrics (NewMetricsServer (NewMetricService (MemStorage_Storage og oc)))
      (Some (outgoing s)) (to_proto ms) (store w) = (None, s1)" "mem_view s1 = apply_batch ms (mem_view (store w))"
    using mem_svc.grpc_update [OF assms(1), of og oc "Some (outgoing s)" ms] by (auto simp: NewMetricService_def)
  then show ?thesis using http by (auto simp: GRPCSender_SendBatch_def interceptor_admits [OF assms(5,6)])
qed

theorem grpc_equals_http_witness:
  "let ms = [counter_metric ''c'' 5, (gauge_metric ''g'' 0)\<lparr>Value := None\<rparr>, counter_metric ''c'' 3]
   in \<exists>s1 w2. GRPCSender_SendBatch
       (grpc_wire None (MetricsServer_UpdateMetrics (NewMetricsServer (NewMetricService (MemStorage_Storage id id)))))
       \<lparr>glocalIP = ''10.1.2.3''\<rparr> ms (store empty_state) = (None, s1) \<and>
     UpdateMetricsBatch sample_env (mem_handler id id None) (sample_request (the (Marshal_metrics ms))) empty_state =
       ([WriteHeader 200], w2) \<and> mem_view s1 = mem_view (store w2)"
proof -
  let ?ms = "[counter_metric ''c'' 5, (gauge_metric ''g'' 0)\<lparr>Value := None\<rparr>, counter_metric ''c'' 3]"
  have "utf8_valid ''c''" "utf8_valid ''g''" "utf8_valid model_Gauge" "utf8_valid model_Counter" "utf8_valid []" by code_simp+
  then have safe: "list_all json_safe ?ms" by (simp add: json_safe_def)
  obtain bs where bs: "Marshal_metrics ?ms = Some bs" using Decode_Marshal_metrics [OF safe] by auto
  have st: "mem_ok (store empty_state)" and b: "Body (sample_request bs) = (bs, None)"
    by (simp_all add: empty_state_def mem_new sample_request_def)
  have i: "TrustedSubnetInterceptor [] = Inr None" "subnet_admits [] (glocalIP \<lparr>glocalIP = ''10.1.2.3''\<rparr>)"
    by (simp_all add: TrustedSubnetInterceptor_def subnet_admits_def)
  show ?thesis
    using grpc_equals_http [OF st safe bs b i, of id id sample_env None] unfolding Let_def bs option.sel .
qed

text \<open>
  C33. A gRPC request is applied as a whole or not at all (grpcserver/server.go UpdateMetrics): if
  any metric has a type other than gauge and counter, the call fails with \<^verbatim>\<open>InvalidArgument\<close>
  naming the first such metric and nothing is stored; otherwise it succeeds and every metric is
  applied in order.
\<close>

theorem grpc_update_atomic:
  assumes "mem_ok s"
  shows "case find (\<lambda>m. Type m \<noteq> Metric_GAUGE \<and> Type m \<noteq> Metric_COUNTER) req of
      Some m \<Rightarrow> MetricsServer_UpdateMetrics (NewMetricsServer (NewMetricService (MemStorage_Storage og oc))) md req s =
        (Some (Status InvalidArgument ''unknown metric type %v for %q'' [Id m]), s)
    | None \<Rightarrow> \<exists>s'. MetricsServer_UpdateMetrics (NewMetricsServer (NewMetricService (MemStorage_Storage og oc))) md req s = (None, s') \<and>
        mem_ok s' \<and> mem_view s' = apply_batch (map (\<lambda>m. if Type m = Metric_GAUGE then gauge_metric (Id m) (pb_Value m)
          else counter_metric (Id m) (pb_Delta m)) req) (mem_view s)"
proof (cases "find (\<lambda>m. Type m \<noteq> Metric_GAUGE \<and> Type m \<noteq> Metric_COUNTER) req")
  case None
  then show ?thesis
    using mem_svc.update_list [OF assms, of og oc "map (\<lambda>m. if Type m = Metric_GAUGE then gauge_metric (Id m) (pb_Value m)
          else counter_metric (Id m) (pb_Delta m)) req"]
    by (auto simp: MetricsServer_UpdateMetrics_def from_proto_cases NewMetricsServer_def NewMetricService_def)
next
  case (Some m)
  then show ?thesis by (simp add: MetricsServer_UpdateMetrics_def from_proto_cases)
qed

theorem grpc_update_atomic_witness:
  "MetricsServer_UpdateMetrics (NewMetricsServer (NewMetricService (MemStorage_Storage id id))) None
     [\<lparr>Id = ''a'', Type = 1, pb_Delta = 5, pb_Value = 0\<rparr>, \<lparr>Id = ''b'', Type = 7, pb_Delta = 5, pb_Value = 0\<rparr>] NewMemStorage =
   (Some (Status InvalidArgument ''unknown metric type %v for %q'' [''b'']), NewMemStorage)"
  using grpc_update_atomic [OF mem_new(1), of id id None
    "[\<lparr>Id = ''a'', Type = 1, pb_Delta = 5, pb_Value = 0\<rparr>, \<lparr>Id = ''b'', Type = 7, pb_Delta = 5, pb_Value = 0\<rparr>]"]
  by (simp add: Metric_GAUGE_def Metric_COUNTER_def)

text \<open>
  C34. The gRPC interceptor mirrors the HTTP middleware (grpcserver/server.go
  TrustedSubnetInterceptor, against middleware/trusted\_subnet.go): the same configuration is
  rejected by both, is disabled in both, and a call whose \<^verbatim>\<open>x-real-ip\<close> metadata is the text of a
  request's \<^verbatim>\<open>X-Real-IP\<close> header reaches its handler exactly when that request does.
\<close>

theorem interceptor_mirrors_middleware:
  "case (TrustedSubnetInterceptor cidr, TrustedSubnetMiddleware cidr) of
     (Inl e, Inl e') \<Rightarrow> e = e'
   | (Inr None, Inr None) \<Rightarrow> True
   | (Inr (Some f), Inr (Some g)) \<Rightarrow>
       (\<exists>pass.
          (\<forall>handler md req s. f handler md req s =
             (if pass (raw_ip md) then handler md req s
              else (Some (Status PermissionDenied ''ip %q is not in trusted subnet'' [raw_ip md]), s))) \<and>
          (\<forall>next r s. g next r s =
             (if pass (Header_Get (Header r) HeaderXRealIP) then next r s
              else (http_Error ''Forbidden'' 403, log_error ''rejected request from untrusted subnet'' s))))
   | _ \<Rightarrow> False"
proof (cases "cidr = []")
  case True
  then show ?thesis by (simp add: TrustedSubnetInterceptor_def TrustedSubnetMiddleware_def)
next
  case False
  show ?thesis
  proof (cases "ParseCIDR cidr")
    case None
    then show ?thesis using False by (simp add: TrustedSubnetInterceptor_def TrustedSubnetMiddleware_def)
  next
    case (Some n)
    then show ?thesis using False
      by (simp add: TrustedSubnetInterceptor_def TrustedSubnetMiddleware_def Let_def StatusText_def status_defs)
        (rule exI [of _ "\<lambda>raw. case ParseIP raw of Some a \<Rightarrow> IPNet_Contains n a | None \<Rightarrow> False"],
         auto simp: StatusText_def status_defs split: option.split)
  qed
qed

end
