(* ===== verification/DBStorage.thy ===== *)
theory DBStorage
  imports Service Retry
begin

section \<open>The PostgreSQL storage\<close>

text \<open>
  \<^verbatim>\<open>internal/repository/db.go\<close>. The database behind \<^verbatim>\<open>database/sql\<close> is a parameter: a record of
  the calls the code makes, over a state. What the code relies on is stated for the statements
  it sends: \<open>stmt_rows\<close> is the documented meaning of its two upserts on the table that
  \<^verbatim>\<open>migrations/sql\<close> creates, and \<open>pg_spec\<close> says how the calls relate to it when they succeed, fail
  or lose the connection.
\<close>

subsection \<open>The database interface\<close>

datatype sql_arg = Text string | Int8 int64 | Float8 float64

text \<open>A row of \<^verbatim>\<open>SELECT id, mtype, delta, value\<close>; NULL is \<open>None\<close>.\<close>

record sql_row =
  row_id :: string
  row_mtype :: string
  row_delta :: "int64 option"
  row_value :: "float64 option"

text \<open>
  \<open>QueryRow\<close> returns what \<^verbatim>\<open>Scan\<close> does: an error, no row (\<^verbatim>\<open>sql.ErrNoRows\<close>), or a row. \<open>Query\<close> returns
  an error, or the rows in the server's order (\<open>None\<close> where scanning fails) and the final error.
\<close>

record 'd sqldb =
  Exec :: "string \<Rightarrow> sql_arg list \<Rightarrow> 'd \<Rightarrow> 'd eff"
  QueryRow :: "string \<Rightarrow> sql_arg list \<Rightarrow> 'd \<Rightarrow> (error + sql_row option) \<times> 'd"
  Query :: "string \<Rightarrow> 'd \<Rightarrow> (error + sql_row option list \<times> error option) \<times> 'd"
  BeginTx :: "'d \<Rightarrow> 'd eff"
  TxExec :: "string \<Rightarrow> sql_arg list \<Rightarrow> 'd \<Rightarrow> 'd eff"
  TxCommit :: "'d \<Rightarrow> 'd eff"
  TxRollback :: "'d \<Rightarrow> 'd"
  PingContext :: "'d \<Rightarrow> 'd eff"
  db_close :: "'d \<Rightarrow> 'd eff"

definition upsert_gauge :: string where
  "upsert_gauge = ''INSERT INTO metrics (id, mtype, value) VALUES ($1, $2, $3) ON CONFLICT (id, mtype) DO UPDATE SET value = EXCLUDED.value, updated_at = NOW()''"

definition upsert_counter :: string where
  "upsert_counter = ''INSERT INTO metrics (id, mtype, delta) VALUES ($1, $2, $3) ON CONFLICT (id, mtype) DO UPDATE SET delta = metrics.delta + EXCLUDED.delta, updated_at = NOW()''"

definition select_metric :: string where
  "select_metric = ''SELECT id, mtype, delta, value FROM metrics WHERE id = $1 AND mtype = $2''"

definition select_all :: string where
  "select_all = ''SELECT id, mtype, delta, value FROM metrics''"

subsection \<open>internal/repository/db.go\<close>

text \<open>\<^verbatim>\<open>errors.As\<close> for a \<^verbatim>\<open>*pgconn.PgError\<close>; \<open>conn_exc\<close> is \<^verbatim>\<open>pgerrcode.IsConnectionException\<close>.\<close>

fun isRetriablePgError :: "(string \<Rightarrow> bool) \<Rightarrow> error \<Rightarrow> bool" where
  "isRetriablePgError conn_exc (PgError c) = conn_exc c"
| "isRetriablePgError conn_exc (Wrapf _ _ e) = isRetriablePgError conn_exc e"
| "isRetriablePgError conn_exc _ = False"

text \<open>
  \<^verbatim>\<open>internal/config/db/db.go\<close>. \<open>sql_Open\<close> opens a pool for a driver and a DSN, \<open>configure\<close> is the three
  setters, and the migration library is the result of its three constructors and of \<^verbatim>\<open>Up\<close>.
\<close>

record db_Config =
  DSN :: string
  MaxOpenConns :: nat
  MaxIdleConns :: nat
  ConnMaxLifetime :: nat

definition DefaultConfig :: "string \<Rightarrow> db_Config" where
  "DefaultConfig dsn = \<lparr>DSN = dsn, MaxOpenConns = 25, MaxIdleConns = 5, ConnMaxLifetime = 300\<rparr>"

definition db_Connect ::
    "(string \<Rightarrow> string \<Rightarrow> error + 'd sqldb \<times> 'd) \<Rightarrow> (db_Config \<Rightarrow> 'd \<Rightarrow> 'd) \<Rightarrow> db_Config \<Rightarrow> error + 'd sqldb \<times> 'd" where
  "db_Connect sql_Open configure cfg =
     (case sql_Open ''pgx'' (DSN cfg) of
        Inl err \<Rightarrow> Inl (Wrapf ''open db: %w'' [] err)
      | Inr (db, d) \<Rightarrow>
          (case PingContext db (configure cfg d) of
             (Some err, d') \<Rightarrow> Inl (Wrapf ''ping db: %w'' [] err)
           | (None, d') \<Rightarrow> Inr (db, d')))"

definition ErrNoChange :: error where "ErrNoChange = Sentinel ''no change''"

record 'd migrate_lib =
  iofs_New :: "error option"
  WithInstance :: "'d \<Rightarrow> 'd eff"
  NewWithInstance :: "error option"
  migrate_Up :: "'d \<Rightarrow> 'd eff"

definition db_Migrate :: "'d migrate_lib \<Rightarrow> 'd \<Rightarrow> 'd eff" where
  "db_Migrate lib d =
     (case iofs_New lib of
        Some err \<Rightarrow> (Some (Wrapf ''migrations source: %w'' [] err), d)
      | None \<Rightarrow>
          (case WithInstance lib d of
             (Some err, d1) \<Rightarrow> (Some (Wrapf ''migrations driver: %w'' [] err), d1)
           | (None, d1) \<Rightarrow>
               (case NewWithInstance lib of
                  Some err \<Rightarrow> (Some (Wrapf ''migrate init: %w'' [] err), d1)
                | None \<Rightarrow>
                    (case migrate_Up lib d1 of
                       (None, d2) \<Rightarrow> (None, d2)
                     | (Some err, d2) \<Rightarrow>
                         if err = ErrNoChange then (None, d2) else (Some (Wrapf ''migrate up: %w'' [] err), d2)))))"

definition NewDBStorage ::
    "(string \<Rightarrow> string \<Rightarrow> error + 'd sqldb \<times> 'd) \<Rightarrow> (db_Config \<Rightarrow> 'd \<Rightarrow> 'd) \<Rightarrow> 'd migrate_lib \<Rightarrow> string \<Rightarrow>
     error + 'd sqldb \<times> 'd" where
  "NewDBStorage sql_Open configure lib dsn =
     (case db_Connect sql_Open configure (DefaultConfig dsn) of
        Inl err \<Rightarrow> Inl err
      | Inr (db, d) \<Rightarrow>
          (case db_Migrate lib d of
             (Some err, d') \<Rightarrow> Inl (Wrapf ''migrate: %w'' [] err)
           | (None, d') \<Rightarrow> Inr (db, d')))"

definition DBStorage_Ping :: "'d sqldb \<Rightarrow> 'd \<Rightarrow> 'd eff" where
  "DBStorage_Ping db d = PingContext db d"

definition DBStorage_Close :: "'d sqldb \<Rightarrow> 'd \<Rightarrow> 'd eff" where
  "DBStorage_Close db d = db_close db d"

definition DBStorage_UpdateGauge ::
    "'d retry_go \<Rightarrow> (string \<Rightarrow> bool) \<Rightarrow> 'd sqldb \<Rightarrow> 'd \<Rightarrow> string \<Rightarrow> float64 \<Rightarrow> 'd eff" where
  "DBStorage_UpdateGauge rg conn_exc db d name value =
     retry_Do rg (Exec db upsert_gauge [Text name, Text model_Gauge, Float8 value]) (isRetriablePgError conn_exc) d"

definition DBStorage_UpdateCounter ::
    "'d retry_go \<Rightarrow> (string \<Rightarrow> bool) \<Rightarrow> 'd sqldb \<Rightarrow> 'd \<Rightarrow> string \<Rightarrow> int64 \<Rightarrow> 'd eff" where
  "DBStorage_UpdateCounter rg conn_exc db d name value =
     retry_Do rg (Exec db upsert_counter [Text name, Text model_Counter, Int8 value]) (isRetriablePgError conn_exc) d"

text \<open>The loop over the metrics inside the transaction.\<close>

fun db_batch_loop :: "'d sqldb \<Rightarrow> Metrics list \<Rightarrow> 'd \<Rightarrow> 'd eff" where
  "db_batch_loop db [] d = (None, d)"
| "db_batch_loop db (m # ms) d =
     (let run = (\<lambda>q arg. case TxExec db q [Text (ID m), Text (MType m), arg] d of
                   (Some err, d') \<Rightarrow> (Some (Wrapf ''exec metric %s: %w'' [ID m] err), d')
                 | (None, d') \<Rightarrow> db_batch_loop db ms d')
      in if MType m = model_Gauge then
           (case Value m of None \<Rightarrow> db_batch_loop db ms d | Some v \<Rightarrow> run upsert_gauge (Float8 v))
         else if MType m = model_Counter then
           (case Delta m of None \<Rightarrow> db_batch_loop db ms d | Some v \<Rightarrow> run upsert_counter (Int8 v))
         else db_batch_loop db ms d)"

text \<open>One attempt; the deferred \<^verbatim>\<open>Rollback\<close> runs on every way out.\<close>

definition db_batch_attempt :: "'d sqldb \<Rightarrow> Metrics list \<Rightarrow> 'd \<Rightarrow> 'd eff" where
  "db_batch_attempt db ms d =
     (case BeginTx db d of
        (Some err, d1) \<Rightarrow> (Some (Wrapf ''begin tx: %w'' [] err), d1)
      | (None, d1) \<Rightarrow>
          (case db_batch_loop db ms d1 of
             (Some err, d2) \<Rightarrow> (Some err, TxRollback db d2)
           | (None, d2) \<Rightarrow> (case TxCommit db d2 of (err, d3) \<Rightarrow> (err, TxRollback db d3))))"

definition DBStorage_UpdateBatch ::
    "'d retry_go \<Rightarrow> (string \<Rightarrow> bool) \<Rightarrow> 'd sqldb \<Rightarrow> 'd \<Rightarrow> Metrics list \<Rightarrow> 'd eff" where
  "DBStorage_UpdateBatch rg conn_exc db d ms = retry_Do rg (db_batch_attempt db ms) (isRetriablePgError conn_exc) d"

text \<open>The closure writes the local \<^verbatim>\<open>result\<close>, so the retried operation works on it too.\<close>

definition DBStorage_GetMetric ::
    "('d \<times> Metrics option) retry_go \<Rightarrow> (string \<Rightarrow> bool) \<Rightarrow> 'd sqldb \<Rightarrow> 'd \<Rightarrow> string \<Rightarrow> string \<Rightarrow> Metrics option \<times> 'd" where
  "DBStorage_GetMetric rg conn_exc db d name mType =
     (case retry_Do rg
        (\<lambda>(d, result).
           case QueryRow db select_metric [Text name, Text mType] d of
             (Inl err, d') \<Rightarrow> (Some err, (d', result))
           | (Inr None, d') \<Rightarrow> (None, (d', result))
           | (Inr (Some r), d') \<Rightarrow>
               (None, (d', Some \<lparr>ID = row_id r, MType = row_mtype r, Delta = row_delta r, Value = row_value r, Hash = []\<rparr>)))
        (isRetriablePgError conn_exc) (d, None) of
        (Some err, (d', result)) \<Rightarrow> (None, d')
      | (None, (d', result)) \<Rightarrow> (result, d'))"

definition DBStorage_GetValue ::
    "('d \<times> Metrics option) retry_go \<Rightarrow> (string \<Rightarrow> bool) \<Rightarrow> 'd sqldb \<Rightarrow> 'd \<Rightarrow> string \<Rightarrow> string \<Rightarrow> string option \<times> 'd" where
  "DBStorage_GetValue rg conn_exc db d mType name =
     (case DBStorage_GetMetric rg conn_exc db d name mType of
        (None, d') \<Rightarrow> (None, d')
      | (Some m, d') \<Rightarrow>
          (if mType = model_Gauge then map_option Sprintf_g (Value m)
           else if mType = model_Counter then map_option FormatInt (Delta m)
           else None, d'))"

fun db_rows_loop :: "sql_row option list \<Rightarrow> (string, string) gomap \<Rightarrow> (string, string) gomap" where
  "db_rows_loop [] result = result"
| "db_rows_loop (None # rs) result = db_rows_loop rs result"
| "db_rows_loop (Some r # rs) result =
     db_rows_loop rs
       (if row_mtype r = model_Gauge then
          (case row_value r of None \<Rightarrow> result | Some v \<Rightarrow> map_set result (''gauge/'' @ row_id r) (Sprintf_g v))
        else if row_mtype r = model_Counter then
          (case row_delta r of None \<Rightarrow> result | Some v \<Rightarrow> map_set result (''counter/'' @ row_id r) (FormatInt v))
        else result)"

text \<open>A nil map reads like an empty one; the error is dropped.\<close>

definition DBStorage_GetAllMetrics ::
    "('d \<times> (string, string) gomap) retry_go \<Rightarrow> (string \<Rightarrow> bool) \<Rightarrow> 'd sqldb \<Rightarrow> 'd \<Rightarrow> (string, string) gomap \<times> 'd" where
  "DBStorage_GetAllMetrics rg conn_exc db d =
     (case retry_Do rg
        (\<lambda>(d, result).
           case Query db select_all d of
             (Inl err, d') \<Rightarrow> (Some err, (d', result))
           | (Inr (rows, err), d') \<Rightarrow> (err, (d', db_rows_loop rows make_map)))
        (isRetriablePgError conn_exc) (d, make_map) of
        (err, (d', result)) \<Rightarrow> (result, d'))"

definition DBStorage_Storage ::
    "'d retry_go \<Rightarrow> ('d \<times> Metrics option) retry_go \<Rightarrow> ('d \<times> (string, string) gomap) retry_go \<Rightarrow>
     (string \<Rightarrow> bool) \<Rightarrow> 'd sqldb \<Rightarrow> 'd Storage" where
  "DBStorage_Storage rg rg1 rg2 conn_exc db =
     \<lparr>UpdateGauge = DBStorage_UpdateGauge rg conn_exc db, UpdateCounter = DBStorage_UpdateCounter rg conn_exc db,
      UpdateBatch = DBStorage_UpdateBatch rg conn_exc db, GetMetric = DBStorage_GetMetric rg1 conn_exc db,
      GetValue = DBStorage_GetValue rg1 conn_exc db, GetAllMetrics = DBStorage_GetAllMetrics rg2 conn_exc db\<rparr>"

subsection \<open>What PostgreSQL promises\<close>

text \<open>The table, keyed by id and mtype: the columns delta and value.\<close>

type_synonym rows = "string \<times> string \<rightharpoonup> int64 option \<times> float64 option"

text \<open>
  An insert of a new key leaves the other column NULL; on a conflict the update changes only the
  named column. The sum of two bigints out of range is an error, and NULL plus a number is NULL.
\<close>

definition bigint_add :: "int64 \<Rightarrow> int64 \<Rightarrow> int64 option" where
  "bigint_add x y =
     (if - (2 ^ 63) \<le> sint x + sint y \<and> sint x + sint y < 2 ^ 63 then Some (x + y) else None)"

definition gauge_rows :: "string \<Rightarrow> string \<Rightarrow> float64 \<Rightarrow> rows \<Rightarrow> rows" where
  "gauge_rows n ty v r =
     r((n, ty) \<mapsto> (case r (n, ty) of None \<Rightarrow> (None, Some v) | Some (d, _) \<Rightarrow> (d, Some v)))"

definition counter_rows :: "string \<Rightarrow> string \<Rightarrow> int64 \<Rightarrow> rows \<Rightarrow> rows option" where
  "counter_rows n ty v r =
     (case r (n, ty) of
        None \<Rightarrow> Some (r((n, ty) \<mapsto> (Some v, None)))
      | Some (None, x) \<Rightarrow> Some r
      | Some (Some d, x) \<Rightarrow> map_option (\<lambda>s. r((n, ty) \<mapsto> (Some s, x))) (bigint_add d v))"

definition stmt_rows :: "string \<Rightarrow> sql_arg list \<Rightarrow> rows \<Rightarrow> rows option" where
  "stmt_rows q args r =
     (case args of
        [Text n, Text ty, Float8 v] \<Rightarrow> if q = upsert_gauge then Some (gauge_rows n ty v r) else None
      | [Text n, Text ty, Int8 v] \<Rightarrow> if q = upsert_counter then counter_rows n ty v r else None
      | _ \<Rightarrow> None)"

text \<open>
  A statement that succeeds has its effect, one that fails has none, unless the connection was lost:
  then it may have been carried out. A transaction works on its own copy until it is
  committed; a commit whose connection is lost may have been carried out.
\<close>

definition pg_spec :: "(string \<Rightarrow> bool) \<Rightarrow> 'd sqldb \<Rightarrow> ('d \<Rightarrow> rows) \<Rightarrow> ('d \<Rightarrow> rows) \<Rightarrow> bool" where
  "pg_spec conn_exc db rows pend \<longleftrightarrow>
     (\<forall>q args d. case Exec db q args d of
        (None, d') \<Rightarrow> stmt_rows q args (rows d) = Some (rows d')
      | (Some e, d') \<Rightarrow> rows d' = rows d \<or>
          isRetriablePgError conn_exc e \<and> stmt_rows q args (rows d) = Some (rows d')) \<and>
     (\<forall>d. case BeginTx db d of (None, d') \<Rightarrow> rows d' = rows d \<and> pend d' = rows d | (Some e, d') \<Rightarrow> rows d' = rows d) \<and>
     (\<forall>q args d. case TxExec db q args d of
        (None, d') \<Rightarrow> rows d' = rows d \<and> stmt_rows q args (pend d) = Some (pend d')
      | (Some e, d') \<Rightarrow> rows d' = rows d) \<and>
     (\<forall>d. case TxCommit db d of
        (None, d') \<Rightarrow> rows d' = pend d
      | (Some e, d') \<Rightarrow> rows d' = rows d \<or> isRetriablePgError conn_exc e \<and> rows d' = pend d) \<and>
     (\<forall>d. rows (TxRollback db d) = rows d)"

text \<open>No connection is lost: a failed call had no effect.\<close>

definition no_loss :: "'d sqldb \<Rightarrow> ('d \<Rightarrow> rows) \<Rightarrow> bool" where
  "no_loss db rows \<longleftrightarrow>
     (\<forall>q args d e d'. Exec db q args d = (Some e, d') \<longrightarrow> rows d' = rows d) \<and>
     (\<forall>d e d'. TxCommit db d = (Some e, d') \<longrightarrow> rows d' = rows d)"

subsection \<open>The abstract table\<close>

definition rows_ok :: "rows \<Rightarrow> bool" where
  "rows_ok r \<longleftrightarrow>
     (\<forall>n ty x y. r (n, ty) = Some (x, y) \<longrightarrow>
        ty = model_Gauge \<and> x = None \<and> y \<noteq> None \<or> ty = model_Counter \<and> x \<noteq> None \<and> y = None)"

definition rows_view :: "rows \<Rightarrow> table" where
  "rows_view r =
     \<lparr>gauge_of = (\<lambda>n. Option.bind (r (n, model_Gauge)) snd),
      counter_of = (\<lambda>n. Option.bind (r (n, model_Counter)) fst)\<rparr>"

lemma rows_okI:
  "(\<And>n ty x y. r (n, ty) = Some (x, y) \<Longrightarrow>
      ty = model_Gauge \<and> x = None \<and> y \<noteq> None \<or> ty = model_Counter \<and> x \<noteq> None \<and> y = None) \<Longrightarrow> rows_ok r"
  unfolding rows_ok_def by blast

lemma rows_okD:
  "rows_ok r \<Longrightarrow> r (n, ty) = Some (x, y) \<Longrightarrow>
     ty = model_Gauge \<and> x = None \<and> y \<noteq> None \<or> ty = model_Counter \<and> x \<noteq> None \<and> y = None"
  unfolding rows_ok_def by blast

lemma gauge_rows_view:
  assumes "rows_ok r"
  shows "rows_ok (gauge_rows n model_Gauge v r)" "rows_view (gauge_rows n model_Gauge v r) = put_gauge n v (rows_view r)"
proof -
  show "rows_ok (gauge_rows n model_Gauge v r)"
    by (rule rows_okI) (auto simp: gauge_rows_def split: if_splits option.splits dest: rows_okD [OF assms])
  show "rows_view (gauge_rows n model_Gauge v r) = put_gauge n v (rows_view r)"
    by (auto simp: rows_view_def gauge_rows_def put_gauge_def split: option.splits)
qed

lemma counter_rows_view:
  assumes "rows_ok r" and "counter_rows n model_Counter v r = Some r'"
  shows "rows_ok r'" "rows_view r' = add_counter n v (rows_view r)"
proof -
  have r': "r' = r((n, model_Counter) \<mapsto> (Some (counter_total (rows_view r) n + v), None))"
    using assms rows_okD [OF assms(1), of n model_Counter]
    by (auto simp: counter_rows_def bigint_add_def counter_total_def rows_view_def split: option.splits if_splits)
  show "rows_ok r'" unfolding r'
    by (rule rows_okI) (auto split: if_splits dest: rows_okD [OF assms(1)])
  show "rows_view r' = add_counter n v (rows_view r)"
    unfolding r' by (auto simp: rows_view_def add_counter_def counter_total_def)
qed

subsection \<open>Retried updates\<close>

text \<open>
  An operation that has its effect when it succeeds and has it or not when it fails: retried, it
  has had it some number of times, at least once when the result is nil.
\<close>

lemma retry_iterates:
  assumes "\<And>d e d'. I d \<Longrightarrow> fn d = (e, d') \<Longrightarrow>
      I d' \<and> (v d' = f (v d) \<or> e \<noteq> None \<and> v d' = v d)"
    and "I d" and "0 < n"
  shows "case retry_loop (\<lambda>_ x. x) b fn n p dl i d of
    (e, d') \<Rightarrow> I d' \<and> (\<exists>k \<le> n. v d' = (f ^^ k) (v d) \<and> (e = None \<longrightarrow> 0 < k))"
  using assms(2,3)
proof (induction n arbitrary: d i)
  case (Suc n)
  obtain e d' where fd: "fn d = (e, d')" by fastforce
  note a = assms(1) [OF Suc.prems(1) fd]
  obtain j where j: "j \<le> 1" "v d' = (f ^^ j) (v d)" "e = None \<longrightarrow> 0 < j"
  proof (cases "v d' = f (v d)")
    case True
    then show ?thesis using that [of 1] by simp
  next
    case False
    then show ?thesis using a that [of 0] by simp
  qed
  show ?case
  proof (cases "e = None \<or> n = 0 \<or> (\<exists>x. e = Some x \<and> \<not> p x)")
    case True
    then have "retry_loop (\<lambda>_ x. x) b fn (Suc n) p dl i d = (e, d')" using fd by (auto split: option.split)
    moreover have "j \<le> Suc n" using j(1) by simp
    ultimately show ?thesis using a j by (auto intro!: exI [of _ j])
  next
    case False
    then obtain x where x: "e = Some x" "0 < n" "p x" by (cases e) auto
    then have loop: "retry_loop (\<lambda>_ x. x) b fn (Suc n) p dl i d = retry_loop (\<lambda>_ x. x) b fn n p dl (i + 1) d'" using fd by simp
    obtain e'' d'' k where r: "retry_loop (\<lambda>_ x. x) b fn n p dl (i + 1) d' = (e'', d'')" "I d''" "k \<le> n"
      "v d'' = (f ^^ k) (v d')" "e'' = None \<longrightarrow> 0 < k"
      using Suc.IH [OF _ x(2), of d' "i + 1"] a by (auto split: prod.splits)
    have "v d'' = (f ^^ (k + j)) (v d)" using r(4) j(2) by (simp add: funpow_add)
    moreover have "k + j \<le> Suc n" using r(3) j(1) by simp
    moreover have "e'' = None \<longrightarrow> 0 < k + j" using r(5) by simp
    ultimately show ?thesis unfolding loop r(1) using r(2) by blast
  qed
qed simp

text \<open>
  When failed attempts have no effect, the result is that of an attempt from a state that looks
  like the first one.
\<close>

lemma retry_last:
  assumes "\<And>d e d'. I d \<Longrightarrow> fn d = (Some e, d') \<Longrightarrow> I d' \<and> v d' = v d"
    and "I d" and "0 < n"
  shows "\<exists>d0. I d0 \<and> v d0 = v d \<and> fn d0 = retry_loop (\<lambda>_ x. x) b fn n p dl i d"
  using assms(2,3)
proof (induction n arbitrary: d i)
  case (Suc n)
  obtain e d' where fd: "fn d = (e, d')" by fastforce
  show ?case
  proof (cases "e = None \<or> n = 0 \<or> (\<exists>x. e = Some x \<and> \<not> p x)")
    case True
    then have "retry_loop (\<lambda>_ x. x) b fn (Suc n) p dl i d = fn d" using fd by (auto split: option.split)
    then show ?thesis using Suc.prems(1) by metis
  next
    case False
    then obtain x where x: "e = Some x" "0 < n" "p x" by (cases e) auto
    have "I d'" "v d' = v d" using assms(1) [OF Suc.prems(1)] fd x(1) by auto
    then show ?thesis using Suc.IH [OF _ x(2), of d' "i + 1"] fd x by simp
  qed
qed simp

subsection \<open>One attempt\<close>

lemma pg_specD:
  assumes "pg_spec conn_exc db rows pend"
  shows "Exec db q args d = (e, d') \<Longrightarrow> stmt_rows q args (rows d) = Some (rows d') \<or> e \<noteq> None \<and> rows d' = rows d"
    and "BeginTx db d = (e, d') \<Longrightarrow> rows d' = rows d \<and> (e = None \<longrightarrow> pend d' = rows d)"
    and "TxExec db q args d = (e, d') \<Longrightarrow> rows d' = rows d \<and> (e = None \<longrightarrow> stmt_rows q args (pend d) = Some (pend d'))"
    and "TxCommit db d = (e, d') \<Longrightarrow> rows d' = pend d \<or> e \<noteq> None \<and> rows d' = rows d"
    and "rows (TxRollback db d) = rows d"
proof -
  note pg = assms [unfolded pg_spec_def]
  show "Exec db q args d = (e, d') \<Longrightarrow> stmt_rows q args (rows d) = Some (rows d') \<or> e \<noteq> None \<and> rows d' = rows d"
    using pg [THEN conjunct1, rule_format, where q = q and args = args and d = d] by (cases e) auto
  show "BeginTx db d = (e, d') \<Longrightarrow> rows d' = rows d \<and> (e = None \<longrightarrow> pend d' = rows d)"
    using pg [THEN conjunct2, THEN conjunct1, rule_format, where d = d] by (cases e) auto
  show "TxExec db q args d = (e, d') \<Longrightarrow> rows d' = rows d \<and> (e = None \<longrightarrow> stmt_rows q args (pend d) = Some (pend d'))"
    using pg [THEN conjunct2, THEN conjunct2, THEN conjunct1, rule_format, where q = q and args = args and d = d] by (cases e) auto
  show "TxCommit db d = (e, d') \<Longrightarrow> rows d' = pend d \<or> e \<noteq> None \<and> rows d' = rows d"
    using pg [THEN conjunct2, THEN conjunct2, THEN conjunct2, THEN conjunct1, rule_format, where d = d] by (cases e) auto
  show "rows (TxRollback db d) = rows d" using pg by blast
qed

lemma stmt_rows_upsert [simp]:
  "stmt_rows upsert_gauge [Text n, Text ty, Float8 v] r = Some (gauge_rows n ty v r)"
  "stmt_rows upsert_counter [Text n, Text ty, Int8 x] r = counter_rows n ty x r"
  by (simp_all add: stmt_rows_def)

text \<open>The loop applies to the transaction's copy exactly what the batch does to the table.\<close>

lemma db_batch_loop_spec:
  assumes "pg_spec conn_exc db rows pend"
  shows "rows_ok (pend d) \<Longrightarrow> db_batch_loop db ms d = (e, d') \<Longrightarrow>
    rows d' = rows d \<and> (e = None \<longrightarrow> rows_ok (pend d') \<and> rows_view (pend d') = apply_batch ms (rows_view (pend d)))"
proof (induction ms arbitrary: d)
  case (Cons m ms)
  consider v where "MType m = model_Gauge" "Value m = Some v" | v where "MType m = model_Counter" "Delta m = Some v"
    | "db_batch_loop db (m # ms) d = db_batch_loop db ms d" "apply_metric m (rows_view (pend d)) = rows_view (pend d)"
    by (cases "MType m = model_Gauge"; cases "MType m = model_Counter"; cases "Value m"; cases "Delta m")
      (auto simp: apply_metric_def)
  then show ?case
  proof cases
    case 1
    obtain e1 d1 where x: "TxExec db upsert_gauge [Text (ID m), Text (MType m), Float8 v] d = (e1, d1)" by fastforce
    note t = pg_specD(3) [OF assms x]
    show ?thesis
    proof (cases e1)
      case None
      then have "pend d1 = gauge_rows (ID m) model_Gauge v (pend d)" using t 1 by simp
      then have p: "rows_ok (pend d1)" "rows_view (pend d1) = apply_metric m (rows_view (pend d))"
        using gauge_rows_view [OF Cons.prems(1)] 1 by (simp_all add: apply_metric_def)
      then show ?thesis using Cons.IH [OF p(1)] Cons.prems(2) 1 x None t by (simp add: Let_def)
    qed (use Cons.prems(2) 1 x t in auto)
  next
    case 2
    obtain e1 d1 where x: "TxExec db upsert_counter [Text (ID m), Text (MType m), Int8 v] d = (e1, d1)" by fastforce
    note t = pg_specD(3) [OF assms x]
    show ?thesis
    proof (cases e1)
      case None
      then have "counter_rows (ID m) model_Counter v (pend d) = Some (pend d1)" using t 2 by simp
      then have p: "rows_ok (pend d1)" "rows_view (pend d1) = apply_metric m (rows_view (pend d))"
        using counter_rows_view [OF Cons.prems(1)] 2 by (simp_all add: apply_metric_def)
      then show ?thesis using Cons.IH [OF p(1)] Cons.prems(2) 2 x None t by (simp add: Let_def)
    qed (use Cons.prems(2) 2 x t in auto)
  next
    case 3
    then show ?thesis using Cons.IH [OF Cons.prems(1)] Cons.prems(2) by simp
  qed
qed simp

lemma db_batch_attempt_spec:
  assumes "pg_spec conn_exc db rows pend" and "rows_ok (rows d)" and "db_batch_attempt db ms d = (e, d')"
  shows "rows_ok (rows d') \<and>
    (rows_view (rows d') = apply_batch ms (rows_view (rows d)) \<or> e \<noteq> None \<and> rows_view (rows d') = rows_view (rows d))"
    and "no_loss db rows \<Longrightarrow>
      rows_view (rows d') = (if e = None then apply_batch ms (rows_view (rows d)) else rows_view (rows d))"
proof -
  obtain e1 d1 where b: "BeginTx db d = (e1, d1)" by fastforce
  obtain e2 d2 where l: "db_batch_loop db ms d1 = (e2, d2)" by fastforce
  obtain e3 d3 where c: "TxCommit db d2 = (e3, d3)" by fastforce
  note spec = pg_specD [OF assms(1)]
  have d1: "rows d1 = rows d" "e1 = None \<Longrightarrow> pend d1 = rows d" using spec(2) [OF b] by auto
  have d2: "rows d2 = rows d" "e2 = None \<Longrightarrow> rows_ok (pend d2) \<and> rows_view (pend d2) = apply_batch ms (rows_view (rows d))"
    if "e1 = None" using db_batch_loop_spec [OF assms(1) _ l] d1 that assms(2) by auto
  consider "e1 \<noteq> None" "e \<noteq> None" "d' = d1" | "e1 = None" "e2 \<noteq> None" "e \<noteq> None" "d' = TxRollback db d2"
    | "e1 = None" "e2 = None" "e = e3" "d' = TxRollback db d3"
    using assms(3) b l c by (cases e1; cases e2) (auto simp: db_batch_attempt_def)
  note cases = this
  from cases show "rows_ok (rows d') \<and>
    (rows_view (rows d') = apply_batch ms (rows_view (rows d)) \<or> e \<noteq> None \<and> rows_view (rows d') = rows_view (rows d))"
    by cases (use assms(2) d1 d2 spec(4) [OF c] spec(5) in auto)
  show "rows_view (rows d') = (if e = None then apply_batch ms (rows_view (rows d)) else rows_view (rows d))"
    if nl: "no_loss db rows"
    using cases
  proof cases
    case 3
    have "e3 \<noteq> None \<Longrightarrow> rows d3 = rows d2" using nl c by (auto simp: no_loss_def)
    then show ?thesis using 3 d2 spec(4) [OF c] spec(5) by auto
  qed (use d1 d2 spec(5) in auto)
qed

lemma db_counter_attempt:
  assumes "pg_spec conn_exc db rows pend" and "rows_ok (rows d)"
    and "Exec db upsert_counter [Text n, Text model_Counter, Int8 x] d = (e, d')"
  shows "rows_ok (rows d') \<and>
    (rows_view (rows d') = add_counter n x (rows_view (rows d)) \<or> e \<noteq> None \<and> rows_view (rows d') = rows_view (rows d))"
  using pg_specD(1) [OF assms(1,3)] counter_rows_view [OF assms(2)] assms(2) by auto

lemma db_gauge_attempt:
  assumes "pg_spec conn_exc db rows pend" and "rows_ok (rows d)"
    and "Exec db upsert_gauge [Text n, Text model_Gauge, Float8 x] d = (e, d')"
  shows "rows_ok (rows d') \<and>
    (rows_view (rows d') = put_gauge n x (rows_view (rows d)) \<or> e \<noteq> None \<and> rows_view (rows d') = rows_view (rows d))"
  using pg_specD(1) [OF assms(1,3)] gauge_rows_view [OF assms(2), of n x] assms(2)
  by (metis option.inject stmt_rows_upsert(1))

subsection \<open>Reads\<close>

text \<open>
  What the two queries return, while the connection holds: the row with the given key, if there
  is one, and all rows in some order.
\<close>

definition pg_reads :: "'d sqldb \<Rightarrow> ('d \<Rightarrow> rows) \<Rightarrow> 'd \<Rightarrow> bool" where
  "pg_reads db rows d \<longleftrightarrow>
     (\<forall>n ty. QueryRow db select_metric [Text n, Text ty] d =
        (Inr (map_option (\<lambda>(x, y). \<lparr>row_id = n, row_mtype = ty, row_delta = x, row_value = y\<rparr>) (rows d (n, ty))), d)) \<and>
     (\<exists>rs. Query db select_all d = (Inr (map Some rs, None), d) \<and>
        distinct (map (\<lambda>r. (row_id r, row_mtype r)) rs) \<and>
        (\<forall>r. r \<in> set rs \<longleftrightarrow> rows d (row_id r, row_mtype r) = Some (row_delta r, row_value r)))"

lemma retry_success:
  assumes "retry_go_spec sleep rg" and "fn s = (None, s')"
  shows "retry_Do rg fn p s = (None, s')"
proof -
  obtain b d where "\<And>fn p s. retry_Do rg fn p s = retry_loop sleep b fn 4 p d 0 s"
    using retry_go_loop [OF assms(1)] by blast
  then show ?thesis using assms(2) by (simp add: numeral_eq_Suc)
qed

lemma db_get_metric:
  assumes "pg_reads db rows d" and "retry_go_spec sleep rg" and "rows_ok (rows d)"
  shows "DBStorage_GetMetric rg conn_exc db d n ty = (table_metric (rows_view (rows d)) n ty, d)"
proof -
  let ?fn = "\<lambda>(d, result).
           case QueryRow db select_metric [Text n, Text ty] d of
             (Inl err, d') \<Rightarrow> (Some err, (d', result))
           | (Inr None, d') \<Rightarrow> (None, (d', result))
           | (Inr (Some r), d') \<Rightarrow>
               (None, (d', Some \<lparr>ID = row_id r, MType = row_mtype r, Delta = row_delta r, Value = row_value r, Hash = []\<rparr>))"
  have q: "QueryRow db select_metric [Text n, Text ty] d =
      (Inr (map_option (\<lambda>(x, y). \<lparr>row_id = n, row_mtype = ty, row_delta = x, row_value = y\<rparr>) (rows d (n, ty))), d)"
    using assms(1) by (simp add: pg_reads_def)
  have "?fn (d, None) = (None, (d, table_metric (rows_view (rows d)) n ty))"
  proof (cases "rows d (n, ty)")
    case None
    then show ?thesis by (auto simp: q table_metric_def rows_view_def)
  next
    case (Some xy)
    obtain x y where "xy = (x, y)" by (cases xy)
    then show ?thesis using rows_okD [OF assms(3), of n ty x y] Some
      by (auto simp: q table_metric_def rows_view_def)
  qed
  from retry_success [where fn = ?fn, OF assms(2) this] show ?thesis
    unfolding DBStorage_GetMetric_def by simp
qed

lemma db_get_value:
  assumes "pg_reads db rows d" and "retry_go_spec sleep rg" and "rows_ok (rows d)"
  shows "DBStorage_GetValue rg conn_exc db d ty n = (table_value Sprintf_g (rows_view (rows d)) ty n, d)"
  unfolding DBStorage_GetValue_def db_get_metric [OF assms]
  by (auto simp: table_metric_def table_value_def split: option.split)

text \<open>The entry a row makes.\<close>

definition row_entry :: "sql_row \<Rightarrow> (string \<times> string) option" where
  "row_entry r =
     (if row_mtype r = model_Gauge then map_option (\<lambda>v. (''gauge/'' @ row_id r, Sprintf_g v)) (row_value r)
      else if row_mtype r = model_Counter then map_option (\<lambda>v. (''counter/'' @ row_id r, FormatInt v)) (row_delta r)
      else None)"

lemma db_rows_loop_foldl:
  "db_rows_loop (map Some rs) m = foldl (\<lambda>m (k, v). map_set m k v) m (List.map_filter row_entry rs)"
  by (induction rs arbitrary: m) (auto simp: row_entry_def split: option.split)

lemma row_entry_distinct:
  assumes "distinct (map (\<lambda>r. (row_id r, row_mtype r)) rs)"
  shows "wf_map (List.map_filter row_entry rs)"
  using assms
proof (induction rs)
  case (Cons r rs)
  have "k \<notin> fst ` set (List.map_filter row_entry rs)" if "row_entry r = Some (k, v)" for k v
  proof
    assume "k \<in> fst ` set (List.map_filter row_entry rs)"
    then obtain r' v' where r': "r' \<in> set rs" "row_entry r' = Some (k, v')" by (auto simp: List.map_filter_def)
    then have "row_id r' = row_id r \<and> row_mtype r' = row_mtype r"
      using that by (auto simp: row_entry_def split: if_splits)
    then show False using Cons.prems r'(1) by (auto simp: image_iff)
  qed
  then show ?case using Cons by (cases "row_entry r") (force simp: wf_map_def)+
qed (simp add: wf_map_def)

lemma db_get_all:
  assumes "pg_reads db rows d" and "retry_go_spec sleep rg" and "rows_ok (rows d)"
  shows "\<exists>m. DBStorage_GetAllMetrics rg conn_exc db d = (m, d) \<and> wf_map m \<and>
    (\<forall>k v. map_get m k = Some v \<longleftrightarrow>
       (\<exists>ty n. k = ty @ CHR ''/'' # n \<and> table_value Sprintf_g (rows_view (rows d)) ty n = Some v))"
proof -
  let ?fn = "\<lambda>(d, result).
           case Query db select_all d of
             (Inl err, d') \<Rightarrow> (Some err, (d', result))
           | (Inr (rows, err), d') \<Rightarrow> (err, (d', db_rows_loop rows make_map))"
  obtain rs where rs: "Query db select_all d = (Inr (map Some rs, None), d)"
    "distinct (map (\<lambda>r. (row_id r, row_mtype r)) rs)"
    "\<And>r. r \<in> set rs \<longleftrightarrow> rows d (row_id r, row_mtype r) = Some (row_delta r, row_value r)"
    using assms(1) unfolding pg_reads_def by blast
  define es where "es = List.map_filter row_entry rs"
  define m where "m = foldl (\<lambda>m (k, v). map_set m k v) make_map es"
  have wf: "wf_map es" unfolding es_def by (rule row_entry_distinct [OF rs(2)])
  have "?fn (d, make_map) = (None, (d, m))" by (simp add: rs(1) m_def es_def db_rows_loop_foldl)
  from retry_success [where fn = ?fn, OF assms(2) this]
  have "DBStorage_GetAllMetrics rg conn_exc db d = (m, d)" unfolding DBStorage_GetAllMetrics_def by simp
  moreover have "wf_map m" using foldl_map_set_wf [of make_map "\<lambda>k. k" "\<lambda>v. v" es] by (simp add: m_def)
  moreover have "map_get m k = Some v \<longleftrightarrow> (k, v) \<in> set es" for k v
    using foldl_map_set_Some [of "\<lambda>k. k" es "\<lambda>v. v" make_map k v] wf by (simp add: m_def)
  moreover have "(k, v) \<in> set es \<longleftrightarrow>
      (\<exists>ty n. k = ty @ CHR ''/'' # n \<and> table_value Sprintf_g (rows_view (rows d)) ty n = Some v)" for k v
  proof
    assume "(k, v) \<in> set es"
    then obtain r where "r \<in> set rs" "row_entry r = Some (k, v)" by (auto simp: es_def List.map_filter_def)
    then show "\<exists>ty n. k = ty @ CHR ''/'' # n \<and> table_value Sprintf_g (rows_view (rows d)) ty n = Some v"
      by (intro exI [of _ "row_mtype r"] exI [of _ "row_id r"])
        (auto simp: rs(3) row_entry_def table_value_def rows_view_def model_Gauge_def model_Counter_def split: if_splits)
  next
    assume "\<exists>ty n. k = ty @ CHR ''/'' # n \<and> table_value Sprintf_g (rows_view (rows d)) ty n = Some v"
    then obtain ty n where tn: "k = ty @ CHR ''/'' # n" "table_value Sprintf_g (rows_view (rows d)) ty n = Some v" by blast
    then obtain x y where xy: "rows d (n, ty) = Some (x, y)"
      by (cases "rows d (n, ty)") (auto simp: table_value_def rows_view_def split: if_splits)
    let ?r = "\<lparr>row_id = n, row_mtype = ty, row_delta = x, row_value = y\<rparr>"
    have "?r \<in> set rs" using xy by (simp add: rs(3))
    moreover have "row_entry ?r = Some (k, v)"
      using tn xy rows_okD [OF assms(3) xy]
      by (auto simp: row_entry_def table_value_def rows_view_def model_Gauge_def model_Counter_def)
    ultimately show "(k, v) \<in> set es" by (force simp: es_def List.map_filter_def)
  qed
  ultimately show ?thesis by blast
qed

subsection \<open>A reference database\<close>

text \<open>
  A database in memory with the documented behaviour: the committed rows and the copy of the
  open transaction. It shows that the hypotheses can hold, and over it the storage keeps the
  laws of the queries.
\<close>

type_synonym ref_state = "(string \<times> string, int64 option \<times> float64 option) gomap \<times> (string \<times> string, int64 option \<times> float64 option) gomap"

definition ref_stmt :: "string \<Rightarrow> sql_arg list \<Rightarrow> (string \<times> string, int64 option \<times> float64 option) gomap \<Rightarrow>
    (string \<times> string, int64 option \<times> float64 option) gomap option" where
  "ref_stmt q args l =
     (case args of
        [Text n, Text ty, Float8 v] \<Rightarrow>
          if q = upsert_gauge then
            Some (map_set l (n, ty) (case map_get l (n, ty) of None \<Rightarrow> (None, Some v) | Some (d, _) \<Rightarrow> (d, Some v)))
          else None
      | [Text n, Text ty, Int8 v] \<Rightarrow>
          if q = upsert_counter then
            (case map_get l (n, ty) of
               None \<Rightarrow> Some (map_set l (n, ty) (Some v, None))
             | Some (None, x) \<Rightarrow> Some l
             | Some (Some d, x) \<Rightarrow> map_option (\<lambda>s. map_set l (n, ty) (Some s, x)) (bigint_add d v))
          else None
      | _ \<Rightarrow> None)"

definition ref_row :: "(string \<times> string) \<times> (int64 option \<times> float64 option) \<Rightarrow> sql_row" where
  "ref_row e = (case e of ((n, ty), (x, y)) \<Rightarrow> \<lparr>row_id = n, row_mtype = ty, row_delta = x, row_value = y\<rparr>)"

definition ref_db :: "ref_state sqldb" where
  "ref_db =
     \<lparr>Exec = (\<lambda>q args (l, p). case ref_stmt q args l of Some l' \<Rightarrow> (None, (l', p)) | None \<Rightarrow> (Some (PgError ''22003''), (l, p))),
      QueryRow = (\<lambda>q args (l, p). (Inr (case args of
          [Text n, Text ty] \<Rightarrow> map_option (\<lambda>c. ref_row ((n, ty), c)) (map_get l (n, ty)) | _ \<Rightarrow> None), (l, p))),
      Query = (\<lambda>q (l, p). (Inr (map (\<lambda>e. Some (ref_row e)) l, None), (l, p))),
      BeginTx = (\<lambda>(l, p). (None, (l, l))),
      TxExec = (\<lambda>q args (l, p). case ref_stmt q args p of Some p' \<Rightarrow> (None, (l, p')) | None \<Rightarrow> (Some (PgError ''22003''), (l, p))),
      TxCommit = (\<lambda>(l, p). (None, (p, p))), TxRollback = (\<lambda>(l, p). (l, p)),
      PingContext = (\<lambda>d. (None, d)), db_close = (\<lambda>d. (None, d))\<rparr>"

definition ref_rows :: "ref_state \<Rightarrow> rows" where
  "ref_rows d = map_get (fst d)"

definition ref_pend :: "ref_state \<Rightarrow> rows" where
  "ref_pend d = map_get (snd d)"

lemma ref_stmt_rows: "map_option map_get (ref_stmt q args l) = stmt_rows q args (map_get l)"
  by (simp add: ref_stmt_def stmt_rows_def gauge_rows_def counter_rows_def option.map_comp o_def
      split: list.split sql_arg.split option.split)

lemma ref_stmt_Some: "ref_stmt q args l = Some l' \<Longrightarrow> stmt_rows q args (map_get l) = Some (map_get l')"
  using ref_stmt_rows [of q args l] by simp

lemma ref_pg_spec: "pg_spec conn_exc ref_db ref_rows ref_pend"
  by (auto simp: pg_spec_def ref_db_def ref_rows_def ref_pend_def split: option.split dest: ref_stmt_Some)

lemma ref_no_loss: "no_loss ref_db ref_rows"
  by (auto simp: no_loss_def ref_db_def ref_rows_def split: option.splits prod.splits)

definition ref_ok :: "ref_state \<Rightarrow> bool" where
  "ref_ok d \<longleftrightarrow> wf_map (fst d) \<and> rows_ok (ref_rows d)"

lemma ref_query_rows:
  assumes "wf_map l"
  shows "distinct (map (\<lambda>r. (row_id r, row_mtype r)) (map ref_row l))"
    "r \<in> set (map ref_row l) \<longleftrightarrow> map_get l (row_id r, row_mtype r) = Some (row_delta r, row_value r)"
proof -
  have k: "(\<lambda>r. (row_id r, row_mtype r)) \<circ> ref_row = fst" by (auto simp: ref_row_def fun_eq_iff)
  show "distinct (map (\<lambda>r. (row_id r, row_mtype r)) (map ref_row l))" using assms by (simp add: k wf_map_def)
  show "r \<in> set (map ref_row l) \<longleftrightarrow> map_get l (row_id r, row_mtype r) = Some (row_delta r, row_value r)"
    by (auto simp: wf_map_in_iff [OF assms, symmetric] ref_row_def image_iff split: prod.splits intro!: bexI)
qed

lemma ref_reads: "wf_map (fst d) \<Longrightarrow> pg_reads ref_db ref_rows d"
proof -
  assume wf: "wf_map (fst d)"
  obtain l p where d: "d = (l, p)" by (cases d)
  have "QueryRow ref_db select_metric [Text n, Text ty] d =
      (Inr (map_option (\<lambda>(x, y). \<lparr>row_id = n, row_mtype = ty, row_delta = x, row_value = y\<rparr>) (ref_rows d (n, ty))), d)" for n ty
    by (simp add: ref_db_def d ref_rows_def ref_row_def split: option.split)
  moreover have "Query ref_db select_all d = (Inr (map Some (map ref_row l), None), d)"
    by (simp add: ref_db_def d o_def)
  moreover have "wf_map l" using wf by (simp add: d)
  ultimately show ?thesis
    unfolding pg_reads_def using ref_query_rows [of l] by (intro conjI exI [of _ "map ref_row l"]) (simp_all add: d ref_rows_def)
qed

abbreviation ref_storage :: "ref_state Storage" where
  "ref_storage \<equiv> DBStorage_Storage sample_retry_go sample_retry_go sample_retry_go (\<lambda>_. False) ref_db"

interpretation db: storage_queries ref_storage "\<lambda>d. rows_view (ref_rows d)" ref_ok Sprintf_g
proof (unfold_locales, goal_cases)
  case (1 s n ty)
  then show ?case
    by (simp add: DBStorage_Storage_def ref_ok_def db_get_metric [OF ref_reads sample_retry_go_spec])
next
  case (2 s ty n)
  then show ?case
    by (simp add: DBStorage_Storage_def ref_ok_def db_get_value [OF ref_reads sample_retry_go_spec])
next
  case (3 s)
  then show ?case
    using db_get_all [OF ref_reads sample_retry_go_spec, of s "\<lambda>_. False"] by (auto simp: DBStorage_Storage_def ref_ok_def)
next
  case (4 s)
  then show ?case
    using db_get_all [OF ref_reads sample_retry_go_spec, of s "\<lambda>_. False"] by (auto simp: DBStorage_Storage_def ref_ok_def)
next
  case (5 s k v)
  then obtain m where "DBStorage_GetAllMetrics sample_retry_go (\<lambda>_. False) ref_db s = (m, s)"
    "\<And>k v. map_get m k = Some v \<longleftrightarrow>
       (\<exists>ty n. k = ty @ CHR ''/'' # n \<and> table_value Sprintf_g (rows_view (ref_rows s)) ty n = Some v)"
    using db_get_all [OF ref_reads sample_retry_go_spec, of s "\<lambda>_. False"] unfolding ref_ok_def by blast
  then show ?case by (simp add: DBStorage_Storage_def)
qed

subsection \<open>Properties\<close>

text \<open>
  C4. A batch in the database is atomic and at least once (db.go UpdateBatch): whatever the server
  does, the table afterwards is the old one with the whole batch applied \<open>k\<close> times, never a part
  of it; \<open>k\<close> is at most four, and positive when \<^verbatim>\<open>UpdateBatch\<close> returns nil. If no connection is
  lost during a commit, the batch is applied exactly once when the result is nil and not at all
  otherwise. The well-formedness of the rows is kept in every case.
\<close>

theorem db_batch_atomic:
  assumes "pg_spec conn_exc db rows pend" and "retry_go_spec (\<lambda>_ x. x) rg" and "rows_ok (rows d)"
    and "DBStorage_UpdateBatch rg conn_exc db d ms = (e, d')"
  shows "rows_ok (rows d') \<and>
    (\<exists>k \<le> 4. rows_view (rows d') = (apply_batch ms ^^ k) (rows_view (rows d)) \<and> (e = None \<longrightarrow> 0 < k)) \<and>
    (no_loss db rows \<longrightarrow>
       rows_view (rows d') = (if e = None then apply_batch ms (rows_view (rows d)) else rows_view (rows d)))"
proof -
  obtain b dl where r: "\<And>fn p s. retry_Do rg fn p s = retry_loop (\<lambda>_ x. x) b fn 4 p dl 0 s"
    using retry_go_loop [OF assms(2)] by blast
  let ?I = "\<lambda>d. rows_ok (rows d)"
  let ?v = "\<lambda>d. rows_view (rows d)"
  have l: "retry_loop (\<lambda>_ x. x) b (db_batch_attempt db ms) 4 (isRetriablePgError conn_exc) dl 0 d = (e, d')"
    using assms(4) by (simp add: DBStorage_UpdateBatch_def r)
  have it: "?I d' \<and> (\<exists>k \<le> 4. ?v d' = (apply_batch ms ^^ k) (?v d) \<and> (e = None \<longrightarrow> 0 < k))"
    using retry_iterates [where I = ?I and v = ?v and f = "apply_batch ms" and fn = "db_batch_attempt db ms" and n = 4
        and b = b and p = "isRetriablePgError conn_exc" and dl = dl and i = 0,
        OF db_batch_attempt_spec(1) [OF assms(1)] assms(3)] l by simp
  have "?v d' = (if e = None then apply_batch ms (?v d) else ?v d)" if nl: "no_loss db rows"
  proof -
    have fail: "?I d1 \<Longrightarrow> db_batch_attempt db ms d1 = (Some x, d2) \<Longrightarrow> ?I d2 \<and> ?v d2 = ?v d1" for d1 x d2
      using db_batch_attempt_spec [OF assms(1)] nl by fastforce
    have "\<exists>d0. ?I d0 \<and> ?v d0 = ?v d \<and> db_batch_attempt db ms d0 =
        retry_loop (\<lambda>_ x. x) b (db_batch_attempt db ms) 4 (isRetriablePgError conn_exc) dl 0 d"
      by (rule retry_last [where I = ?I and v = ?v]) (use fail assms(3) in simp_all)
    then obtain d0 where d0: "?I d0" "?v d0 = ?v d" "db_batch_attempt db ms d0 = (e, d')" using l by auto
    show ?thesis using db_batch_attempt_spec(2) [OF assms(1) d0(1,3) nl] d0(2) by simp
  qed
  with it show ?thesis by blast
qed

theorem db_batch_atomic_witness:
  "\<exists>d'. DBStorage_UpdateBatch sample_retry_go (\<lambda>_. False) ref_db ([], []) [counter_metric ''c'' 5, gauge_metric ''g'' 0, counter_metric ''c'' 3] = (None, d') \<and>
     rows_view (ref_rows d') = apply_batch [counter_metric ''c'' 5, gauge_metric ''g'' 0, counter_metric ''c'' 3] (rows_view (ref_rows ([], [])))"
proof -
  let ?ms = "[counter_metric ''c'' 5, gauge_metric ''g'' 0, counter_metric ''c'' 3]"
  have ok: "rows_ok (ref_rows ([], []))" by (simp add: rows_ok_def ref_rows_def map_get_def)
  have "fst (DBStorage_UpdateBatch sample_retry_go (\<lambda>_. False) ref_db ([], []) ?ms) = None" by code_simp
  then obtain d' where d': "DBStorage_UpdateBatch sample_retry_go (\<lambda>_. False) ref_db ([], []) ?ms = (None, d')"
    by (metis prod.collapse)
  show ?thesis using db_batch_atomic [OF ref_pg_spec sample_retry_go_spec ok d'] ref_no_loss d' by auto
qed



text \<open>
  C36. What the database holds is what is read (db.go GetMetric, GetValue, GetAllMetrics): for
  well-formed rows and a live connection, the three queries return exactly what the table of
  gauges and counters holds, gauges printed with \<^verbatim>\<open>%g\<close>, one entry per metric whatever the order
  of the rows, and change nothing. So the database answers like the in-memory storage except
  for the text of gauges.
\<close>

theorem db_reads_faithful:
  assumes "pg_reads db rows d" and "rows_ok (rows d)"
    and "retry_go_spec sleep rg1" and "retry_go_spec sleep' rg2"
  shows "DBStorage_GetMetric rg1 conn_exc db d n ty = (table_metric (rows_view (rows d)) n ty, d) \<and>
    DBStorage_GetValue rg1 conn_exc db d ty n = (table_value Sprintf_g (rows_view (rows d)) ty n, d) \<and>
    (\<exists>m. DBStorage_GetAllMetrics rg2 conn_exc db d = (m, d) \<and> wf_map m \<and>
       (\<forall>k v. map_get m k = Some v \<longleftrightarrow>
          (\<exists>ty n. k = ty @ CHR ''/'' # n \<and> table_value Sprintf_g (rows_view (rows d)) ty n = Some v)))"
  using db_get_metric [OF assms(1,3,2)] db_get_value [OF assms(1,3,2)] db_get_all [OF assms(1,4,2)] by blast

theorem db_reads_faithful_witness:
  "let d = ([((''c'', ''counter''), (Some 41, None))], [])
   in DBStorage_GetMetric sample_retry_go (\<lambda>_. False) ref_db d ''c'' ''counter'' = (Some (counter_metric ''c'' 41), d)"
proof -
  let ?d = "([((''c'', ''counter''), (Some 41, None))], []) :: ref_state"
  have ok: "rows_ok (ref_rows ?d)" by (simp add: rows_ok_def ref_rows_def map_get_def model_Counter_def)
  have "wf_map (fst ?d)" by (simp add: wf_map_def)
  from ref_reads [OF this] have reads: "pg_reads ref_db ref_rows ?d" .
  show ?thesis
    using db_reads_faithful [where db = ref_db and rows = ref_rows and d = ?d and conn_exc = "\<lambda>_. False" and
        n = "''c''" and ty = "''counter''", OF reads ok sample_retry_go_spec sample_retry_go_spec]
    by (simp add: table_metric_def rows_view_def ref_rows_def map_get_def model_Counter_def model_Gauge_def)
qed

end
