(* ===== verification/GoFlag.thy ===== *)
theory GoFlag
  imports Float64
begin

section \<open>Command-line flags and durations\<close>

text \<open>
  What the configuration uses of Go's standard library: \<^verbatim>\<open>flag.FlagSet.Parse\<close> with string, int
  and bool flags, \<^verbatim>\<open>strconv.ParseInt\<close> with base 0 (the syntax of int flags),
  \<^verbatim>\<open>time.ParseDuration\<close> and \<^verbatim>\<open>Duration.Seconds\<close>.
\<close>

subsection \<open>Integers in any base\<close>

text \<open>A digit or letter as a digit of a base up to 36.\<close>

definition base_digit :: "char \<Rightarrow> nat option" where
  "base_digit c =
     (if is_digit c then Some (digit_val c)
      else if 97 \<le> (of_char (lower c) :: nat) \<and> (of_char (lower c) :: nat) \<le> 122
      then Some (of_char (lower c) - 87) else None)"

fun base_loop :: "nat \<Rightarrow> nat \<Rightarrow> string \<Rightarrow> num_reason + nat" where
  "base_loop base n [] = Inr n"
| "base_loop base n (c # cs) =
     (if c = CHR ''_'' then base_loop base n cs
      else case base_digit c of
             None \<Rightarrow> Inl ErrSyntax
           | Some d \<Rightarrow>
               if base \<le> d then Inl ErrSyntax
               else if maxUint64 < n * base + d then Inl ErrRange
               else base_loop base (n * base + d) cs)"

text \<open>\<^verbatim>\<open>ParseUint(s, 0, 64)\<close>: the prefix chooses the base, underscores must stand between digits.\<close>

definition ParseUint0 :: "string \<Rightarrow> num_reason + nat" where
  "ParseUint0 s =
     (let (base, t) =
        (case s of
           z # x # r \<Rightarrow>
             if z = CHR ''0'' \<and> r \<noteq> [] \<and> lower x = CHR ''b'' then (2, r)
             else if z = CHR ''0'' \<and> r \<noteq> [] \<and> lower x = CHR ''o'' then (8, r)
             else if z = CHR ''0'' \<and> r \<noteq> [] \<and> lower x = CHR ''x'' then (16, r)
             else if z = CHR ''0'' then (8, x # r) else (10, s)
         | [z] \<Rightarrow> if z = CHR ''0'' then (8, []) else (10, s)
         | [] \<Rightarrow> (10, []))
      in if s = [] then Inl ErrSyntax
         else case base_loop base 0 t of
                Inl e \<Rightarrow> Inl e
              | Inr n \<Rightarrow> if CHR ''_'' \<in> set t \<and> \<not> underscoreOK s then Inl ErrSyntax else Inr n)"

definition ParseInt0 :: "string \<Rightarrow> num_reason + int64" where
  "ParseInt0 s =
     (let neg = (case s of c # _ \<Rightarrow> c = CHR ''-'' | [] \<Rightarrow> False)
      in case ParseUint0 (strip_sign s) of
           Inl r \<Rightarrow> Inl r
         | Inr un \<Rightarrow>
             if \<not> neg \<and> 9223372036854775808 \<le> un then Inl ErrRange
             else if neg \<and> 9223372036854775808 < un then Inl ErrRange
             else Inr (if neg then - of_nat un else of_nat un))"

subsection \<open>Package flag\<close>

datatype flag_kind = StringFlag | IntFlag | BoolFlag

text \<open>Why parsing stopped the process: a request for help, or an error. \<^verbatim>\<open>ExitOnError\<close> exits with 0 or 2.\<close>

datatype flag_exit = Help | Usage string

definition flag_accepts :: "flag_kind \<Rightarrow> string \<Rightarrow> bool" where
  "flag_accepts k v =
     (case k of
        StringFlag \<Rightarrow> True
      | IntFlag \<Rightarrow> (case ParseInt0 v of Inr _ \<Rightarrow> True | Inl _ \<Rightarrow> False)
      | BoolFlag \<Rightarrow> (case ParseBool v of Inr _ \<Rightarrow> True | Inl _ \<Rightarrow> False))"

text \<open>A flag's name and, after the first \<^verbatim>\<open>=\<close> that is not its first byte, its value.\<close>

definition split_flag :: "string \<Rightarrow> string \<times> string option" where
  "split_flag nm =
     (case nm of
        [] \<Rightarrow> ([], None)
      | c # cs \<Rightarrow>
          (case dropWhile (\<lambda>c. c \<noteq> CHR ''='') cs of
             [] \<Rightarrow> (nm, None)
           | _ # v \<Rightarrow> (c # takeWhile (\<lambda>c. c \<noteq> CHR ''='') cs, Some v)))"

text \<open>
  \<^verbatim>\<open>Parse\<close>: the assignments the arguments make, in order; it stops at the first argument that is
  no flag and after \<^verbatim>\<open>--\<close>.
\<close>

datatype arg = Stop | Bad string | Named string

definition classify_arg :: "string \<Rightarrow> arg" where
  "classify_arg s =
     (if length s < 2 \<or> hd s \<noteq> CHR ''-'' then Stop
      else let nm = (if s ! 1 = CHR ''-'' then drop 2 s else drop 1 s)
           in if s ! 1 = CHR ''-'' \<and> length s = 2 then Stop
              else if nm = [] \<or> hd nm = CHR ''-'' \<or> hd nm = CHR ''='' then Bad ''bad flag syntax: %s''
              else Named nm)"

text \<open>One flag: its name, its value, from the next argument where needed, and the rest.\<close>

definition flag_one ::
    "(string \<Rightarrow> flag_kind option) \<Rightarrow> string \<Rightarrow> string list \<Rightarrow> flag_exit + string \<times> string \<times> string list" where
  "flag_one defs nm args =
     (case split_flag nm of
        (f, val) \<Rightarrow>
          (case defs f of
             None \<Rightarrow> Inl (if f = ''help'' \<or> f = ''h'' then Help else Usage ''flag provided but not defined: -%s'')
           | Some k \<Rightarrow>
               (case (if k = BoolFlag then Some (case val of Some v \<Rightarrow> v | None \<Rightarrow> ''true'', args)
                      else case val of
                             Some v \<Rightarrow> Some (v, args)
                           | None \<Rightarrow> (case args of [] \<Rightarrow> None | v # args' \<Rightarrow> Some (v, args'))) of
                  None \<Rightarrow> Inl (Usage ''flag needs an argument: -%s'')
                | Some (v, args') \<Rightarrow>
                    if flag_accepts k v then Inr (f, v, args')
                    else Inl (Usage ''invalid value %q for flag -%s: %v''))))"

lemma flag_one_spec:
  "flag_one defs nm args = Inr (f, v, args') \<Longrightarrow>
     length args' \<le> length args \<and> (\<exists>k. defs f = Some k \<and> flag_accepts k v)"
  by (auto simp: flag_one_def split: prod.splits option.splits if_splits list.splits)

function flag_Parse :: "(string \<Rightarrow> flag_kind option) \<Rightarrow> string list \<Rightarrow> flag_exit + (string \<times> string) list" where
  "flag_Parse defs [] = Inr []"
| "flag_Parse defs (a # args) =
     (case classify_arg a of
        Stop \<Rightarrow> Inr []
      | Bad msg \<Rightarrow> Inl (Usage msg)
      | Named nm \<Rightarrow>
          (case flag_one defs nm args of
             Inl e \<Rightarrow> Inl e
           | Inr (f, v, args') \<Rightarrow> map_sum id (Cons (f, v)) (flag_Parse defs args')))"
  by pat_completeness auto
termination
  by (relation "measure (length \<circ> snd)") (auto dest: flag_one_spec)

text \<open>The value of a variable after the assignments: that of the last flag bound to it, or its default.\<close>

definition flag_string :: "string \<Rightarrow> (string \<times> string) list \<Rightarrow> string \<Rightarrow> string" where
  "flag_string f sets def = (case map_of (rev sets) f of Some v \<Rightarrow> v | None \<Rightarrow> def)"

definition flag_int :: "string \<Rightarrow> (string \<times> string) list \<Rightarrow> int64 \<Rightarrow> int64" where
  "flag_int f sets def =
     (case map_of (rev sets) f of Some v \<Rightarrow> (case ParseInt0 v of Inr i \<Rightarrow> i | Inl _ \<Rightarrow> def) | None \<Rightarrow> def)"

definition flag_bool :: "string \<Rightarrow> (string \<times> string) list \<Rightarrow> bool \<Rightarrow> bool" where
  "flag_bool f sets def =
     (case map_of (rev sets) f of Some v \<Rightarrow> (case ParseBool v of Inr i \<Rightarrow> i | Inl _ \<Rightarrow> def) | None \<Rightarrow> def)"

lemma flag_Parse_sound:
  "flag_Parse defs args = Inr sets \<Longrightarrow> (f, v) \<in> set sets \<Longrightarrow> \<exists>k. defs f = Some k \<and> flag_accepts k v"
proof (induction defs args arbitrary: sets rule: flag_Parse.induct)
  case (2 defs a args)
  show ?case
  proof (cases "classify_arg a")
    case (Named nm)
    show ?thesis
    proof (cases "flag_one defs nm args")
      case (Inr x)
      then obtain g w args' where x: "flag_one defs nm args = Inr (g, w, args')" by (cases x) auto
      then obtain sets' where s': "flag_Parse defs args' = Inr sets'" "sets = (g, w) # sets'"
        using "2.prems"(1) Named by (cases "flag_Parse defs args'") auto
      show ?thesis
        using "2.IH" [OF Named Inr, of g "(w, args')" w args' sets'] flag_one_spec [OF x] "2.prems"(2) s' Inr x by auto
    qed (use "2.prems"(1) Named in simp)
  qed (use 2 in simp_all)
qed simp

text \<open>The last assignment wins.\<close>

lemma flag_value_set:
  assumes "flag_Parse defs args = Inr sets" and "defs f = Some k" and "map_of (rev sets) f = Some v"
  shows "flag_accepts k v"
proof -
  have "(f, v) \<in> set sets" using map_of_SomeD [OF assms(3)] by simp
  with flag_Parse_sound [OF assms(1) this] assms(2) show ?thesis by simp
qed

subsection \<open>Durations\<close>

text \<open>A non-negative float64 operation: the exact fraction, rounded, as a fraction again.\<close>

definition fl :: "nat \<Rightarrow> nat \<Rightarrow> nat \<times> nat" where
  "fl p q = (let w = of_nat (round_mag p q) :: float64 in scale (f64_sig w) 1 2 (f64_pow w))"

definition fl_mul :: "nat \<times> nat \<Rightarrow> nat \<times> nat \<Rightarrow> nat \<times> nat" where
  "fl_mul x y = fl (fst x * fst y) (snd x * snd y)"

definition fl_div :: "nat \<times> nat \<Rightarrow> nat \<times> nat \<Rightarrow> nat \<times> nat" where
  "fl_div x y = fl (fst x * snd y) (snd x * fst y)"

definition fl_add :: "nat \<times> nat \<Rightarrow> nat \<times> nat \<Rightarrow> nat \<times> nat" where
  "fl_add x y = fl (fst x * snd y + fst y * snd x) (snd x * snd y)"

definition unit_ns :: "string \<Rightarrow> nat option" where
  "unit_ns u =
     (if u = ''ns'' then Some 1
      else if u = ''us'' \<or> u = [CHR 0xC2, CHR 0xB5, CHR ''s''] \<or> u = [CHR 0xCE, CHR 0xBC, CHR ''s''] then Some 1000
      else if u = ''ms'' then Some 1000000
      else if u = ''s'' then Some 1000000000
      else if u = ''m'' then Some 60000000000
      else if u = ''h'' then Some 3600000000000
      else None)"

text \<open>\<^verbatim>\<open>leadingInt\<close> fails past 2^63; \<^verbatim>\<open>leadingFraction\<close> drops the digits that do not fit.\<close>

definition leadingInt :: "string \<Rightarrow> (nat \<times> string) option" where
  "leadingInt s =
     (let n = digits_val (takeWhile is_digit s)
      in if 9223372036854775808 < n then None else Some (n, dropWhile is_digit s))"

fun fraction_loop :: "nat \<Rightarrow> nat \<Rightarrow> string \<Rightarrow> nat \<times> nat" where
  "fraction_loop x k [] = (x, k)"
| "fraction_loop x k (c # cs) =
     (if 922337203685477580 < x \<or> 9223372036854775808 < x * 10 + digit_val c then (x, k)
      else fraction_loop (x * 10 + digit_val c) (k + 1) cs)"

text \<open>One number with its unit, in nanoseconds, and the rest.\<close>

definition duration_term :: "string \<Rightarrow> (nat \<times> string) option" where
  "duration_term s =
     (if s = [] \<or> \<not> (hd s = CHR ''.'' \<or> is_digit (hd s)) then None
      else case leadingInt s of
             None \<Rightarrow> None
           | Some (v, r) \<Rightarrow>
               (let pre = r \<noteq> s;
                    dot = (r \<noteq> [] \<and> hd r = CHR ''.'');
                    fs = (if dot then takeWhile is_digit (tl r) else []);
                    r' = (if dot then dropWhile is_digit (tl r) else r);
                    u = takeWhile (\<lambda>c. c \<noteq> CHR ''.'' \<and> \<not> is_digit c) r';
                    rest = dropWhile (\<lambda>c. c \<noteq> CHR ''.'' \<and> \<not> is_digit c) r';
                    (f, k) = fraction_loop 0 0 fs
                in if \<not> pre \<and> fs = [] then None
                   else case unit_ns u of
                          None \<Rightarrow> None
                        | Some unit \<Rightarrow>
                            if 9223372036854775808 div unit < v then None
                            else let frac = (if f = 0 then 0
                                             else (case fl_mul (fl f 1) (fl_div (unit, 1) (10 ^ k, 1)) of (a, b) \<Rightarrow> a div b));
                                     w = v * unit + frac
                                 in if 9223372036854775808 < w then None else Some (w, rest)))"

lemma duration_term_shorter: "duration_term s = Some (v, r) \<Longrightarrow> length r < length s"
proof -
  assume "duration_term s = Some (v, r)"
  then obtain n t r' where t: "leadingInt s = Some (n, t)" "s \<noteq> []"
    and r': "r' = (if t \<noteq> [] \<and> hd t = CHR ''.'' then dropWhile is_digit (tl t) else t)"
    and r: "r = dropWhile (\<lambda>c. c \<noteq> CHR ''.'' \<and> \<not> is_digit c) r'"
    and u: "unit_ns (takeWhile (\<lambda>c. c \<noteq> CHR ''.'' \<and> \<not> is_digit c) r') \<noteq> None"
    by (auto simp: duration_term_def Let_def split: if_splits option.splits prod.splits)
  have "takeWhile (\<lambda>c. c \<noteq> CHR ''.'' \<and> \<not> is_digit c) r' \<noteq> []" using u by (auto simp: unit_ns_def)
  then have "length r < length r'"
    unfolding r by (metis append_Nil length_append length_greater_0_conv less_add_same_cancel2 takeWhile_dropWhile_id)
  also have "length r' \<le> length t" unfolding r' by (cases t) (auto intro: le_trans [OF length_dropWhile_le])
  also have "length t \<le> length s" using t(1) by (auto simp: leadingInt_def Let_def length_dropWhile_le split: if_splits)
  finally show ?thesis .
qed

function duration_loop :: "nat \<Rightarrow> string \<Rightarrow> nat option" where
  "duration_loop d s =
     (if s = [] then Some d
      else case duration_term s of
             None \<Rightarrow> None
           | Some (v, r) \<Rightarrow> if 9223372036854775808 < d + v then None else duration_loop (d + v) r)"
  by pat_completeness auto
termination
  by (relation "measure (length \<circ> snd)") (auto dest: duration_term_shorter)

declare duration_loop.simps [simp del]

text \<open>\<^verbatim>\<open>time.ParseDuration\<close>: the nanoseconds, or an error.\<close>

definition ParseDuration :: "string \<Rightarrow> error + int" where
  "ParseDuration s =
     (let neg = (case s of c # _ \<Rightarrow> c = CHR ''-'' | [] \<Rightarrow> False); t = strip_sign s
      in if t = ''0'' then Inr 0
         else if t = [] then Inl (Opaque ''time: invalid duration'')
         else case duration_loop 0 t of
                None \<Rightarrow> Inl (Opaque ''time: invalid duration'')
              | Some d \<Rightarrow>
                  if neg then Inr (- int d)
                  else if 9223372036854775807 < d then Inl (Opaque ''time: invalid duration'') else Inr (int d))"

text \<open>\<^verbatim>\<open>int(d.Seconds())\<close>: whole seconds and the fraction are added as floats and truncated.\<close>

definition int_Seconds :: "int \<Rightarrow> int64" where
  "int_Seconds d =
     (let n = nat \<bar>d\<bar>;
          (a, b) = fl_add (fl (n div 1000000000) 1) (fl_div (fl (n mod 1000000000) 1) (1000000000, 1))
      in if d < 0 then - of_nat (a div b) else of_nat (a div b))"

end
