(* ===== verification/Config_File.thy ===== *)
theory Config_File
  imports GoFlag MetricsJson
begin

section \<open>Configuration sources\<close>

text \<open>
  What \<^verbatim>\<open>internal/config/file.go\<close> shares between the server and the agent: where the JSON file
  is named, how a struct of pointers is decoded from it, and the layers that override it. The
  environment (\<^verbatim>\<open>os.LookupEnv\<close>) and the file system (\<^verbatim>\<open>os.ReadFile\<close>) are arguments.
\<close>

type_synonym env = "string \<Rightarrow> string option"
type_synonym reader = "string \<Rightarrow> error + bytes"

text \<open>How a parser ends: \<^verbatim>\<open>flag.ExitOnError\<close> leaves the process, or it returns an error or a value.\<close>

datatype 'c parsed = Exit flag_exit | Failed error | Parsed 'c

fun scan_config_args :: "string list \<Rightarrow> string" where
  "scan_config_args [] = ''''"
| "scan_config_args (a # args) =
     (if a = ''-c'' \<or> a = ''-config'' \<or> a = ''--config''
      then (case args of v # _ \<Rightarrow> v | [] \<Rightarrow> scan_config_args args)
      else if strings_HasPrefix a ''-c='' then strings_TrimPrefix a ''-c=''
      else if strings_HasPrefix a ''-config='' then strings_TrimPrefix a ''-config=''
      else if strings_HasPrefix a ''--config='' then strings_TrimPrefix a ''--config=''
      else scan_config_args args)"

definition extractConfigPath :: "env \<Rightarrow> string list \<Rightarrow> string" where
  "extractConfigPath env args =
     (case env ''CONFIG'' of
        Some v \<Rightarrow> if v \<noteq> '''' then v else scan_config_args args
      | None \<Rightarrow> scan_config_args args)"

subsection \<open>Structs of pointers\<close>

text \<open>A pointer field: \<open>null\<close> is nil, a value of another type is an error.\<close>

definition decode_ptr_string :: "json \<Rightarrow> string option option" where
  "decode_ptr_string v = (case v of JNull \<Rightarrow> Some None | JStr s \<Rightarrow> Some (Some s) | _ \<Rightarrow> None)"

definition decode_ptr_bool :: "json \<Rightarrow> bool option option" where
  "decode_ptr_bool v = (case v of JNull \<Rightarrow> Some None | JBool b \<Rightarrow> Some (Some b) | _ \<Rightarrow> None)"

fun decode_struct_members :: "('r \<Rightarrow> bytes \<times> json \<Rightarrow> 'r option) \<Rightarrow> 'r \<Rightarrow> (bytes \<times> json) list \<Rightarrow> 'r option" where
  "decode_struct_members member r [] = Some r"
| "decode_struct_members member r (kv # kvs) =
     (case member r kv of None \<Rightarrow> None | Some r' \<Rightarrow> decode_struct_members member r' kvs)"

definition decode_struct :: "('r \<Rightarrow> bytes \<times> json \<Rightarrow> 'r option) \<Rightarrow> 'r \<Rightarrow> json \<Rightarrow> 'r option" where
  "decode_struct member zero j =
     (case j of JNull \<Rightarrow> Some zero | JObj ms \<Rightarrow> decode_struct_members member zero ms | _ \<Rightarrow> None)"

definition load_struct :: "('r \<Rightarrow> bytes \<times> json \<Rightarrow> 'r option) \<Rightarrow> 'r \<Rightarrow> reader \<Rightarrow> string \<Rightarrow> error + 'r" where
  "load_struct member zero read path =
     (case read path of
        Inl e \<Rightarrow> Inl (Wrapf ''read config %q: %w'' [path] e)
      | Inr data \<Rightarrow>
          (case Option.bind (json_unmarshal_value data) (decode_struct member zero) of
             None \<Rightarrow> Inl (Wrapf ''parse config %q: %w'' [path] (Opaque ''json''))
           | Some f \<Rightarrow> Inr f))"

subsection \<open>Layers\<close>

text \<open>A step of a parser: it changes the configuration or fails.\<close>

type_synonym 'c config_step = "'c \<Rightarrow> error + 'c"

fun run_steps :: "'c config_step list \<Rightarrow> 'c config_step" where
  "run_steps [] c = Inr c"
| "run_steps (s # ss) c = (case s c of Inl e \<Rightarrow> Inl e | Inr c' \<Rightarrow> run_steps ss c')"

text \<open>\<^verbatim>\<open>if fc.X != nil { xDefault = *fc.X }\<close>.\<close>

definition file_value :: "'a option \<Rightarrow> ('a \<Rightarrow> 'c \<Rightarrow> 'c) \<Rightarrow> 'c config_step" where
  "file_value p put c = Inr (case p of None \<Rightarrow> c | Some v \<Rightarrow> put v c)"

text \<open>A duration of the file, in whole seconds.\<close>

definition file_seconds :: "string \<Rightarrow> string \<Rightarrow> string option \<Rightarrow> (int64 \<Rightarrow> 'c \<Rightarrow> 'c) \<Rightarrow> 'c config_step" where
  "file_seconds path name p put c =
     (case p of
        None \<Rightarrow> Inr c
      | Some v \<Rightarrow>
          (case ParseDuration v of
             Inl e \<Rightarrow> Inl (Wrapf (''config %q: invalid '' @ name @ '' %q: %w'') [path, v] e)
           | Inr d \<Rightarrow> Inr (put (int_Seconds d) c)))"

definition env_string :: "env \<Rightarrow> string \<Rightarrow> (string \<Rightarrow> 'c \<Rightarrow> 'c) \<Rightarrow> 'c config_step" where
  "env_string env name put c = (case env name of None \<Rightarrow> Inr c | Some v \<Rightarrow> Inr (put v c))"

definition env_parsed :: "(string \<Rightarrow> error + 'a) \<Rightarrow> env \<Rightarrow> string \<Rightarrow> ('a \<Rightarrow> 'c \<Rightarrow> 'c) \<Rightarrow> 'c config_step" where
  "env_parsed parse env name put c =
     (case env name of
        None \<Rightarrow> Inr c
      | Some v \<Rightarrow>
          (case parse v of
             Inl e \<Rightarrow> Inl (Wrapf (''invalid '' @ name @ '' %q: %w'') [v] e)
           | Inr x \<Rightarrow> Inr (put x c)))"

subsection \<open>Which layer a setting comes from\<close>

text \<open>The documented precedence: environment, then flag, then file, then default.\<close>

definition layered :: "'a option \<Rightarrow> 'a option \<Rightarrow> 'a option \<Rightarrow> 'a \<Rightarrow> 'a" where
  "layered e f c d =
     (case e of Some v \<Rightarrow> v | None \<Rightarrow> case f of Some v \<Rightarrow> v | None \<Rightarrow> case c of Some v \<Rightarrow> v | None \<Rightarrow> d)"

text \<open>The value of the last occurrence of a flag, a parsed value where the text is right.\<close>

definition last_flag :: "string \<Rightarrow> (string \<times> string) list \<Rightarrow> string option" where
  "last_flag f sets = map_of (rev sets) f"

definition right :: "('e + 'a) \<Rightarrow> 'a option" where
  "right r = (case r of Inl _ \<Rightarrow> None | Inr x \<Rightarrow> Some x)"

definition parsed_text :: "(string \<Rightarrow> 'e + 'a) \<Rightarrow> string option \<Rightarrow> 'a option" where
  "parsed_text parse t = Option.bind t (\<lambda>s. right (parse s))"

text \<open>A text that is absent or can be parsed.\<close>

definition readable :: "(string \<Rightarrow> 'e + 'a) \<Rightarrow> string option \<Rightarrow> bool" where
  "readable parse t = (t = None \<or> parsed_text parse t \<noteq> None)"

lemma layered_simps [simp]:
  "layered (Some v) f c d = v"
  "layered None (Some v) c d = v"
  "layered None None (Some v) d = v"
  "layered None None None d = d"
  by (simp_all add: layered_def)

lemma parsed_text_simps [simp]:
  "parsed_text p None = None"
  "p s = Inr x \<Longrightarrow> parsed_text p (Some s) = Some x"
  "p s = Inl e \<Longrightarrow> parsed_text p (Some s) = None"
  by (simp_all add: parsed_text_def right_def)

text \<open>A variable bound to a flag holds the last value given, or its default.\<close>

lemma flag_string_last: "flag_string f sets d = layered None (last_flag f sets) None d"
  by (simp add: flag_string_def last_flag_def layered_def split: option.split)

lemma flag_int_last:
  "flag_Parse defs args = Inr sets \<Longrightarrow> defs f = Some IntFlag \<Longrightarrow>
     flag_int f sets d = layered None (parsed_text ParseInt0 (last_flag f sets)) None d"
  by (cases "map_of (rev sets) f")
     (auto simp: flag_int_def last_flag_def layered_def parsed_text_def right_def flag_accepts_def
       dest: flag_value_set split: sum.splits)

lemma flag_bool_last:
  "flag_Parse defs args = Inr sets \<Longrightarrow> defs f = Some BoolFlag \<Longrightarrow>
     flag_bool f sets d = layered None (parsed_text ParseBool (last_flag f sets)) None d"
  by (cases "map_of (rev sets) f")
     (auto simp: flag_bool_def last_flag_def layered_def parsed_text_def right_def flag_accepts_def
       dest: flag_value_set split: sum.splits)

text \<open>How one step acts when it succeeds.\<close>

lemma file_value_Inr: "file_value p put c = Inr c' \<longleftrightarrow> c' = (case p of None \<Rightarrow> c | Some v \<Rightarrow> put v c)"
  by (auto simp: file_value_def)

lemma env_string_Inr: "env_string env n put c = Inr c' \<longleftrightarrow> c' = (case env n of None \<Rightarrow> c | Some v \<Rightarrow> put v c)"
  by (auto simp: env_string_def split: option.splits)

lemma env_parsed_Inr:
  "env_parsed p env n put c = Inr c' \<longleftrightarrow>
     readable p (env n) \<and>
     c' = (case parsed_text p (env n) of None \<Rightarrow> c | Some x \<Rightarrow> put x c)"
  by (auto simp: env_parsed_def readable_def parsed_text_def right_def split: option.splits sum.splits)

text \<open>The seconds of a duration text.\<close>

definition ParseSeconds :: "string \<Rightarrow> error + int64" where
  "ParseSeconds s = map_sum id int_Seconds (ParseDuration s)"

lemma file_seconds_Inr:
  "file_seconds path n p put c = Inr c' \<longleftrightarrow>
     readable ParseSeconds p \<and>
     c' = (case parsed_text ParseSeconds p of None \<Rightarrow> c | Some x \<Rightarrow> put x c)"
  by (auto simp: file_seconds_def readable_def ParseSeconds_def parsed_text_def right_def split: option.splits sum.splits)

lemma run_steps_Inr:
  "run_steps (s # ss) c = Inr c' \<longleftrightarrow> (\<exists>c1. s c = Inr c1 \<and> run_steps ss c1 = Inr c')"
  by (auto split: sum.splits)

lemma run_steps_Nil_Inr: "run_steps [] c = Inr c' \<longleftrightarrow> c' = c"
  by auto

lemmas step_Inr = run_steps_Inr run_steps_Nil_Inr file_value_Inr env_string_Inr env_parsed_Inr file_seconds_Inr

text \<open>Layers stacked one on the other.\<close>

lemma option_case_same: "(case x of None \<Rightarrow> a | Some _ \<Rightarrow> a) = a"
  by (cases x) simp_all

lemma layered_env: "(case e of None \<Rightarrow> d | Some v \<Rightarrow> v) = layered e None None d"
  by (cases e) simp_all

lemma layered_default: "(case c of None \<Rightarrow> d | Some v \<Rightarrow> v) = layered None None c d"
  by (cases c) simp_all

lemma layered_nest:
  "layered e f None (layered None None c d) = layered e f c d"
  "layered e None None (layered None f c d) = layered e f c d"
  by (cases e; cases f; simp)+

declare run_steps.simps [simp del]

end
