(* ===== verification/Config_Server.thy ===== *)
theory Config_Server
  imports Config_File
begin

section \<open>Server configuration\<close>

text \<open>
  \<^verbatim>\<open>internal/config/server.go\<close>: the defaults, the JSON file, the flags and the environment, in the
  order the code applies them, and the precedence the package documents for every setting.
\<close>

record ServerConfig =
  Addr :: string
  StoreInterval :: int64
  FileStoragePath :: string
  Restore :: bool
  DatabaseDSN :: string
  Key :: string
  AuditFile :: string
  AuditURL :: string
  CryptoKey :: string
  TrustedSubnet :: string
  GRPCAddr :: string

record serverFile =
  fc_Address :: "string option"
  fc_GRPCAddress :: "string option"
  fc_Restore :: "bool option"
  fc_StoreInterval :: "string option"
  fc_StoreFile :: "string option"
  fc_DatabaseDSN :: "string option"
  fc_CryptoKey :: "string option"
  fc_TrustedSubnet :: "string option"

definition serverFile_zero :: serverFile where
  "serverFile_zero =
     \<lparr>fc_Address = None, fc_GRPCAddress = None, fc_Restore = None, fc_StoreInterval = None, fc_StoreFile = None,
      fc_DatabaseDSN = None, fc_CryptoKey = None, fc_TrustedSubnet = None\<rparr>"

definition serverFile_member :: "serverFile \<Rightarrow> bytes \<times> json \<Rightarrow> serverFile option" where
  "serverFile_member f kv =
     (case kv of (k, v) \<Rightarrow>
        let n = fold_name k; str = decode_ptr_string v
        in if n = ''ADDRESS'' then map_option (\<lambda>x. f\<lparr>fc_Address := x\<rparr>) str
           else if n = ''GRPC_ADDRESS'' then map_option (\<lambda>x. f\<lparr>fc_GRPCAddress := x\<rparr>) str
           else if n = ''RESTORE'' then map_option (\<lambda>x. f\<lparr>fc_Restore := x\<rparr>) (decode_ptr_bool v)
           else if n = ''STORE_INTERVAL'' then map_option (\<lambda>x. f\<lparr>fc_StoreInterval := x\<rparr>) str
           else if n = ''STORE_FILE'' then map_option (\<lambda>x. f\<lparr>fc_StoreFile := x\<rparr>) str
           else if n = ''DATABASE_DSN'' then map_option (\<lambda>x. f\<lparr>fc_DatabaseDSN := x\<rparr>) str
           else if n = ''CRYPTO_KEY'' then map_option (\<lambda>x. f\<lparr>fc_CryptoKey := x\<rparr>) str
           else if n = ''TRUSTED_SUBNET'' then map_option (\<lambda>x. f\<lparr>fc_TrustedSubnet := x\<rparr>) str
           else Some f)"

definition loadServerFile :: "reader \<Rightarrow> string \<Rightarrow> error + serverFile" where
  "loadServerFile read path = load_struct serverFile_member serverFile_zero read path"

definition server_defaults :: ServerConfig where
  "server_defaults =
     \<lparr>Addr = ''localhost:8080'', StoreInterval = 300, FileStoragePath = ''/tmp/metrics-db.json'', Restore = True,
      DatabaseDSN = '''', Key = '''', AuditFile = '''', AuditURL = '''', CryptoKey = '''', TrustedSubnet = '''',
      GRPCAddr = ''''\<rparr>"

text \<open>The file's settings replace the defaults of the flags.\<close>

definition server_file_steps :: "string \<Rightarrow> serverFile \<Rightarrow> ServerConfig config_step list" where
  "server_file_steps path fc =
     [file_value (fc_Address fc) (\<lambda>v c. c\<lparr>Addr := v\<rparr>),
      file_value (fc_Restore fc) (\<lambda>v c. c\<lparr>Restore := v\<rparr>),
      file_seconds path ''store_interval'' (fc_StoreInterval fc) (\<lambda>v c. c\<lparr>StoreInterval := v\<rparr>),
      file_value (fc_StoreFile fc) (\<lambda>v c. c\<lparr>FileStoragePath := v\<rparr>),
      file_value (fc_DatabaseDSN fc) (\<lambda>v c. c\<lparr>DatabaseDSN := v\<rparr>),
      file_value (fc_CryptoKey fc) (\<lambda>v c. c\<lparr>CryptoKey := v\<rparr>),
      file_value (fc_TrustedSubnet fc) (\<lambda>v c. c\<lparr>TrustedSubnet := v\<rparr>),
      file_value (fc_GRPCAddress fc) (\<lambda>v c. c\<lparr>GRPCAddr := v\<rparr>)]"

definition server_flags :: "string \<Rightarrow> flag_kind option" where
  "server_flags f =
     (if f = ''i'' then Some IntFlag
      else if f = ''r'' then Some BoolFlag
      else if f \<in> set [''a'', ''f'', ''d'', ''k'', ''audit-file'', ''audit-url'', ''crypto-key'', ''t'',
                       ''grpc-address'', ''c'', ''config''] then Some StringFlag
      else None)"

definition server_flag_values :: "(string \<times> string) list \<Rightarrow> ServerConfig \<Rightarrow> ServerConfig" where
  "server_flag_values sets d =
     \<lparr>Addr = flag_string ''a'' sets (Addr d),
      StoreInterval = flag_int ''i'' sets (StoreInterval d),
      FileStoragePath = flag_string ''f'' sets (FileStoragePath d),
      Restore = flag_bool ''r'' sets (Restore d),
      DatabaseDSN = flag_string ''d'' sets (DatabaseDSN d),
      Key = flag_string ''k'' sets '''',
      AuditFile = flag_string ''audit-file'' sets '''',
      AuditURL = flag_string ''audit-url'' sets '''',
      CryptoKey = flag_string ''crypto-key'' sets (CryptoKey d),
      TrustedSubnet = flag_string ''t'' sets (TrustedSubnet d),
      GRPCAddr = flag_string ''grpc-address'' sets (GRPCAddr d)\<rparr>"

definition server_env_steps :: "env \<Rightarrow> ServerConfig config_step list" where
  "server_env_steps env =
     [env_string env ''ADDRESS'' (\<lambda>v c. c\<lparr>Addr := v\<rparr>),
      env_parsed Atoi env ''STORE_INTERVAL'' (\<lambda>v c. c\<lparr>StoreInterval := v\<rparr>),
      env_string env ''FILE_STORAGE_PATH'' (\<lambda>v c. c\<lparr>FileStoragePath := v\<rparr>),
      env_parsed ParseBool env ''RESTORE'' (\<lambda>v c. c\<lparr>Restore := v\<rparr>),
      env_string env ''DATABASE_DSN'' (\<lambda>v c. c\<lparr>DatabaseDSN := v\<rparr>),
      env_string env ''KEY'' (\<lambda>v c. c\<lparr>Key := v\<rparr>),
      env_string env ''AUDIT_FILE'' (\<lambda>v c. c\<lparr>AuditFile := v\<rparr>),
      env_string env ''AUDIT_URL'' (\<lambda>v c. c\<lparr>AuditURL := v\<rparr>),
      env_string env ''CRYPTO_KEY'' (\<lambda>v c. c\<lparr>CryptoKey := v\<rparr>),
      env_string env ''TRUSTED_SUBNET'' (\<lambda>v c. c\<lparr>TrustedSubnet := v\<rparr>),
      env_string env ''GRPC_ADDRESS'' (\<lambda>v c. c\<lparr>GRPCAddr := v\<rparr>)]"

definition server_file_layer :: "env \<Rightarrow> reader \<Rightarrow> string list \<Rightarrow> error + ServerConfig" where
  "server_file_layer env read args =
     (let path = extractConfigPath env args
      in if path = '''' then Inr server_defaults
         else case loadServerFile read path of
                Inl e \<Rightarrow> Inl e
              | Inr fc \<Rightarrow> run_steps (server_file_steps path fc) server_defaults)"

definition ParseServerConfig :: "env \<Rightarrow> reader \<Rightarrow> string list \<Rightarrow> ServerConfig parsed" where
  "ParseServerConfig env read args =
     (case server_file_layer env read args of
        Inl e \<Rightarrow> Failed e
      | Inr defaults \<Rightarrow>
          (case flag_Parse server_flags args of
             Inl x \<Rightarrow> Exit x
           | Inr sets \<Rightarrow>
               (case run_steps (server_env_steps env) (server_flag_values sets defaults) of
                  Inl e \<Rightarrow> Failed e
                | Inr cfg \<Rightarrow> Parsed cfg)))"

subsection \<open>Precedence\<close>

text \<open>The file that is read, none when no path is given.\<close>

definition server_file :: "env \<Rightarrow> reader \<Rightarrow> string list \<Rightarrow> serverFile" where
  "server_file env read args =
     (if extractConfigPath env args = '''' then serverFile_zero
      else case loadServerFile read (extractConfigPath env args) of Inl _ \<Rightarrow> serverFile_zero | Inr fc \<Rightarrow> fc)"

text \<open>Every setting as the documented precedence gives it.\<close>

definition server_layers :: "env \<Rightarrow> serverFile \<Rightarrow> (string \<times> string) list \<Rightarrow> ServerConfig" where
  "server_layers env fc sets =
     \<lparr>Addr = layered (env ''ADDRESS'') (last_flag ''a'' sets) (fc_Address fc) ''localhost:8080'',
      StoreInterval = layered (parsed_text Atoi (env ''STORE_INTERVAL''))
        (parsed_text ParseInt0 (last_flag ''i'' sets)) (parsed_text ParseSeconds (fc_StoreInterval fc)) 300,
      FileStoragePath = layered (env ''FILE_STORAGE_PATH'') (last_flag ''f'' sets) (fc_StoreFile fc)
        ''/tmp/metrics-db.json'',
      Restore = layered (parsed_text ParseBool (env ''RESTORE'')) (parsed_text ParseBool (last_flag ''r'' sets))
        (fc_Restore fc) True,
      DatabaseDSN = layered (env ''DATABASE_DSN'') (last_flag ''d'' sets) (fc_DatabaseDSN fc) '''',
      Key = layered (env ''KEY'') (last_flag ''k'' sets) None '''',
      AuditFile = layered (env ''AUDIT_FILE'') (last_flag ''audit-file'' sets) None '''',
      AuditURL = layered (env ''AUDIT_URL'') (last_flag ''audit-url'' sets) None '''',
      CryptoKey = layered (env ''CRYPTO_KEY'') (last_flag ''crypto-key'' sets) (fc_CryptoKey fc) '''',
      TrustedSubnet = layered (env ''TRUSTED_SUBNET'') (last_flag ''t'' sets) (fc_TrustedSubnet fc) '''',
      GRPCAddr = layered (env ''GRPC_ADDRESS'') (last_flag ''grpc-address'' sets) (fc_GRPCAddress fc) ''''\<rparr>"

lemma server_flag_values_eq:
  assumes "flag_Parse server_flags args = Inr sets"
  shows "server_flag_values sets d =
     \<lparr>Addr = layered None (last_flag ''a'' sets) None (Addr d),
      StoreInterval = layered None (parsed_text ParseInt0 (last_flag ''i'' sets)) None (StoreInterval d),
      FileStoragePath = layered None (last_flag ''f'' sets) None (FileStoragePath d),
      Restore = layered None (parsed_text ParseBool (last_flag ''r'' sets)) None (Restore d),
      DatabaseDSN = layered None (last_flag ''d'' sets) None (DatabaseDSN d),
      Key = layered None (last_flag ''k'' sets) None '''',
      AuditFile = layered None (last_flag ''audit-file'' sets) None '''',
      AuditURL = layered None (last_flag ''audit-url'' sets) None '''',
      CryptoKey = layered None (last_flag ''crypto-key'' sets) None (CryptoKey d),
      TrustedSubnet = layered None (last_flag ''t'' sets) None (TrustedSubnet d),
      GRPCAddr = layered None (last_flag ''grpc-address'' sets) None (GRPCAddr d)\<rparr>"
  using flag_int_last [OF assms, of "''i''"] flag_bool_last [OF assms, of "''r''"]
  by (simp add: server_flag_values_def flag_string_last server_flags_def)

text \<open>An optional assignment is one update of its field.\<close>

lemma server_updates:
  "(case x of None \<Rightarrow> c | Some v \<Rightarrow> c\<lparr>Addr := v\<rparr>) = Addr_update (\<lambda>a. case x of None \<Rightarrow> a | Some v \<Rightarrow> v) c"
  "(case y of None \<Rightarrow> c | Some v \<Rightarrow> c\<lparr>StoreInterval := v\<rparr>) = StoreInterval_update (\<lambda>a. case y of None \<Rightarrow> a | Some v \<Rightarrow> v) c"
  "(case x of None \<Rightarrow> c | Some v \<Rightarrow> c\<lparr>FileStoragePath := v\<rparr>) = FileStoragePath_update (\<lambda>a. case x of None \<Rightarrow> a | Some v \<Rightarrow> v) c"
  "(case z of None \<Rightarrow> c | Some v \<Rightarrow> c\<lparr>Restore := v\<rparr>) = Restore_update (\<lambda>a. case z of None \<Rightarrow> a | Some v \<Rightarrow> v) c"
  "(case x of None \<Rightarrow> c | Some v \<Rightarrow> c\<lparr>DatabaseDSN := v\<rparr>) = DatabaseDSN_update (\<lambda>a. case x of None \<Rightarrow> a | Some v \<Rightarrow> v) c"
  "(case x of None \<Rightarrow> c | Some v \<Rightarrow> c\<lparr>Key := v\<rparr>) = Key_update (\<lambda>a. case x of None \<Rightarrow> a | Some v \<Rightarrow> v) c"
  "(case x of None \<Rightarrow> c | Some v \<Rightarrow> c\<lparr>AuditFile := v\<rparr>) = AuditFile_update (\<lambda>a. case x of None \<Rightarrow> a | Some v \<Rightarrow> v) c"
  "(case x of None \<Rightarrow> c | Some v \<Rightarrow> c\<lparr>AuditURL := v\<rparr>) = AuditURL_update (\<lambda>a. case x of None \<Rightarrow> a | Some v \<Rightarrow> v) c"
  "(case x of None \<Rightarrow> c | Some v \<Rightarrow> c\<lparr>CryptoKey := v\<rparr>) = CryptoKey_update (\<lambda>a. case x of None \<Rightarrow> a | Some v \<Rightarrow> v) c"
  "(case x of None \<Rightarrow> c | Some v \<Rightarrow> c\<lparr>TrustedSubnet := v\<rparr>) = TrustedSubnet_update (\<lambda>a. case x of None \<Rightarrow> a | Some v \<Rightarrow> v) c"
  "(case x of None \<Rightarrow> c | Some v \<Rightarrow> c\<lparr>GRPCAddr := v\<rparr>) = GRPCAddr_update (\<lambda>a. case x of None \<Rightarrow> a | Some v \<Rightarrow> v) c"
  by (cases x; cases y; cases z; simp)+

definition server_file_ok :: "env \<Rightarrow> reader \<Rightarrow> string list \<Rightarrow> bool" where
  "server_file_ok env read args =
     (extractConfigPath env args = '''' \<or>
      (case loadServerFile read (extractConfigPath env args) of
         Inl _ \<Rightarrow> False | Inr fc \<Rightarrow> readable ParseSeconds (fc_StoreInterval fc)))"

lemma server_file_layer_eq:
  "server_file_layer env read args = Inr c \<longleftrightarrow>
     server_file_ok env read args \<and> c = server_layers Map.empty (server_file env read args) []"
proof (cases "extractConfigPath env args = ''''")
  case True
  then show ?thesis
    by (auto simp: server_file_layer_def server_file_def serverFile_zero_def server_layers_def server_defaults_def
        last_flag_def server_file_ok_def)
next
  case False
  have steps: "run_steps (server_file_steps p fc) server_defaults = Inr c \<longleftrightarrow>
      readable ParseSeconds (fc_StoreInterval fc) \<and> c = server_layers Map.empty fc []" for p fc
    by (simp add: server_file_steps_def step_Inr server_updates server_layers_def last_flag_def layered_default
        server_defaults_def)
  from False show ?thesis
    by (auto simp: server_file_layer_def Let_def server_file_def server_file_ok_def steps split: sum.splits)
qed

lemma server_env_layer_eq:
  "run_steps (server_env_steps env) c = Inr c' \<longleftrightarrow>
     readable Atoi (env ''STORE_INTERVAL'') \<and> readable ParseBool (env ''RESTORE'') \<and>
     c' =
     \<lparr>Addr = layered (env ''ADDRESS'') None None (Addr c),
      StoreInterval = layered (parsed_text Atoi (env ''STORE_INTERVAL'')) None None (StoreInterval c),
      FileStoragePath = layered (env ''FILE_STORAGE_PATH'') None None (FileStoragePath c),
      Restore = layered (parsed_text ParseBool (env ''RESTORE'')) None None (Restore c),
      DatabaseDSN = layered (env ''DATABASE_DSN'') None None (DatabaseDSN c),
      Key = layered (env ''KEY'') None None (Key c),
      AuditFile = layered (env ''AUDIT_FILE'') None None (AuditFile c),
      AuditURL = layered (env ''AUDIT_URL'') None None (AuditURL c),
      CryptoKey = layered (env ''CRYPTO_KEY'') None None (CryptoKey c),
      TrustedSubnet = layered (env ''TRUSTED_SUBNET'') None None (TrustedSubnet c),
      GRPCAddr = layered (env ''GRPC_ADDRESS'') None None (GRPCAddr c)\<rparr>"
  by (cases c) (simp add: server_env_steps_def step_Inr server_updates layered_env)

text \<open>
  C37. \<^verbatim>\<open>ParseServerConfig\<close> returns a configuration exactly when the file it is pointed to (if any)
  can be read and decoded, the flags parse, and the numeric and boolean variables of the environment
  are well formed. Every setting then comes from the environment if the variable is set there, else
  from the last occurrence of its flag, else from the file, else from the hardcoded default.
\<close>

theorem server_config_precedence:
  "ParseServerConfig env read args = Parsed cfg \<longleftrightarrow>
     server_file_ok env read args \<and> readable Atoi (env ''STORE_INTERVAL'') \<and> readable ParseBool (env ''RESTORE'') \<and>
     (\<exists>sets. flag_Parse server_flags args = Inr sets \<and> cfg = server_layers env (server_file env read args) sets)"
proof -
  have layers: "run_steps (server_env_steps env)
        (server_flag_values sets (server_layers Map.empty (server_file env read args) [])) = Inr cfg \<longleftrightarrow>
      readable Atoi (env ''STORE_INTERVAL'') \<and> readable ParseBool (env ''RESTORE'') \<and>
      cfg = server_layers env (server_file env read args) sets"
    if "flag_Parse server_flags args = Inr sets" for sets
    by (simp add: server_env_layer_eq server_flag_values_eq [OF that] server_layers_def layered_nest last_flag_def)
  have "ParseServerConfig env read args = Parsed cfg \<longleftrightarrow>
      (\<exists>d sets. server_file_layer env read args = Inr d \<and> flag_Parse server_flags args = Inr sets \<and>
        run_steps (server_env_steps env) (server_flag_values sets d) = Inr cfg)"
    by (auto simp: ParseServerConfig_def split: sum.splits)
  then show ?thesis unfolding server_file_layer_eq using layers by blast
qed

end
