(* ===== verification/ServerMain.thy ===== *)
theory ServerMain
  imports Grpc DBStorage Config_Server
begin

section \<open>The server process\<close>

text \<open>
  \<^verbatim>\<open>cmd/server/main.go\<close>: which storage the configuration selects, when it is saved, the audit
  publisher, the HTTP and gRPC handlers, and the life of a server on the file backend from its
  start to the final save. Listening sockets and timeouts are not modelled; a request is one step.
\<close>

subsection \<open>Storage selection\<close>

datatype 'd backend = DB_backend "'d sqldb" 'd | File_backend FileBackedStorage | Mem_backend MemStorage

text \<open>\<open>newDB\<close> is \<^verbatim>\<open>NewDBStorage\<close> on the process's database driver; the strings are the log.\<close>

definition open_db ::
    "(string \<Rightarrow> error + 'd sqldb \<times> 'd) \<Rightarrow> ServerConfig \<Rightarrow> string list \<times> ('d sqldb \<times> 'd) option" where
  "open_db newDB cfg =
     (if DatabaseDSN cfg \<noteq> '''' then
        (case newDB (DatabaseDSN cfg) of
           Inl err \<Rightarrow> ([''failed to connect to db, falling back to memory storage''], None)
         | Inr db \<Rightarrow> ([], Some db))
      else ([], None))"

definition open_file ::
    "os_faults \<Rightarrow> (string, bytes) gomap \<Rightarrow> string list \<Rightarrow> ServerConfig \<Rightarrow> FileBackedStorage" where
  "open_file os fs lg cfg =
     (let f = NewFileBackedStorage (FileStoragePath cfg) fs lg
      in if Restore cfg then
           (case FileBackedStorage_Load os f of
              (Some err, f') \<Rightarrow> write_log ''failed to load metrics from file'' f'
            | (None, f') \<Rightarrow> write_log ''metrics loaded from file'' f')
         else f)"

definition open_storage ::
    "(string \<Rightarrow> error + 'd sqldb \<times> 'd) \<Rightarrow> os_faults \<Rightarrow> (string, bytes) gomap \<Rightarrow> ServerConfig \<Rightarrow> 'd backend" where
  "open_storage newDB os fs cfg =
     (case open_db newDB cfg of
        (lg, Some (db, d)) \<Rightarrow> DB_backend db d
      | (lg, None) \<Rightarrow>
          if FileStoragePath cfg \<noteq> '''' then File_backend (open_file os fs lg cfg) else Mem_backend NewMemStorage)"

subsection \<open>When the file is written\<close>

datatype save_mode = Save_sync | Save_every int64 | Save_at_exit

definition save_mode_of :: "ServerConfig \<Rightarrow> save_mode" where
  "save_mode_of cfg =
     (if StoreInterval cfg = 0 then Save_sync
      else if 0 < sint (StoreInterval cfg) then Save_every (StoreInterval cfg * 1000000000)
      else Save_at_exit)"

definition file_callback ::
    "os_faults \<Rightarrow> gauge_order \<Rightarrow> counter_order \<Rightarrow> ServerConfig \<Rightarrow> (FileBackedStorage \<Rightarrow> FileBackedStorage) option" where
  "file_callback os og oc cfg =
     (case save_mode_of cfg of Save_sync \<Rightarrow> Some (FileBackedStorage_SaveOnUpdate os og oc) | _ \<Rightarrow> None)"

definition file_service ::
    "os_faults \<Rightarrow> gauge_order \<Rightarrow> counter_order \<Rightarrow> ServerConfig \<Rightarrow> FileBackedStorage MetricService" where
  "file_service os og oc cfg =
     (case file_callback os og oc cfg of
        Some fn \<Rightarrow> SetOnUpdate (NewMetricService (FileBackedStorage_Storage og oc)) fn
      | None \<Rightarrow> NewMetricService (FileBackedStorage_Storage og oc))"

subsection \<open>Audit and handlers\<close>

definition buildAuditPublisher ::
    "audit_env \<Rightarrow> ServerConfig \<Rightarrow> audit_world \<Rightarrow> (error + Publisher option) \<times> audit_world" where
  "buildAuditPublisher env cfg w =
     (case (if AuditFile cfg \<noteq> '''' then
              (case NewFileObserver env (AuditFile cfg) w of
                 (Inl err, w') \<Rightarrow> (Inl err, w')
               | (Inr obs, w') \<Rightarrow> (Inr [FileObs obs], w'))
            else (Inr [], w)) of
        (Inl err, w') \<Rightarrow> (Inl err, w')
      | (Inr obs, w') \<Rightarrow>
          (let all = obs @ (if AuditURL cfg \<noteq> '''' then [HttpObs (NewHTTPObserver (AuditURL cfg))] else [])
           in (Inr (if all = [] then None else Some (NewPublisher True all)), w')))"

text \<open>
  \<open>load_key\<close> is \<^verbatim>\<open>crypto.LoadPrivateKey\<close> followed by \<open>Decrypt\<close> with the key, \<open>listen\<close> is
  \<^verbatim>\<open>net.Listen\<close>. An error ends the process: the format of the message is given with it.
\<close>

record 's server =
  http_handler :: "'s hstate handler"
  grpc_method :: "'s unary option"

definition build_server ::
    "gzip_lib \<Rightarrow> (string \<Rightarrow> error + (bytes \<Rightarrow> error + bytes)) \<Rightarrow> (string \<Rightarrow> error option) \<Rightarrow> 's dispatch \<Rightarrow> (string, string) map_order \<Rightarrow> henv \<Rightarrow>
     ServerConfig \<Rightarrow> 's MetricService \<Rightarrow> ('s \<Rightarrow> 's eff) option \<Rightarrow> Publisher option \<Rightarrow> (string \<times> error) + 's server" where
  "build_server lib load_key listen dispatch om env cfg sv pg pub =
     (case (if CryptoKey cfg \<noteq> '''' then map_sum id Some (load_key (CryptoKey cfg)) else Inr None) of
        Inl err \<Rightarrow> Inl (''load crypto private key: %v'', err)
      | Inr priv \<Rightarrow>
          (case TrustedSubnetMiddleware (TrustedSubnet cfg) of
             Inl err \<Rightarrow> Inl (''trusted subnet: %v'', err)
           | Inr subnet \<Rightarrow>
               let router = newRouter lib (Key cfg) priv subnet (dispatch (Routes om env (NewMetricHandler sv pg pub)))
               in if GRPCAddr cfg = '''' then Inr \<lparr>http_handler = router, grpc_method = None\<rparr>
                  else (case TrustedSubnetInterceptor (TrustedSubnet cfg) of
                          Inl err \<Rightarrow> Inl (''grpc trusted subnet: %v'', err)
                        | Inr interceptor \<Rightarrow>
                            let m = MetricsServer_UpdateMetrics (NewMetricsServer sv)
                            in (case listen (GRPCAddr cfg) of
                                  Some err \<Rightarrow> Inl (''grpc listen %s: %v'', err)
                                | None \<Rightarrow>
                                    Inr \<lparr>http_handler = router,
                                         grpc_method = Some (case interceptor of None \<Rightarrow> m | Some f \<Rightarrow> f m)\<rparr>))))"

subsection \<open>The life of a server on the file backend\<close>

datatype server_event = Http request | Rpc "metadata option" "pb_Metric list" | Save_tick

fun server_step ::
    "os_faults \<Rightarrow> gauge_order \<Rightarrow> counter_order \<Rightarrow> ServerConfig \<Rightarrow> FileBackedStorage server \<Rightarrow>
     FileBackedStorage hstate \<Rightarrow> server_event \<Rightarrow> FileBackedStorage hstate" where
  "server_step os og oc cfg srv w (Http r) = snd (http_handler srv r w)"
| "server_step os og oc cfg srv w (Rpc md ms) =
     (case grpc_method srv of None \<Rightarrow> w | Some m \<Rightarrow> w\<lparr>store := snd (m md ms (store w))\<rparr>)"
| "server_step os og oc cfg srv w Save_tick =
     (case save_mode_of cfg of
        Save_every d \<Rightarrow> w\<lparr>store := periodic_save_loop os og oc [(id, Ticker_C)] (store w)\<rparr>
      | _ \<Rightarrow> w)"

text \<open>Everything the server does after its start, up to and without the final save.\<close>

definition server_run ::
    "os_faults \<Rightarrow> gauge_order \<Rightarrow> counter_order \<Rightarrow> ServerConfig \<Rightarrow> FileBackedStorage server \<Rightarrow> FileBackedStorage \<Rightarrow>
     server_event list \<Rightarrow> FileBackedStorage hstate" where
  "server_run os og oc cfg srv f evs =
     foldl (server_step os og oc cfg srv) \<lparr>store = f, hlog = [], access = [], audit_out = []\<rparr> evs"

definition server_shutdown ::
    "os_faults \<Rightarrow> gauge_order \<Rightarrow> counter_order \<Rightarrow> FileBackedStorage hstate \<Rightarrow> FileBackedStorage eff" where
  "server_shutdown os og oc w = FileBackedStorage_Close os og oc (store w)"

text \<open>
  The start of \<^verbatim>\<open>main\<close> up to the choice of storage and publisher: the process may leave with the
  flag package's exit, or with a fatal message.
\<close>

datatype 'd started =
    Left_process flag_exit
  | Fatal string error
  | Ready ServerConfig "'d backend" "Publisher option"

definition server_start ::
    "env \<Rightarrow> reader \<Rightarrow> error option \<Rightarrow> (string \<Rightarrow> error + 'd sqldb \<times> 'd) \<Rightarrow> os_faults \<Rightarrow> (string, bytes) gomap \<Rightarrow>
     audit_env \<Rightarrow> audit_world \<Rightarrow> string list \<Rightarrow> 'd started" where
  "server_start env read zap_fault newDB os fs aenv aw args =
     (case ParseServerConfig env read args of
        Exit x \<Rightarrow> Left_process x
      | Failed err \<Rightarrow> Fatal ''invalid config: %v'' err
      | Parsed cfg \<Rightarrow>
          (case zap_fault of
             Some err \<Rightarrow> Fatal ''failed to init logger: %v'' err
           | None \<Rightarrow>
               (let backend = open_storage newDB os fs cfg
                in case fst (buildAuditPublisher aenv cfg aw) of
                     Inl err \<Rightarrow> Fatal ''failed to init audit publisher'' err
                   | Inr pub \<Rightarrow> Ready cfg backend pub)))"

subsection \<open>Every request keeps the storage's invariant\<close>

context handler_contract
begin

lemma keeps_text: "ok (store s) \<Longrightarrow> ok (store (snd (Handler_UpdateMetric env the_handler r s)))"
  using text_endpoint [of s r]
  by (cases "URLParam r ''name'' = []") (auto simp: Handler_UpdateMetric_def split: sum.splits)

lemma keeps_json:
  assumes "ok (store s)"
  shows "ok (store (snd (UpdateMetricJSON env the_handler r s)))"
proof (cases "Option.bind (Decoder_value (Body r)) decode_metric")
  case (Some m)
  then show ?thesis
    using assms json_endpoint [OF assms Some]
    by (cases "ID m = []"; cases "model_error m") (auto simp: UpdateMetricJSON_def)
qed (use assms in \<open>simp add: UpdateMetricJSON_def\<close>)

lemma keeps_batch:
  assumes "ok (store s)"
  shows "ok (store (snd (UpdateMetricsBatch env the_handler r s)))"
proof (cases "Option.bind (Decoder_value (Body r)) decode_metrics")
  case (Some ms)
  then show ?thesis using batch_endpoint [OF assms Some] by auto
qed (use assms in \<open>simp add: UpdateMetricsBatch_def\<close>)

lemma reads_frame:
  assumes "ok (store s)"
  shows "store (snd (ListMetrics om env the_handler r s)) = store s"
    and "store (snd (GetValueJSON env the_handler r s)) = store s"
    and "store (snd (Handler_GetValue env the_handler r s)) = store s"
proof -
  show "store (snd (ListMetrics om env the_handler r s)) = store s"
    using get_all_frame [OF assms]
    by (auto simp: ListMetrics_def MetricService_GetAllMetrics_def log_error_def split: prod.splits option.splits)
  show "store (snd (GetValueJSON env the_handler r s)) = store s"
    using assms by (auto simp: GetValueJSON_def query_metric log_error_def split: option.splits sum.splits if_splits)
  show "store (snd (Handler_GetValue env the_handler r s)) = store s"
    using value_endpoint [OF assms, of r] by (cases "URLParam r ''name'' = []") (auto simp: Handler_GetValue_def)
qed

lemma routes_keep:
  assumes "(m, p, f) \<in> set (Routes om env the_handler)" and "ok (store s)" and "pg = None"
  shows "ok (store (snd (f r s)))"
  using assms keeps_text keeps_json keeps_batch reads_frame
  by (auto simp: Routes_def Ping_def)

lemma rpc_keeps:
  assumes "ok s"
  shows "ok (snd (MetricsServer_UpdateMetrics (NewMetricsServer the_svc) md req s))"
  using assms update_list [OF assms]
  by (auto simp: MetricsServer_UpdateMetrics_def NewMetricsServer_def split: sum.splits)
    (metis snd_conv prod.case option.simps(4))

end

text \<open>
  What chi does with a request: it hands it to one of the routes, with the path's parameters,
  or answers itself.
\<close>

definition routes_only :: "'s dispatch \<Rightarrow> bool" where
  "routes_only dispatch \<longleftrightarrow>
     (\<forall>routes r w. snd (dispatch routes r w) = w \<or>
        (\<exists>m p f r'. (m, p, f) \<in> set routes \<and> dispatch routes r w = f r' w))"

text \<open>No middleware touches the storage.\<close>

definition keeps :: "('s \<Rightarrow> bool) \<Rightarrow> 's hstate handler \<Rightarrow> bool" where
  "keeps P h \<longleftrightarrow> (\<forall>r s ops s'. h r s = (ops, s') \<longrightarrow> P (store s) \<longrightarrow> P (store s'))"

lemma keepsI: "(\<And>r s. P (store s) \<Longrightarrow> P (store (snd (h r s)))) \<Longrightarrow> keeps P h"
  unfolding keeps_def by (metis snd_conv)

lemma keepsD: "keeps P h \<Longrightarrow> P (store s) \<Longrightarrow> P (store (snd (h r s)))"
  unfolding keeps_def by (metis surjective_pairing)

lemma keeps_hash: "keeps P h \<Longrightarrow> keeps P (use (HashMiddleware key) h)"
  by (auto simp: keeps_def HashMiddleware_def use_def log_error_def Let_def split: prod.splits sum.splits if_splits)

lemma keeps_gzip: "keeps P h \<Longrightarrow> keeps P (GzipMiddleware lib h)"
  by (auto simp: keeps_def GzipMiddleware_def log_error_def Let_def split: prod.splits option.splits if_splits)

lemma keeps_crypto: "keeps P h \<Longrightarrow> keeps P (use (CryptoMiddleware priv) h)"
  by (auto simp: keeps_def CryptoMiddleware_def use_def log_error_def Let_def
      split: prod.splits option.splits sum.splits if_splits)

lemma keeps_subnet: "TrustedSubnetMiddleware cidr = Inr subnet \<Longrightarrow> keeps P h \<Longrightarrow> keeps P (use subnet h)"
  by (auto simp: keeps_def TrustedSubnetMiddleware_def use_def log_error_def Let_def split: option.splits if_splits)

lemma keeps_router:
  assumes "TrustedSubnetMiddleware cidr = Inr subnet" and "keeps P mux"
  shows "keeps P (newRouter lib key priv subnet mux)"
  by (rule keepsI)
    (use keepsD [OF keeps_subnet [OF assms(1) keeps_crypto [OF keeps_gzip [OF keeps_hash [OF assms(2)]]]]]
      in \<open>simp add: newRouter_def\<close>)

subsection \<open>The file backend in service\<close>

text \<open>The invariant of a running server: a well-formed storage on its configured path.\<close>

definition file_at :: "string \<Rightarrow> FileBackedStorage \<Rightarrow> bool" where
  "file_at p f \<longleftrightarrow> file_ok f \<and> path f = p"

lemma update_path:
  "path (snd (FileBackedStorage_UpdateGauge s n v)) = path s"
  "path (snd (FileBackedStorage_UpdateCounter s n d)) = path s"
  "path (snd (FileBackedStorage_UpdateBatch s ms)) = path s"
  by (simp_all add: FileBackedStorage_UpdateGauge_def FileBackedStorage_UpdateCounter_def
      FileBackedStorage_UpdateBatch_def split: prod.split)

lemma save_keeps_at:
  assumes "file_at p f"
  shows "file_at p (snd (FileBackedStorage_Save os og oc f))"
proof -
  obtain e f' where "FileBackedStorage_Save os og oc f = (e, f')" by fastforce
  then show ?thesis using assms save_frame [of os og oc f e f'] by (simp add: file_at_def file_ok_def)
qed

lemma write_log_keeps [simp]: "file_at p (write_log m f) = file_at p f" "file_view (write_log m f) = file_view f"
  by (simp_all add: file_at_def file_ok_def file_view_def write_log_def)

lemma sync_keeps_at: "file_at p f \<Longrightarrow> file_at p (FileBackedStorage_SaveOnUpdate os og oc f)"
  using save_keeps_at [of p f os og oc]
  by (auto simp: FileBackedStorage_SaveOnUpdate_def split: prod.splits option.splits)

lemma tick_keeps_at: "file_at p f \<Longrightarrow> file_at p (periodic_save_loop os og oc [(id, Ticker_C)] f)"
  using save_keeps_at [of p f os og oc] by (auto split: prod.splits option.splits)

lemma callback_keeps_at:
  "file_callback os og oc cfg = Some g \<Longrightarrow> file_at p f \<Longrightarrow> file_at p (g f) \<and> file_view (g f) = file_view f"
  using sync_keeps_at [of p f] on_update_view(2) [of os og oc f]
  by (auto simp: file_callback_def split: save_mode.splits)

interpretation fsrv: handler_contract "FileBackedStorage_Storage og oc" file_view "file_at p" FormatFloat_f
    "file_callback os og oc cfg" env None pub
  for og oc p os cfg env pub
proof unfold_locales
  fix s n v d ms
  assume ok: "file_at p s"
  then have f: "file_ok s" by (simp add: file_at_def)
  show "\<exists>s'. UpdateGauge (FileBackedStorage_Storage og oc) s n v = (None, s') \<and> file_at p s' \<and>
      file_view s' = put_gauge n v (file_view s)"
    using fbs.update_gauge [OF f, of og oc n v] update_path(1) [of s n v] ok by (auto simp: file_updates file_at_def)
  show "\<exists>s'. UpdateCounter (FileBackedStorage_Storage og oc) s n d = (None, s') \<and> file_at p s' \<and>
      file_view s' = add_counter n d (file_view s)"
    using fbs.update_counter [OF f, of og oc n d] update_path(2) [of s n d] ok by (auto simp: file_updates file_at_def)
  show "\<exists>s'. UpdateBatch (FileBackedStorage_Storage og oc) s ms = (None, s') \<and> file_at p s' \<and>
      file_view s' = apply_batch ms (file_view s)"
    using fbs.update_batch [OF f, of og oc ms] update_path(3) [of s ms] ok by (auto simp: file_updates file_at_def)
qed (use fbs.get_all fbs.get_all_wf callback_keeps_at in \<open>auto simp: file_queries file_at_def\<close>)

lemma file_service_eq:
  "file_service os og oc cfg = \<lparr>storage = FileBackedStorage_Storage og oc, onUpdate = file_callback os og oc cfg\<rparr>"
  by (simp add: file_service_def SetOnUpdate_def NewMetricService_def split: option.split)

lemma interceptor_state:
  assumes "TrustedSubnetInterceptor cidr = Inr ic" and "\<And>md req s. P s \<Longrightarrow> P (snd (m md req s))" and "P s"
  shows "P (snd ((case ic of None \<Rightarrow> m | Some f \<Rightarrow> f m) md req s))"
  using assms by (auto simp: TrustedSubnetInterceptor_def Let_def split: if_splits option.splits)

lemma server_step_keeps:
  assumes b: "build_server lib load_key listen dispatch om env cfg (file_service os og oc cfg) None pub = Inr srv"
    and d: "routes_only dispatch" and at: "file_at p (store w)"
  shows "file_at p (store (server_step os og oc cfg srv w e))"
proof -
  let ?h = "NewMetricHandler (file_service os og oc cfg) None pub"
  have h: "?h = fsrv.the_handler og oc os cfg pub" by (simp add: NewMetricHandler_def file_service_eq)
  have mux: "keeps (file_at p) (dispatch (Routes om env ?h))"
    using d fsrv.routes_keep [of _ _ _ om env og oc os cfg pub p] unfolding routes_only_def h
    by (intro keepsI) metis
  show ?thesis
  proof (cases e)
    case (Http r)
    obtain priv subnet where "TrustedSubnetMiddleware (TrustedSubnet cfg) = Inr subnet"
      "http_handler srv = newRouter lib (Key cfg) priv subnet (dispatch (Routes om env ?h))"
      using b by (auto simp: build_server_def Let_def split: sum.splits if_splits option.splits)
    then show ?thesis using Http keepsD [OF keeps_router [OF _ mux] at] by simp
  next
    case (Rpc md ms)
    have rpc: "file_at p (snd (MetricsServer_UpdateMetrics (NewMetricsServer (file_service os og oc cfg)) md req s))"
      if "file_at p s" for md req s
      unfolding file_service_eq using fsrv.rpc_keeps that by blast
    show ?thesis
    proof (cases "grpc_method srv")
      case (Some m)
      then obtain ic where ic: "TrustedSubnetInterceptor (TrustedSubnet cfg) = Inr ic"
        "m = (case ic of None \<Rightarrow> MetricsServer_UpdateMetrics (NewMetricsServer (file_service os og oc cfg))
               | Some f \<Rightarrow> f (MetricsServer_UpdateMetrics (NewMetricsServer (file_service os og oc cfg))))"
        using b by (auto simp: build_server_def Let_def split: sum.splits if_splits option.splits)
      have "file_at p (snd (m md ms (store w)))"
        unfolding ic(2) by (rule interceptor_state [OF ic(1) rpc at])
      then show ?thesis using Rpc Some by simp
    qed (use Rpc at in simp)
  next
    case Save_tick
    then show ?thesis using at tick_keeps_at [OF at] by (simp split: save_mode.split)
  qed
qed

lemma server_run_keeps:
  assumes "build_server lib load_key listen dispatch om env cfg (file_service os og oc cfg) None pub = Inr srv"
    and "routes_only dispatch" and "file_at p f"
  shows "file_at p (store (server_run os og oc cfg srv f evs))"
proof -
  have "file_at p (store (foldl (server_step os og oc cfg srv) w evs))" if "file_at p (store w)" for w
    using that by (induction evs arbitrary: w) (simp_all add: server_step_keeps [OF assms(1,2)])
  then show ?thesis using assms(3) by (simp add: server_run_def)
qed

lemma load_keeps_at: "file_at p f \<Longrightarrow> file_at p (snd (FileBackedStorage_Load os f))"
  using mem_batch_loop(1) [of "mem f"]
  by (auto simp: FileBackedStorage_Load_def file_at_def file_ok_def load_loop_batch split: option.splits)

lemma open_file_at: "file_at (FileStoragePath cfg) (open_file os fs lg cfg)"
proof -
  have "file_at (FileStoragePath cfg) (NewFileBackedStorage (FileStoragePath cfg) fs lg)"
    by (simp add: file_at_def file_ok_def NewFileBackedStorage_def mem_new)
  with load_keeps_at [OF this, of os] show ?thesis
    by (auto simp: open_file_def Let_def split: prod.splits option.splits)
qed

lemma open_storage_at:
  "open_storage newDB os fs cfg = File_backend f \<Longrightarrow> FileStoragePath cfg \<noteq> [] \<and> file_at (FileStoragePath cfg) f"
  using open_file_at by (auto simp: open_storage_def split: prod.splits option.splits if_splits)

text \<open>Loading does not look at the log.\<close>

lemma load_log:
  "FileBackedStorage_Load os (f\<lparr>log := lg\<rparr>) = (case FileBackedStorage_Load os f of (e, f') \<Rightarrow> (e, f'\<lparr>log := lg\<rparr>))"
  by (simp add: FileBackedStorage_Load_def split: option.split)

lemma durable_reopen:
  assumes "durable os f" and "path f = FileStoragePath cfg" and "Restore cfg"
  shows "file_view (open_file os (files f) lg cfg) = file_view f"
proof -
  let ?n = "NewFileBackedStorage (path f) (files f)"
  obtain f' where f': "FileBackedStorage_Load os (?n []) = (None, f')" "file_view f' = file_view f"
    using assms(1) by (auto simp: durable_def)
  have "?n lg = (?n [])\<lparr>log := lg\<rparr>" by (simp add: NewFileBackedStorage_def)
  then have "FileBackedStorage_Load os (?n lg) = (None, f'\<lparr>log := lg\<rparr>)" using f'(1) by (simp add: load_log)
  then show ?thesis
    using f'(2) assms(2,3) by (simp add: open_file_def) (simp add: file_view_def)
qed

text \<open>
  C6. A server that is stopped and started again has all its metrics (cmd/server/main.go main with
  internal/repository/filestorage.go): on the file backend, after any sequence of HTTP requests,
  gRPC calls and periodic saves, the final save succeeds whenever the metrics can be written as
  JSON and the file system does not fail, and the next start with Restore on the same path selects
  the file backend again, with exactly the metrics the stopped server had.
\<close>

theorem restart_recovers:
  assumes "build_server lib load_key listen dispatch om env cfg (file_service os og oc cfg) None pub = Inr srv"
    and "routes_only dispatch"
    and "open_storage newDB os fs cfg = File_backend f"
    and "storable (file_view (store (server_run os og oc cfg srv f evs)))"
    and "faultless os (FileStoragePath cfg)"
    and "DatabaseDSN cfg' = ''''" and "FileStoragePath cfg' = FileStoragePath cfg" and "Restore cfg'"
  shows "\<exists>f1 f2. server_shutdown os og oc (server_run os og oc cfg srv f evs) = (None, f1) \<and>
    open_storage newDB os (files f1) cfg' = File_backend f2 \<and>
    file_view f2 = file_view (store (server_run os og oc cfg srv f evs))"
proof -
  let ?w = "server_run os og oc cfg srv f evs"
  have f: "FileStoragePath cfg \<noteq> ''''" "file_at (FileStoragePath cfg) f"
    using open_storage_at [OF assms(3)] by simp_all
  have at: "file_at (FileStoragePath cfg) (store ?w)" by (rule server_run_keeps [OF assms(1,2) f(2)])
  then have ok: "file_ok (store ?w)" "path (store ?w) = FileStoragePath cfg" by (simp_all add: file_at_def)
  obtain f1 where f1: "FileBackedStorage_Save os og oc (store ?w) = (None, f1)" "durable os f1"
    using save_durable [OF ok(1) assms(4)] assms(5) ok(2) by metis
  have "path f1 = FileStoragePath cfg'" "file_view f1 = file_view (store ?w)"
    using save_frame [OF f1(1)] ok(2) assms(7) by (simp_all add: file_view_def)
  then have "file_view (open_file os (files f1) [] cfg') = file_view (store ?w)"
    using durable_reopen [OF f1(2) _ assms(8), of "[]"] by simp
  then show ?thesis
    using f1(1) f(1) assms(6,7)
    by (simp add: server_shutdown_def FileBackedStorage_Close_def open_storage_def open_db_def)
qed

lemma find_member: "find P xs = Some x \<Longrightarrow> x \<in> set xs"
  by (induction xs) (auto split: if_splits)

lemma sample_dispatch_routes: "routes_only (sample_dispatch base)"
  unfolding routes_only_def sample_dispatch_def
  by (auto split: option.split prod.split dest!: find_member; metis)

definition sample_config :: ServerConfig where
  "sample_config = server_defaults\<lparr>FileStoragePath := ''m.json'', GRPCAddr := ''localhost:3200''\<rparr>"

definition sample_server :: "FileBackedStorage server" where
  "sample_server =
     \<lparr>http_handler = newRouter sample_gzip [] None None
        (sample_dispatch [] (Routes id sample_env (NewMetricHandler (file_service no_faults id id sample_config) None None))),
      grpc_method = Some (MetricsServer_UpdateMetrics (NewMetricsServer (file_service no_faults id id sample_config)))\<rparr>"

definition sample_rpc :: server_event where
  "sample_rpc = Rpc None [\<lparr>Id = ''cpu'', Type = Metric_GAUGE, pb_Delta = 0, pb_Value = 0x3FE0000000000000\<rparr>,
     \<lparr>Id = ''hits'', Type = Metric_COUNTER, pb_Delta = 3, pb_Value = 0\<rparr>]"

definition no_db :: "string \<Rightarrow> error + unit sqldb \<times> unit" where
  "no_db dsn = Inl (Opaque ''connection refused'')"

lemma sample_config_fields:
  "FileStoragePath sample_config = ''m.json''" "Restore sample_config" "DatabaseDSN sample_config = []"
  by (simp_all add: sample_config_def server_defaults_def)

lemma sample_opened: "open_storage no_db no_faults [] sample_config = File_backend (open_file no_faults [] [] sample_config)"
  by (simp add: open_storage_def open_db_def sample_config_fields)

lemma sample_built:
  "build_server sample_gzip (\<lambda>_. Inl (Opaque [])) (\<lambda>_. None) (sample_dispatch []) id sample_env sample_config
     (file_service no_faults id id sample_config) None None = Inr sample_server"
  by (simp add: build_server_def sample_config_def server_defaults_def TrustedSubnetMiddleware_def
      TrustedSubnetInterceptor_def sample_server_def)

theorem restart_recovers_witness:
  "\<exists>f f1 f2. open_storage no_db no_faults [] sample_config = File_backend f \<and>
     server_shutdown no_faults id id (server_run no_faults id id sample_config sample_server f [sample_rpc, sample_rpc]) = (None, f1) \<and>
     open_storage no_db no_faults (files f1) sample_config = File_backend f2 \<and>
     counter_of (file_view f2) ''hits'' = Some 6"
proof -
  let ?f = "open_file no_faults [] [] sample_config"
  let ?w = "server_run no_faults id id sample_config sample_server ?f [sample_rpc, sample_rpc]"
  have "mem (store ?w) = \<lparr>gauges = [(''cpu'', 0x3FE0000000000000)], counters = [(''hits'', 6)]\<rparr>" by code_simp
  then have v: "file_view (store ?w) = \<lparr>gauge_of = [''cpu'' \<mapsto> 0x3FE0000000000000], counter_of = [''hits'' \<mapsto> 6]\<rparr>"
    by (simp add: file_view_def mem_view_def map_get_def fun_eq_iff)
  have "f64_finite 0x3FE0000000000000" "utf8_valid ''cpu''" "utf8_valid ''hits''" by code_simp+
  then have "storable (file_view (store ?w))" by (auto simp: storable_def v split: if_splits)
  from restart_recovers [OF sample_built sample_dispatch_routes sample_opened this _ sample_config_fields(3) refl sample_config_fields(2)]
    sample_config_fields(1)
  show ?thesis using v sample_file_facts(2) sample_opened by fastforce
qed

end
