(* ===== verification/ServerShutdown.thy ===== *)
theory ServerShutdown
  imports ServerMain
begin

section \<open>The goroutines of the server process\<close>

text \<open>
  The end of \<^verbatim>\<open>cmd/server/main.go\<close>: the errgroup with the HTTP server, the gRPC server and the
  shutdown goroutine, the five second budget, and the final save. As for the agent, the model is a
  step relation between blocking points. What \<^verbatim>\<open>net/http\<close> and gRPC promise is built in: closing a
  server makes its serving goroutine return, \<^verbatim>\<open>Shutdown\<close> and \<^verbatim>\<open>GracefulStop\<close> take no new requests
  and return when the accepted ones are finished, \<^verbatim>\<open>Shutdown\<close> also when its context ends, and
  \<^verbatim>\<open>Stop\<close> makes a pending \<^verbatim>\<open>GracefulStop\<close> return.
\<close>

subsection \<open>States\<close>

datatype serve_pc = Serving | Closing | Returned

text \<open>
  The shutdown goroutine: before \<^verbatim>\<open>ctx.Done()\<close>, in \<^verbatim>\<open>srv.Shutdown\<close>, in the deferred select, after
  the hard stop, returned. \<open>T_Idle\<close> and so on are the goroutine around \<^verbatim>\<open>GracefulStop\<close>.
\<close>

datatype shut_pc = S_Wait | S_Http | S_Grpc | S_Forced | S_Done
datatype stop_pc = T_Idle | T_Start | T_Graceful | T_Stopped
datatype main_pc = M_Wait | M_Save | M_Done

record proc =
  ctx_done :: bool
  http_at :: serve_pc
  grpc_at :: serve_pc
  shut_at :: shut_pc
  stopper :: stop_pc
  timer :: bool
  main_at :: main_pc
  open_http :: "request list"
  open_rpc :: "((metadata option) \<times> pb_Metric list) list"
  world_st :: "FileBackedStorage hstate"
  saved :: "error option option"

definition proc_init :: "ServerConfig \<Rightarrow> FileBackedStorage \<Rightarrow> proc" where
  "proc_init cfg f =
     \<lparr>ctx_done = False, http_at = Serving, grpc_at = (if GRPCAddr cfg = '''' then Returned else Serving),
      shut_at = S_Wait, stopper = T_Idle, timer = False, main_at = M_Wait, open_http = [], open_rpc = [],
      world_st = \<lparr>store = f, hlog = [], access = [], audit_out = []\<rparr>, saved = None\<rparr>"

definition close_serve :: "serve_pc \<Rightarrow> serve_pc" where
  "close_serve p = (if p = Serving then Closing else p)"

subsection \<open>Steps\<close>

text \<open>
  The environment acts (signals, arriving requests, ticks, timers, failing listeners), a handler
  finishes a request, or the program itself moves.
\<close>

datatype proc_kind = Env | Handle | Prog

inductive proc_step ::
    "os_faults \<Rightarrow> gauge_order \<Rightarrow> counter_order \<Rightarrow> ServerConfig \<Rightarrow> FileBackedStorage server \<Rightarrow> proc \<Rightarrow> proc_kind \<Rightarrow> proc \<Rightarrow> bool"
  for os og oc cfg srv where
  signal: "main_at s \<noteq> M_Done \<Longrightarrow> proc_step os og oc cfg srv s Env (s\<lparr>ctx_done := True\<rparr>)"
| arrive_http: "main_at s \<noteq> M_Done \<Longrightarrow> http_at s = Serving \<Longrightarrow>
    proc_step os og oc cfg srv s Env (s\<lparr>open_http := r # open_http s\<rparr>)"
| arrive_rpc: "main_at s \<noteq> M_Done \<Longrightarrow> grpc_at s = Serving \<Longrightarrow>
    proc_step os og oc cfg srv s Env (s\<lparr>open_rpc := c # open_rpc s\<rparr>)"
| save_tick: "main_at s \<noteq> M_Done \<Longrightarrow>
    proc_step os og oc cfg srv s Env (s\<lparr>world_st := server_step os og oc cfg srv (world_st s) Save_tick\<rparr>)"
| http_error: "main_at s \<noteq> M_Done \<Longrightarrow> http_at s = Serving \<Longrightarrow>
    proc_step os og oc cfg srv s Env (s\<lparr>http_at := Returned, ctx_done := True\<rparr>)"
| grpc_error: "main_at s \<noteq> M_Done \<Longrightarrow> grpc_at s = Serving \<Longrightarrow>
    proc_step os og oc cfg srv s Env (s\<lparr>grpc_at := Returned, ctx_done := True\<rparr>)"
| timeout: "main_at s \<noteq> M_Done \<Longrightarrow> shut_at s \<in> {S_Http, S_Grpc} \<Longrightarrow>
    proc_step os og oc cfg srv s Env (s\<lparr>timer := True\<rparr>)"
| serve_http: "main_at s \<noteq> M_Done \<Longrightarrow> open_http s = xs @ r # ys \<Longrightarrow>
    proc_step os og oc cfg srv s Handle
      (s\<lparr>open_http := xs @ ys, world_st := server_step os og oc cfg srv (world_st s) (Http r)\<rparr>)"
| serve_rpc: "main_at s \<noteq> M_Done \<Longrightarrow> open_rpc s = xs @ (md, ms) # ys \<Longrightarrow>
    proc_step os og oc cfg srv s Handle
      (s\<lparr>open_rpc := xs @ ys, world_st := server_step os og oc cfg srv (world_st s) (Rpc md ms)\<rparr>)"
| http_closed: "http_at s = Closing \<Longrightarrow> proc_step os og oc cfg srv s Prog (s\<lparr>http_at := Returned\<rparr>)"
| grpc_closed: "grpc_at s = Closing \<Longrightarrow> proc_step os og oc cfg srv s Prog (s\<lparr>grpc_at := Returned\<rparr>)"
| shut_start: "shut_at s = S_Wait \<Longrightarrow> ctx_done s \<Longrightarrow>
    proc_step os og oc cfg srv s Prog
      (s\<lparr>shut_at := S_Http, http_at := close_serve (http_at s),
         stopper := (if GRPCAddr cfg = '''' then T_Stopped else T_Start)\<rparr>)"
| stop_start: "stopper s = T_Start \<Longrightarrow>
    proc_step os og oc cfg srv s Prog (s\<lparr>stopper := T_Graceful, grpc_at := close_serve (grpc_at s)\<rparr>)"
| stop_done: "stopper s = T_Graceful \<Longrightarrow> open_rpc s = [] \<or> shut_at s = S_Forced \<Longrightarrow>
    proc_step os og oc cfg srv s Prog (s\<lparr>stopper := T_Stopped\<rparr>)"
| http_drained: "shut_at s = S_Http \<Longrightarrow> open_http s = [] \<or> timer s \<Longrightarrow>
    proc_step os og oc cfg srv s Prog (s\<lparr>shut_at := S_Grpc\<rparr>)"
| grpc_stopped: "shut_at s = S_Grpc \<Longrightarrow> stopper s = T_Stopped \<Longrightarrow>
    proc_step os og oc cfg srv s Prog (s\<lparr>shut_at := S_Done\<rparr>)"
| grpc_force: "shut_at s = S_Grpc \<Longrightarrow> timer s \<Longrightarrow> stopper s \<noteq> T_Stopped \<Longrightarrow>
    proc_step os og oc cfg srv s Prog (s\<lparr>shut_at := S_Forced, grpc_at := close_serve (grpc_at s)\<rparr>)"
| forced_stopped: "shut_at s = S_Forced \<Longrightarrow> stopper s = T_Stopped \<Longrightarrow>
    proc_step os og oc cfg srv s Prog (s\<lparr>shut_at := S_Done\<rparr>)"
| group_wait: "main_at s = M_Wait \<Longrightarrow> http_at s = Returned \<Longrightarrow> grpc_at s = Returned \<Longrightarrow> shut_at s = S_Done \<Longrightarrow>
    proc_step os og oc cfg srv s Prog (s\<lparr>main_at := M_Save\<rparr>)"
| final_save: "main_at s = M_Save \<Longrightarrow> server_shutdown os og oc (world_st s) = (e, f) \<Longrightarrow>
    proc_step os og oc cfg srv s Prog (s\<lparr>main_at := M_Done, saved := Some e, world_st := (world_st s)\<lparr>store := f\<rparr>\<rparr>)"

inductive proc_reachable ::
    "os_faults \<Rightarrow> gauge_order \<Rightarrow> counter_order \<Rightarrow> ServerConfig \<Rightarrow> FileBackedStorage server \<Rightarrow> FileBackedStorage \<Rightarrow> proc \<Rightarrow> bool"
  for os og oc cfg srv f where
  start: "proc_reachable os og oc cfg srv f (proc_init cfg f)"
| move: "proc_reachable os og oc cfg srv f s \<Longrightarrow> proc_step os og oc cfg srv s k t \<Longrightarrow> proc_reachable os og oc cfg srv f t"

text \<open>Runs of the program and its handlers, with the number of steps.\<close>

inductive proc_moves ::
    "os_faults \<Rightarrow> gauge_order \<Rightarrow> counter_order \<Rightarrow> ServerConfig \<Rightarrow> FileBackedStorage server \<Rightarrow> nat \<Rightarrow> proc \<Rightarrow> proc \<Rightarrow> bool"
  for os og oc cfg srv where
  none: "proc_moves os og oc cfg srv 0 s s"
| more: "proc_step os og oc cfg srv s k t \<Longrightarrow> k \<noteq> Env \<Longrightarrow> proc_moves os og oc cfg srv n t u \<Longrightarrow>
    proc_moves os og oc cfg srv (Suc n) s u"

subsection \<open>The invariant\<close>

definition proc_inv :: "os_faults \<Rightarrow> ServerConfig \<Rightarrow> proc \<Rightarrow> bool" where
  "proc_inv os cfg s \<longleftrightarrow>
     (shut_at s \<noteq> S_Wait \<longrightarrow> ctx_done s \<and> http_at s \<noteq> Serving \<and> stopper s \<noteq> T_Idle) \<and>
     (shut_at s = S_Wait \<longrightarrow> stopper s = T_Idle \<and> \<not> timer s) \<and>
     (stopper s \<in> {T_Graceful, T_Stopped} \<longrightarrow> grpc_at s \<noteq> Serving) \<and>
     (shut_at s = S_Forced \<longrightarrow> timer s) \<and>
     (\<not> timer s \<and> shut_at s \<in> {S_Grpc, S_Done} \<longrightarrow> open_http s = []) \<and>
     (\<not> timer s \<and> stopper s = T_Stopped \<longrightarrow> open_rpc s = []) \<and>
     (shut_at s = S_Done \<longrightarrow> stopper s = T_Stopped) \<and>
     (main_at s \<noteq> M_Wait \<longrightarrow> http_at s = Returned \<and> grpc_at s = Returned \<and> shut_at s = S_Done) \<and>
     (GRPCAddr cfg = '''' \<longrightarrow> grpc_at s = Returned \<and> open_rpc s = []) \<and>
     file_at (FileStoragePath cfg) (store (world_st s)) \<and>
     (main_at s = M_Done \<and> storable (file_view (store (world_st s))) \<and> faultless os (FileStoragePath cfg) \<longrightarrow>
        saved s = Some None \<and> durable os (store (world_st s)))"

lemma proc_init_inv: "file_at (FileStoragePath cfg) f \<Longrightarrow> proc_inv os cfg (proc_init cfg f)"
  by (simp add: proc_inv_def proc_init_def)

text \<open>The final save: what it leaves, and that it succeeds.\<close>

lemma final_save_inv:
  assumes "server_shutdown os og oc w = (e, f)" and "file_at p (store w)"
  shows "file_at p f" and "storable (file_view f) \<Longrightarrow> faultless os p \<Longrightarrow> e = None \<and> durable os f"
proof -
  have sv: "FileBackedStorage_Save os og oc (store w) = (e, f)"
    using assms(1) by (simp add: server_shutdown_def FileBackedStorage_Close_def)
  show "file_at p f" using save_keeps_at [OF assms(2), of os og oc] by (simp add: sv)
  assume st: "storable (file_view f)" "faultless os p"
  have "file_view (store w) = file_view f" using save_frame(1) [OF sv] by (simp add: file_view_def)
  then obtain f' where "FileBackedStorage_Save os og oc (store w) = (None, f')" "durable os f'"
    using save_durable [of "store w" os og oc] st assms(2) by (metis file_at_def)
  then show "e = None \<and> durable os f" using sv by simp
qed

text \<open>A server built by \<^verbatim>\<open>main\<close> keeps the storage well formed with every event.\<close>

definition sound_server :: "os_faults \<Rightarrow> gauge_order \<Rightarrow> counter_order \<Rightarrow> ServerConfig \<Rightarrow> FileBackedStorage server \<Rightarrow> bool" where
  "sound_server os og oc cfg srv \<longleftrightarrow>
     (\<forall>w e. file_at (FileStoragePath cfg) (store w) \<longrightarrow>
        file_at (FileStoragePath cfg) (store (server_step os og oc cfg srv w e)))"

lemma built_server_sound:
  "build_server lib load_key listen dispatch om env cfg (file_service os og oc cfg) None pub = Inr srv \<Longrightarrow>
     routes_only dispatch \<Longrightarrow> sound_server os og oc cfg srv"
  by (simp add: sound_server_def server_step_keeps)

lemma proc_step_inv:
  assumes "proc_step os og oc cfg srv s k t" and "proc_inv os cfg s" and "sound_server os og oc cfg srv"
  shows "proc_inv os cfg t"
  using assms(1)
proof cases
  case (final_save e f)
  have at: "file_at (FileStoragePath cfg) (store (world_st s))" using assms(2) by (simp add: proc_inv_def)
  show ?thesis
    using final_save_inv [OF final_save(4) at] assms(2) final_save(1-3) by (simp add: proc_inv_def)
next
  case save_tick
  then show ?thesis using assms(2,3) by (simp add: proc_inv_def sound_server_def del: server_step.simps)
next
  case (serve_http xs r ys)
  then show ?thesis using assms(2,3) by (auto simp: proc_inv_def sound_server_def simp del: server_step.simps)
next
  case (serve_rpc xs md ms ys)
  then show ?thesis using assms(2,3) by (auto simp: proc_inv_def sound_server_def simp del: server_step.simps)
qed (use assms(2) in \<open>auto simp: proc_inv_def close_serve_def\<close>)

lemma proc_reachable_inv:
  assumes "proc_reachable os og oc cfg srv f s" and "file_at (FileStoragePath cfg) f" and "sound_server os og oc cfg srv"
  shows "proc_inv os cfg s"
  using assms(1) by (induction rule: proc_reachable.induct) (auto intro: proc_init_inv proc_step_inv assms(2,3))

subsection \<open>Shutdown ends\<close>

fun serve_work :: "serve_pc \<Rightarrow> nat" where
  "serve_work Serving = 2" | "serve_work Closing = 1" | "serve_work Returned = 0"

fun shut_work :: "shut_pc \<Rightarrow> nat" where
  "shut_work S_Wait = 4" | "shut_work S_Http = 3" | "shut_work S_Grpc = 2" | "shut_work S_Forced = 1" | "shut_work S_Done = 0"

fun stop_work :: "stop_pc \<Rightarrow> nat" where
  "stop_work T_Idle = 3" | "stop_work T_Start = 2" | "stop_work T_Graceful = 1" | "stop_work T_Stopped = 0"

fun main_work :: "main_pc \<Rightarrow> nat" where
  "main_work M_Wait = 2" | "main_work M_Save = 1" | "main_work M_Done = 0"

definition proc_work :: "proc \<Rightarrow> nat" where
  "proc_work s = serve_work (http_at s) + serve_work (grpc_at s) + shut_work (shut_at s) + stop_work (stopper s) +
     main_work (main_at s) + length (open_http s) + length (open_rpc s)"

lemma close_serve_work: "serve_work (close_serve p) \<le> serve_work p"
  by (cases p) (simp_all add: close_serve_def)

lemma proc_step_decreases:
  assumes "proc_step os og oc cfg srv s k t" and "k \<noteq> Env" and "proc_inv os cfg s"
  shows "proc_work t < proc_work s"
  using assms(1)
proof cases
  case shut_start
  then show ?thesis using close_serve_work [of "http_at s"] assms(3) by (simp add: proc_work_def proc_inv_def)
next
  case stop_start
  then show ?thesis using close_serve_work [of "grpc_at s"] by (simp add: proc_work_def)
next
  case grpc_force
  then show ?thesis using close_serve_work [of "grpc_at s"] by (simp add: proc_work_def)
qed (use assms(2) in \<open>simp_all add: proc_work_def\<close>)

lemma proc_work_bound: "proc_work s \<le> 13 + length (open_http s) + length (open_rpc s)"
proof -
  have "serve_work p \<le> 2" for p by (cases p) simp_all
  then have "serve_work (http_at s) \<le> 2" "serve_work (grpc_at s) \<le> 2" by auto
  moreover have "shut_work (shut_at s) \<le> 4" by (cases "shut_at s") simp_all
  moreover have "stop_work (stopper s) \<le> 3" by (cases "stopper s") simp_all
  moreover have "main_work (main_at s) \<le> 2" by (cases "main_at s") simp_all
  ultimately show ?thesis by (simp add: proc_work_def)
qed

lemma ctx_done_stays: "proc_step os og oc cfg srv s k t \<Longrightarrow> ctx_done s \<Longrightarrow> ctx_done t"
  by (induction rule: proc_step.induct) simp_all

text \<open>Until the process has ended it can move, and once the timer has fired it needs no handler for that.\<close>

lemma shutdown_moves:
  assumes inv: "proc_inv os cfg s" and "ctx_done s" and "main_at s \<noteq> M_Done"
  shows "\<exists>k t. proc_step os og oc cfg srv s k t \<and> k \<noteq> Env \<and> (timer s \<longrightarrow> k = Prog)"
proof -
  let ?P = "\<exists>t. proc_step os og oc cfg srv s Prog t"
  let ?H = "\<exists>t. proc_step os og oc cfg srv s Handle t"
  have handle: ?H if o: "open_http s \<noteq> [] \<or> open_rpc s \<noteq> []"
  proof (cases "open_http s")
    case (Cons r ys)
    then show ?thesis using proc_step.serve_http [of s "[]" r ys os og oc cfg srv] assms(3) by auto
  next
    case Nil
    then obtain c ys where "open_rpc s = c # ys" using o by (cases "open_rpc s") auto
    moreover obtain md ms where "c = (md, ms)" by (cases c)
    ultimately show ?thesis using proc_step.serve_rpc [of s "[]" md ms ys os og oc cfg srv] assms(3) by auto
  qed
  have "?P \<or> (?H \<and> \<not> timer s)"
  proof (cases "shut_at s")
    case S_Wait
    then show ?thesis using shut_start [of s] assms(2) by blast
  next
    case S_Http
    then show ?thesis using http_drained [OF S_Http] handle by blast
  next
    case S_Grpc
    then have "stopper s \<noteq> T_Idle" using inv by (simp add: proc_inv_def)
    then consider "stopper s = T_Start" | (g) "stopper s = T_Graceful" | "stopper s = T_Stopped" by (cases "stopper s") auto
    then show ?thesis
    proof cases
      case g
      then have "stopper s \<noteq> T_Stopped" by simp
      then show ?thesis using g grpc_force [OF S_Grpc] stop_done [OF g] handle by blast
    qed (use stop_start [of s] grpc_stopped [OF S_Grpc] in blast)+
  next
    case S_Forced
    then have "stopper s \<noteq> T_Idle" using inv by (simp add: proc_inv_def)
    then consider "stopper s = T_Start" | "stopper s = T_Graceful" | "stopper s = T_Stopped" by (cases "stopper s") auto
    then show ?thesis
      by cases (use forced_stopped [OF S_Forced] stop_start [of s] stop_done [of s] S_Forced in blast)+
  next
    case S_Done
    then have "http_at s \<noteq> Serving" "grpc_at s \<noteq> Serving" using inv by (auto simp: proc_inv_def)
    then consider "http_at s = Closing" | "grpc_at s = Closing" | "http_at s = Returned" "grpc_at s = Returned"
      by (meson serve_pc.exhaust)
    then show ?thesis
    proof cases
      case 3
      obtain e f where "server_shutdown os og oc (world_st s) = (e, f)" by fastforce
      then show ?thesis
        using group_wait [OF _ 3 S_Done] final_save [of s os og oc e f] assms(3) by (meson main_pc.exhaust)
    qed (use http_closed [of s] grpc_closed [of s] in blast)+
  qed
  then show ?thesis by blast
qed

lemma proc_moves_keep:
  assumes "proc_moves os og oc cfg srv n s t" and "proc_inv os cfg s" and "ctx_done s" and "sound_server os og oc cfg srv"
  shows "proc_inv os cfg t \<and> ctx_done t \<and> n + proc_work t \<le> proc_work s"
  using assms
proof (induction rule: proc_moves.induct)
  case (more s k t n u)
  have "proc_inv os cfg t" "ctx_done t" "proc_work t < proc_work s"
    using more.prems more.hyps(1,2)
    by (blast intro: proc_step_inv ctx_done_stays proc_step_decreases)+
  with more.IH more.prems(3) show ?case by simp
qed simp

lemma proc_moves_finish:
  assumes "proc_inv os cfg s" and "ctx_done s" and "sound_server os og oc cfg srv"
  shows "\<exists>n t. proc_moves os og oc cfg srv n s t \<and> main_at t = M_Done"
  using assms
proof (induction "proc_work s" arbitrary: s rule: less_induct)
  case less
  show ?case
  proof (cases "main_at s = M_Done")
    case False
    obtain k t where kt: "proc_step os og oc cfg srv s k t" "k \<noteq> Env"
      using shutdown_moves [OF less.prems(1,2) False] by blast
    then obtain n u where "proc_moves os og oc cfg srv n t u" "main_at u = M_Done"
      using less.hyps [OF proc_step_decreases [OF kt less.prems(1)] proc_step_inv [OF kt(1) less.prems(1,3)]
          ctx_done_stays [OF kt(1) less.prems(2)] less.prems(3)] by blast
    then show ?thesis using kt by (blast intro: proc_moves.more)
  qed (blast intro: proc_moves.none)
qed

text \<open>
  C5. The server process ends after a signal, and a drained shutdown loses nothing
  (cmd/server/main.go, the errgroup and the code after it): from any reachable state whose context
  is done, the program and its handlers make at most \<open>13\<close> steps plus one per open request, they can
  always make one until the process has ended, and once the five second timer has fired the
  program needs no handler to finish. When the process has ended without the timer, no accepted
  request is left open; in any case the final save has succeeded, and the next start finds every
  metric, if the metrics can be stored and the file system has no fault.
\<close>

theorem server_terminates:
  assumes "proc_reachable os og oc cfg srv f s" and "ctx_done s"
    and "build_server lib load_key listen dispatch om env cfg (file_service os og oc cfg) None pub = Inr srv"
    and "routes_only dispatch" and "open_storage newDB os fs cfg = File_backend f"
  shows "(\<forall>n t. proc_moves os og oc cfg srv n s t \<longrightarrow>
      n \<le> 13 + length (open_http s) + length (open_rpc s) \<and>
      (if main_at t = M_Done then
         (\<not> timer t \<longrightarrow> open_http t = [] \<and> open_rpc t = []) \<and>
         (storable (file_view (store (world_st t))) \<and> faultless os (FileStoragePath cfg) \<longrightarrow>
            saved t = Some None \<and> durable os (store (world_st t)))
       else \<exists>k u. proc_step os og oc cfg srv t k u \<and> k \<noteq> Env \<and> (timer t \<longrightarrow> k = Prog))) \<and>
    (\<exists>n t. proc_moves os og oc cfg srv n s t \<and> main_at t = M_Done)"
proof -
  have sound: "sound_server os og oc cfg srv" by (rule built_server_sound [OF assms(3,4)])
  have "file_at (FileStoragePath cfg) f" using open_storage_at [OF assms(5)] by simp
  then have inv: "proc_inv os cfg s" using proc_reachable_inv [OF assms(1) _ sound] by blast
  have "n \<le> 13 + length (open_http s) + length (open_rpc s) \<and>
      (if main_at t = M_Done then
         (\<not> timer t \<longrightarrow> open_http t = [] \<and> open_rpc t = []) \<and>
         (storable (file_view (store (world_st t))) \<and> faultless os (FileStoragePath cfg) \<longrightarrow>
            saved t = Some None \<and> durable os (store (world_st t)))
       else \<exists>k u. proc_step os og oc cfg srv t k u \<and> k \<noteq> Env \<and> (timer t \<longrightarrow> k = Prog))"
    if "proc_moves os og oc cfg srv n s t" for n t
  proof -
    have k: "proc_inv os cfg t" "ctx_done t" "n + proc_work t \<le> proc_work s"
      using proc_moves_keep [OF that inv assms(2) sound] by simp_all
    have "n \<le> 13 + length (open_http s) + length (open_rpc s)" using k(3) proc_work_bound [of s] by linarith
    then show ?thesis using shutdown_moves [OF k(1,2)] k(1) by (auto simp: proc_inv_def)
  qed
  then show ?thesis using proc_moves_finish [OF inv assms(2) sound] by blast
qed

theorem server_terminates_witness:
  "\<exists>n t. proc_moves no_faults id id sample_config sample_server n
      ((proc_init sample_config (open_file no_faults [] [] sample_config))\<lparr>ctx_done := True\<rparr>) t \<and>
     main_at t = M_Done \<and> n \<le> 13"
proof -
  let ?f = "open_file no_faults [] [] sample_config"
  let ?s = "(proc_init sample_config ?f)\<lparr>ctx_done := True\<rparr>"
  have r: "proc_reachable no_faults id id sample_config sample_server ?f ?s"
    by (rule proc_reachable.move [OF proc_reachable.start], rule proc_step.signal) (simp add: proc_init_def)
  have e: "open_http ?s = []" "open_rpc ?s = []" by (simp_all add: proc_init_def)
  have "ctx_done ?s" by simp
  note t = server_terminates [OF r this sample_built sample_dispatch_routes sample_opened]
  then obtain n t where nt: "proc_moves no_faults id id sample_config sample_server n ?s t" "main_at t = M_Done" by blast
  moreover have "n \<le> 13 + length (open_http ?s) + length (open_rpc ?s)" using t nt(1) by blast
  ultimately show ?thesis using e by auto
qed

end
