(* ===== verification/Collector.thy ===== *)
theory Collector
  imports MemStorage MetricsJson
begin

section \<open>The agent's collector\<close>

text \<open>
  \<^verbatim>\<open>internal/agent/collector.go\<close> and \<^verbatim>\<open>convertToModelMetrics\<close> of \<^verbatim>\<open>internal/agent/agent.go\<close>. The
  collector's mutex makes every method one step on its state. What \<^verbatim>\<open>runtime.ReadMemStats\<close>,
  \<^verbatim>\<open>math/rand\<close> and gopsutil return are arguments.
\<close>

subsection \<open>State\<close>

record agent_Metrics =
  Gauge :: "(string, float64) gomap"
  Counter :: int64

record Collector =
  metrics :: agent_Metrics

definition NewCollector :: Collector where
  "NewCollector = \<lparr>metrics = \<lparr>Gauge = make_map, Counter = 0\<rparr>\<rparr>"

text \<open>The fields of \<^verbatim>\<open>runtime.MemStats\<close> the collector reads.\<close>

record MemStats =
  Alloc :: "64 word"
  BuckHashSys :: "64 word"
  Frees :: "64 word"
  GCCPUFraction :: float64
  GCSys :: "64 word"
  HeapAlloc :: "64 word"
  HeapIdle :: "64 word"
  HeapInuse :: "64 word"
  HeapObjects :: "64 word"
  HeapReleased :: "64 word"
  HeapSys :: "64 word"
  LastGC :: "64 word"
  Lookups :: "64 word"
  MCacheInuse :: "64 word"
  MCacheSys :: "64 word"
  MSpanInuse :: "64 word"
  MSpanSys :: "64 word"
  Mallocs :: "64 word"
  NextGC :: "64 word"
  NumForcedGC :: "32 word"
  NumGC :: "32 word"
  OtherSys :: "64 word"
  PauseTotalNs :: "64 word"
  StackInuse :: "64 word"
  StackSys :: "64 word"
  Sys :: "64 word"
  TotalAlloc :: "64 word"

subsection \<open>Operations\<close>

text \<open>The assignments of \<^verbatim>\<open>Collect\<close> in the source's order; \<open>float64\<close> rounds an unsigned integer.\<close>

definition runtime_gauges :: "MemStats \<Rightarrow> float64 \<Rightarrow> (string \<times> float64) list" where
  "runtime_gauges ms rnd =
     [(''Alloc'', float64_of_uint (unat (Alloc ms))),
      (''BuckHashSys'', float64_of_uint (unat (BuckHashSys ms))),
      (''Frees'', float64_of_uint (unat (Frees ms))),
      (''GCCPUFraction'', GCCPUFraction ms),
      (''GCSys'', float64_of_uint (unat (GCSys ms))),
      (''HeapAlloc'', float64_of_uint (unat (HeapAlloc ms))),
      (''HeapIdle'', float64_of_uint (unat (HeapIdle ms))),
      (''HeapInuse'', float64_of_uint (unat (HeapInuse ms))),
      (''HeapObjects'', float64_of_uint (unat (HeapObjects ms))),
      (''HeapReleased'', float64_of_uint (unat (HeapReleased ms))),
      (''HeapSys'', float64_of_uint (unat (HeapSys ms))),
      (''LastGC'', float64_of_uint (unat (LastGC ms))),
      (''Lookups'', float64_of_uint (unat (Lookups ms))),
      (''MCacheInuse'', float64_of_uint (unat (MCacheInuse ms))),
      (''MCacheSys'', float64_of_uint (unat (MCacheSys ms))),
      (''MSpanInuse'', float64_of_uint (unat (MSpanInuse ms))),
      (''MSpanSys'', float64_of_uint (unat (MSpanSys ms))),
      (''Mallocs'', float64_of_uint (unat (Mallocs ms))),
      (''NextGC'', float64_of_uint (unat (NextGC ms))),
      (''NumForcedGC'', float64_of_uint (unat (NumForcedGC ms))),
      (''NumGC'', float64_of_uint (unat (NumGC ms))),
      (''OtherSys'', float64_of_uint (unat (OtherSys ms))),
      (''PauseTotalNs'', float64_of_uint (unat (PauseTotalNs ms))),
      (''StackInuse'', float64_of_uint (unat (StackInuse ms))),
      (''StackSys'', float64_of_uint (unat (StackSys ms))),
      (''Sys'', float64_of_uint (unat (Sys ms))),
      (''TotalAlloc'', float64_of_uint (unat (TotalAlloc ms))),
      (''RandomValue'', rnd)]"

definition set_gauges :: "(string, float64) gomap \<Rightarrow> (string \<times> float64) list \<Rightarrow> (string, float64) gomap" where
  "set_gauges m kvs = foldl (\<lambda>m (k, v). map_set m k v) m kvs"

definition Collect :: "MemStats \<Rightarrow> float64 \<Rightarrow> Collector \<Rightarrow> Collector" where
  "Collect ms rnd c =
     \<lparr>metrics = \<lparr>Gauge = set_gauges (Gauge (metrics c)) (runtime_gauges ms rnd), Counter = Counter (metrics c) + 1\<rparr>\<rparr>"

text \<open>
  \<^verbatim>\<open>CollectExtra\<close> takes what \<^verbatim>\<open>mem.VirtualMemory\<close> (total and free) and \<^verbatim>\<open>cpu.Percent\<close> return.
\<close>

definition cpu_gauges :: "float64 list \<Rightarrow> (string \<times> float64) list" where
  "cpu_gauges pcts = map (\<lambda>(i, pct). (''CPUutilization'' @ show_nat (i + 1), pct)) (enumerate 0 pcts)"

definition CollectExtra ::
    "error + (64 word \<times> 64 word) \<Rightarrow> error + float64 list \<Rightarrow> Collector \<Rightarrow> Collector eff" where
  "CollectExtra vm cpu c =
     (case vm of
        Inl err \<Rightarrow> (Some (Wrapf ''get virtual memory: %w'' [] err), c)
      | Inr (tot, fre) \<Rightarrow>
          (case cpu of
             Inl err \<Rightarrow> (Some (Wrapf ''get cpu percent: %w'' [] err), c)
           | Inr pcts \<Rightarrow>
               (None, c\<lparr>metrics := (metrics c)\<lparr>Gauge :=
                  set_gauges
                    (set_gauges (Gauge (metrics c))
                       [(''TotalMemory'', float64_of_uint (unat tot)), (''FreeMemory'', float64_of_uint (unat fre))])
                    (cpu_gauges pcts)\<rparr>\<rparr>)))"

definition GetSnapshot :: "(string, float64) map_order \<Rightarrow> Collector \<Rightarrow> agent_Metrics" where
  "GetSnapshot om c =
     \<lparr>Gauge = set_gauges make_map (go_range om (Gauge (metrics c))), Counter = Counter (metrics c)\<rparr>"

definition AckCounter :: "int64 \<Rightarrow> Collector \<Rightarrow> Collector" where
  "AckCounter delta c = c\<lparr>metrics := (metrics c)\<lparr>Counter := Counter (metrics c) - delta\<rparr>\<rparr>"

definition convertToModelMetrics :: "(string, float64) map_order \<Rightarrow> agent_Metrics \<Rightarrow> Metrics list" where
  "convertToModelMetrics om snapshot =
     map (\<lambda>(name, val). gauge_metric name val) (go_range om (Gauge snapshot)) @
     [counter_metric ''PollCount'' (Counter snapshot)]"

subsection \<open>The gauges of a collector\<close>

text \<open>A collector's gauges are a well-formed Go map whose names and values have a JSON text.\<close>

definition collector_ok :: "Collector \<Rightarrow> bool" where
  "collector_ok c \<longleftrightarrow> wf_map (Gauge (metrics c)) \<and>
     (\<forall>(k, v) \<in> set (Gauge (metrics c)). utf8_valid k \<and> f64_finite v)"

lemma set_gauges_wf [wf_intros]: "wf_map m \<Longrightarrow> wf_map (set_gauges m kvs)"
  using foldl_map_set_wf [of m "\<lambda>k. k" "\<lambda>v. v" kvs] by (simp add: set_gauges_def)

lemma set_gauges_get: "map_get (set_gauges m kvs) = map_get m ++ map_of (rev kvs)"
  using foldl_map_set_get [of "\<lambda>k. k" "\<lambda>v. v" m kvs] by (simp add: set_gauges_def)

lemma set_gauges_entries:
  "wf_map m \<Longrightarrow> (k, v) \<in> set (set_gauges m kvs) \<Longrightarrow> (k, v) \<in> set m \<or> (k, v) \<in> set kvs"
  using set_gauges_wf [of m kvs]
  by (auto simp: wf_map_in_iff set_gauges_get dest!: map_of_SomeD)

lemma set_gauges_ok:
  assumes "collector_ok c" and "\<forall>(k, v) \<in> set kvs. utf8_valid k \<and> f64_finite v"
  shows "collector_ok \<lparr>metrics = \<lparr>Gauge = set_gauges (Gauge (metrics c)) kvs, Counter = n\<rparr>\<rparr>"
  using assms set_gauges_entries [of "Gauge (metrics c)" _ _ kvs]
  by (fastforce simp: collector_ok_def intro: wf_intros)

text \<open>The conversion of an unsigned integer is finite.\<close>

lemma round_mag_uint: "n < 2 ^ 64 \<Longrightarrow> round_mag n 1 < overflow_mag"
proof (cases "n = 0")
  case False
  assume n: "n < 2 ^ 64"
  define e where "e = round_exp n 1"
  have pos: "0 < n" using False by simp
  have "real n < real (2 ^ 64)" using n by (simp only: of_nat_less_iff)
  then have "log 2 (real n) < 64" using pos by (simp add: log_less_iff)
  moreover have l0: "0 \<le> log 2 (real n)" using pos by simp
  ultimately have l: "\<lfloor>log 2 (real n)\<rfloor> \<le> 63" "0 \<le> \<lfloor>log 2 (real n)\<rfloor>" by linarith+
  have e: "e = \<lfloor>log 2 (real n)\<rfloor> - 52" "e \<le> 11"
    using l round_exp_log [OF pos zero_less_one] unfolding e_def by simp_all
  obtain a b where s: "scale n 1 2 (- e) = (a, b)" by fastforce
  have ab: "real a / real b = real n * 2 powi (- e)" "0 < b"
    using scale_real [OF s zero_less_one zero_less_numeral] by simp_all
  have "real n < 2 powr (of_int (\<lfloor>log 2 (real n)\<rfloor> + 1))"
    using pos by (simp flip: log_less_iff)
  also have "\<dots> = 2 powi (e + 53)" using e(1) by (simp add: add.commute flip: powr_real_of_int')
  finally have "real n * 2 powi (- e) < 2 powi (e + 53) * 2 powi (- e)" by simp
  then have "real a / real b < 2 ^ 53" using ab(1) by (simp flip: power_int_add)
  then have "a div b < 2 ^ 53" using ab(2) by (simp add: field_simps less_mult_imp_div_less flip: of_nat_less_iff)
  then have "round_half_even a b \<le> 2 ^ 53" by (simp add: round_half_even_def Let_def)
  moreover have "nat (e + 1074) \<le> 1085" using e(2) by simp
  moreover have "round_mag n 1 = nat (e + 1074) * 4503599627370496 + round_half_even a b"
    using s False unfolding round_mag_def e_def by simp
  ultimately show ?thesis unfolding overflow_mag_def by simp
qed (simp add: overflow_mag_def)

lemma float64_of_uint_finite [simp]: "n < 2 ^ 64 \<Longrightarrow> f64_finite (float64_of_uint n)"
proof -
  assume "n < 2 ^ 64"
  then have r: "round_mag n 1 < overflow_mag" by (rule round_mag_uint)
  then have "unat (float64_of_uint n) = round_mag n 1"
    by (simp add: float64_of_uint_def overflow_mag_def unat_of_nat)
  with r show ?thesis by (simp add: f64_finite_def f64_exp_def f64_mag_def overflow_mag_def)
qed

subsection \<open>The operations keep the invariant\<close>

lemma NewCollector_ok: "collector_ok NewCollector"
  by (simp add: NewCollector_def collector_ok_def make_map_def wf_map_def)

lemma uint_finite [simp]:
  "f64_finite (float64_of_uint (unat (w :: 64 word)))" "f64_finite (float64_of_uint (unat (v :: 32 word)))"
proof -
  have "unat w < 2 ^ 64" "unat v < 2 ^ 32" by (rule unsigned_less [THEN order_less_le_trans], simp)+
  then show "f64_finite (float64_of_uint (unat w))" "f64_finite (float64_of_uint (unat v))" by simp_all
qed

lemma utf8_valid_gauge_names:
  "list_all (\<lambda>(k, v). utf8_valid k) (runtime_gauges ms rnd)"
  "utf8_valid ''TotalMemory''" "utf8_valid ''FreeMemory''" "utf8_valid ''PollCount''"
proof -
  have "list_all utf8_valid (map fst (runtime_gauges ms rnd))"
    unfolding runtime_gauges_def list.map fst_conv by code_simp
  then show "list_all (\<lambda>(k, v). utf8_valid k) (runtime_gauges ms rnd)"
    by (simp add: list_all_iff case_prod_unfold)
qed code_simp+

lemma utf8_valid_ascii: "list_all (\<lambda>c. ord c < 128) bs \<Longrightarrow> utf8_valid bs"
  by (induction bs) simp_all

lemma show_nat_ascii: "list_all (\<lambda>c. ord c < 128) (show_nat n)"
proof -
  have "list_all is_digit (show_nat n)" by (rule show_nat_digits)
  then show ?thesis by (auto simp: list_all_iff is_digit_def)
qed

lemma Collect_ok:
  assumes "collector_ok c" and "f64_finite (GCCPUFraction ms)" and "f64_finite rnd"
  shows "collector_ok (Collect ms rnd c)"
proof -
  have "list_all (\<lambda>(k, v). f64_finite v) (runtime_gauges ms rnd)"
    using assms(2,3) by (simp add: runtime_gauges_def)
  then have "\<forall>(k, v) \<in> set (runtime_gauges ms rnd). utf8_valid k \<and> f64_finite v"
    using utf8_valid_gauge_names(1) [of ms rnd] by (auto simp: list_all_iff)
  then show ?thesis unfolding Collect_def by (rule set_gauges_ok [OF assms(1)])
qed

lemma cpu_gauges_ok:
  "list_all f64_finite pcts \<Longrightarrow> \<forall>(k, v) \<in> set (cpu_gauges pcts). utf8_valid k \<and> f64_finite v"
  by (auto simp: cpu_gauges_def list_all_iff in_set_enumerate_eq intro!: utf8_valid_ascii show_nat_ascii [unfolded list_all_iff])

lemma CollectExtra_ok:
  assumes "collector_ok c" and "\<And>pcts. cpu = Inr pcts \<Longrightarrow> list_all f64_finite pcts"
  shows "collector_ok (snd (CollectExtra vm cpu c))"
proof (cases "\<exists>t f pcts. vm = Inr (t, f) \<and> cpu = Inr pcts")
  case True
  then obtain t f pcts where v: "vm = Inr (t, f)" "cpu = Inr pcts" by blast
  let ?kvs = "[(''TotalMemory'', float64_of_uint (unat t)), (''FreeMemory'', float64_of_uint (unat f))]"
  have "collector_ok \<lparr>metrics = \<lparr>Gauge = set_gauges (Gauge (metrics c)) ?kvs, Counter = Counter (metrics c)\<rparr>\<rparr>"
    by (rule set_gauges_ok [OF assms(1)]) (simp add: utf8_valid_gauge_names)
  from set_gauges_ok [OF this cpu_gauges_ok [OF assms(2) [OF v(2)]], of "Counter (metrics c)"]
  show ?thesis by (simp add: CollectExtra_def v collector_ok_def)
next
  case False
  then show ?thesis using assms(1) by (auto simp: CollectExtra_def split: sum.split)
qed

lemma AckCounter_ok: "collector_ok (AckCounter d c) = collector_ok c"
  by (simp add: AckCounter_def collector_ok_def)

subsection \<open>Snapshots and batches\<close>

lemma map_of_rev_wf: "wf_map m \<Longrightarrow> map_of (rev m) = map_get m"
  unfolding map_get_def by (rule map_of_inject_set [THEN iffD2]) (simp_all add: wf_map_def rev_map [symmetric])

lemma set_gauges_copy:
  assumes "wf_map m"
  shows "wf_map (set_gauges make_map m)" and "map_get (set_gauges make_map m) = map_get m"
proof -
  show "wf_map (set_gauges make_map m)" by (rule set_gauges_wf) simp
  show "map_get (set_gauges make_map m) = map_get m" using assms by (simp add: set_gauges_get map_of_rev_wf)
qed

lemma GetSnapshot_spec:
  assumes "collector_ok c"
  shows "wf_map (Gauge (GetSnapshot om c))" "map_get (Gauge (GetSnapshot om c)) = map_get (Gauge (metrics c))"
    "Counter (GetSnapshot om c) = Counter (metrics c)"
  using assms set_gauges_copy [of "go_range om (Gauge (metrics c))"]
  by (simp_all add: GetSnapshot_def collector_ok_def)

text \<open>What a report of a collector does to the server's table.\<close>

definition report_effect :: "Collector \<Rightarrow> table \<Rightarrow> table" where
  "report_effect c t =
     \<lparr>gauge_of = gauge_of t ++ map_get (Gauge (metrics c)),
      counter_of = (counter_of t)(''PollCount'' \<mapsto> counter_total t ''PollCount'' + Counter (metrics c))\<rparr>"

lemma apply_gauges:
  "apply_batch (map (\<lambda>(n, v). gauge_metric n v) kvs) t = t\<lparr>gauge_of := gauge_of t ++ map_of (rev kvs)\<rparr>"
proof (induction kvs arbitrary: t)
  case (Cons kv kvs)
  then show ?case by (cases kv) (simp add: put_gauge_def map_add_assoc, simp add: fun_upd_def)
qed simp

lemma report_applied:
  assumes "collector_ok c"
  shows "apply_batch (convertToModelMetrics om' (GetSnapshot om c)) t = report_effect c t"
proof -
  let ?g = "go_range om' (Gauge (GetSnapshot om c))"
  have wf: "wf_map ?g" "map_get ?g = map_get (Gauge (metrics c))" using GetSnapshot_spec [OF assms] by simp_all
  have g: "map_of (rev ?g) = map_get (Gauge (metrics c))" using wf by (simp add: map_of_rev_wf)
  show ?thesis
    unfolding convertToModelMetrics_def apply_batch_append apply_gauges g
    by (simp add: report_effect_def add_counter_def counter_total_def GetSnapshot_spec(3) [OF assms])
qed

lemma report_json_safe:
  assumes "collector_ok c"
  shows "list_all json_safe (convertToModelMetrics om' (GetSnapshot om c))"
proof -
  have "utf8_valid k \<and> f64_finite v" if "(k, v) \<in> set (Gauge (GetSnapshot om c))" for k v
    using that GetSnapshot_spec [OF assms, of om] assms
    by (auto simp: wf_map_in_iff collector_ok_def)
  moreover have "utf8_valid model_Gauge" "utf8_valid model_Counter" by code_simp+
  ultimately show ?thesis
    by (auto simp: convertToModelMetrics_def list_all_iff json_safe_def utf8_valid_gauge_names)
qed

subsection \<open>Runs of the collector\<close>

text \<open>What the agent's goroutines do with the collector, in any order.\<close>

datatype collector_call =
    Call_Collect MemStats float64
  | Call_Extra "error + (64 word \<times> 64 word)" "error + float64 list"
  | Call_Ack int64

fun collector_step :: "Collector \<Rightarrow> collector_call \<Rightarrow> Collector" where
  "collector_step c (Call_Collect ms rnd) = Collect ms rnd c"
| "collector_step c (Call_Extra vm cpu) = snd (CollectExtra vm cpu c)"
| "collector_step c (Call_Ack d) = AckCounter d c"

definition collector_run :: "collector_call list \<Rightarrow> Collector \<Rightarrow> Collector" where
  "collector_run calls c = foldl collector_step c calls"

text \<open>What the environment returns is finite.\<close>

fun call_finite :: "collector_call \<Rightarrow> bool" where
  "call_finite (Call_Collect ms rnd) = (f64_finite (GCCPUFraction ms) \<and> f64_finite rnd)"
| "call_finite (Call_Extra vm cpu) = (case cpu of Inr pcts \<Rightarrow> list_all f64_finite pcts | Inl _ \<Rightarrow> True)"
| "call_finite (Call_Ack d) = True"

fun call_delta :: "collector_call \<Rightarrow> int64" where
  "call_delta (Call_Collect ms rnd) = 1"
| "call_delta (Call_Extra vm cpu) = 0"
| "call_delta (Call_Ack d) = - d"

lemma collector_step_ok: "collector_ok c \<Longrightarrow> call_finite a \<Longrightarrow> collector_ok (collector_step c a)"
  by (cases a) (auto simp: Collect_ok AckCounter_ok intro!: CollectExtra_ok)

lemma collector_step_counter: "Counter (metrics (collector_step c a)) = Counter (metrics c) + call_delta a"
  by (cases a) (auto simp: Collect_def CollectExtra_def AckCounter_def split: sum.split)

lemma collector_run_ok: "collector_ok c \<Longrightarrow> list_all call_finite calls \<Longrightarrow> collector_ok (collector_run calls c)"
  by (induction calls arbitrary: c) (simp_all add: collector_run_def collector_step_ok)

lemma collector_run_counter:
  "Counter (metrics (collector_run calls c)) = Counter (metrics c) + sum_list (map call_delta calls)"
  by (induction calls arbitrary: c) (simp_all add: collector_run_def collector_step_counter add.assoc)

subsection \<open>Properties\<close>

text \<open>
  C30. Every report of the agent can be sent and says what was collected (collector.go,
  agent.go convertToModelMetrics): after any sequence of \<^verbatim>\<open>Collect\<close>, \<^verbatim>\<open>CollectExtra\<close> (failing or
  not) and \<^verbatim>\<open>AckCounter\<close> calls on a new collector, as long as the fractions and percentages read
  are finite, the batch made from a snapshot has a JSON text for every iteration order, and
  applied to the server's metrics it overwrites exactly the collected gauges and adds the poll
  counter to \<^verbatim>\<open>PollCount\<close>. Integer statistics of any size convert to a finite gauge.
\<close>

theorem reports_faithful:
  assumes "list_all call_finite calls" and "c = collector_run calls NewCollector"
  shows "Marshal_metrics (convertToModelMetrics om' (GetSnapshot om c)) \<noteq> None \<and>
    apply_batch (convertToModelMetrics om' (GetSnapshot om c)) t = report_effect c t \<and>
    Counter (metrics c) = sum_list (map call_delta calls)"
proof -
  have ok: "collector_ok c" using collector_run_ok [OF NewCollector_ok assms(1)] assms(2) by simp
  have "Marshal_metrics (convertToModelMetrics om' (GetSnapshot om c)) \<noteq> None"
    by (rule Decode_Marshal_metrics [OF report_json_safe [OF ok, of om' om]]) simp
  moreover have "Counter (metrics c) = sum_list (map call_delta calls)"
    by (simp add: assms(2) collector_run_counter) (simp add: NewCollector_def)
  ultimately show ?thesis using report_applied [OF ok] by blast
qed

definition zero_stats :: MemStats where
  "zero_stats =
     \<lparr>Alloc = - 1, BuckHashSys = 0, Frees = 0, GCCPUFraction = 0, GCSys = 0, HeapAlloc = 0, HeapIdle = 0,
      HeapInuse = 0, HeapObjects = 0, HeapReleased = 0, HeapSys = 0, LastGC = 0, Lookups = 0, MCacheInuse = 0,
      MCacheSys = 0, MSpanInuse = 0, MSpanSys = 0, Mallocs = 0, NextGC = 0, NumForcedGC = 0, NumGC = 0,
      OtherSys = 0, PauseTotalNs = 0, StackInuse = 0, StackSys = 0, Sys = 0, TotalAlloc = 0\<rparr>"

theorem reports_faithful_witness:
  "let c = collector_run [Call_Collect zero_stats 0, Call_Extra (Inl (Opaque ''no memory'')) (Inr []),
         Call_Collect zero_stats 0] NewCollector
   in Marshal_metrics (convertToModelMetrics id (GetSnapshot id c)) \<noteq> None \<and>
      counter_total (apply_batch (convertToModelMetrics id (GetSnapshot id c)) empty_table) ''PollCount'' = 2"
proof -
  let ?calls = "[Call_Collect zero_stats 0, Call_Extra (Inl (Opaque ''no memory'')) (Inr []), Call_Collect zero_stats 0]"
  have "f64_finite 0" by code_simp
  then have "list_all call_finite ?calls" by (simp add: zero_stats_def)
  from reports_faithful [OF this refl, of id id empty_table]
  show ?thesis unfolding Let_def by (simp add: report_effect_def counter_total_def)
qed

text \<open>
  C31. Acknowledging keeps the polls that came in between (collector.go AckCounter): when the
  counter of a snapshot is acknowledged after any further calls, what remains is exactly the
  number those calls added, modulo 2^64, so no poll would be lost or counted twice.
\<close>

theorem ack_keeps_new_polls:
  "Counter (metrics (AckCounter (Counter (GetSnapshot om c)) (collector_run calls c))) = sum_list (map call_delta calls)"
  by (simp add: AckCounter_def GetSnapshot_def collector_run_counter)

end
