(* ===== verification/Agent.thy ===== *)
theory Agent
  imports Collector
begin

section \<open>The agent's goroutines\<close>

text \<open>
  \<^verbatim>\<open>internal/agent/agent.go\<close>. \<^verbatim>\<open>Run\<close> starts a pool of workers, two collecting loops and a
  reporter, connected by the buffered channel \<^verbatim>\<open>jobs\<close>. The model is a step relation: a state
  holds the position of every goroutine, and a step is one goroutine moving from one blocking
  point to the next. Where a \<^verbatim>\<open>select\<close> has several ready cases each is a step. The sender behind
  the interface \<^verbatim>\<open>BatchSender\<close> is a parameter.
\<close>

subsection \<open>The agent\<close>

record 'w Agent =
  sender :: "Metrics list \<Rightarrow> 'w \<Rightarrow> 'w eff"
  pollInterval :: int
  reportInterval :: int
  rateLimit :: int

text \<open>\<^verbatim>\<open>NewWithSender\<close> ends the process when the rate limit is not positive: the value \<open>None\<close>.\<close>

definition NewWithSender :: "(Metrics list \<Rightarrow> 'w \<Rightarrow> 'w eff) \<Rightarrow> int \<Rightarrow> int \<Rightarrow> int \<Rightarrow> ('w Agent \<times> Collector) option" where
  "NewWithSender sndr poll report limit =
     (if limit \<le> 0 then None
      else Some (\<lparr>sender = sndr, pollInterval = poll, reportInterval = report, rateLimit = limit\<rparr>, NewCollector))"

subsection \<open>States\<close>

text \<open>
  A collecting loop is before the creation of its ticker, at its \<^verbatim>\<open>select\<close>, or has returned. The
  reporter is at its outer \<^verbatim>\<open>select\<close>, at the inner one with a batch, at the blocking send of the
  final batch, after it, or has closed the channel. A worker waits for a batch, delivers one, or
  has returned.
\<close>

datatype loop_pc = L_Start | L_Select | L_Done

datatype report_pc =
    R_Start
  | R_Select
  | R_Send "Metrics list"
  | R_Flush "Metrics list"
  | R_Return
  | R_Closed

datatype worker_pc = W_Recv | W_Busy "Metrics list" | W_Done

text \<open>\<open>pushed\<close> and \<open>attempts\<close> record what was sent to the channel and what was handed to the sender.\<close>

record 'w agent_state =
  cancelled :: bool
  col :: Collector
  collect_at :: loop_pc
  extra_at :: loop_pc
  report_at :: report_pc
  jobs :: "Metrics list list"
  jobs_closed :: bool
  workers :: "worker_pc list"
  world :: 'w
  panicked :: bool
  pushed :: "Metrics list list"
  attempts :: "Metrics list list"

definition Run_init :: "'w Agent \<Rightarrow> Collector \<Rightarrow> 'w \<Rightarrow> 'w agent_state" where
  "Run_init a c w =
     \<lparr>cancelled = False, col = c, collect_at = L_Start, extra_at = L_Start, report_at = R_Start,
      jobs = [], jobs_closed = False, workers = replicate (nat (rateLimit a)) W_Recv, world = w,
      panicked = False, pushed = [], attempts = []\<rparr>"

text \<open>A send on the channel: it panics when the channel is closed and blocks when it is full.\<close>

definition can_send :: "'w Agent \<Rightarrow> 'w agent_state \<Rightarrow> bool" where
  "can_send a s \<longleftrightarrow> jobs_closed s \<or> length (jobs s) < nat (rateLimit a)"

definition chan_send :: "Metrics list \<Rightarrow> report_pc \<Rightarrow> 'w agent_state \<Rightarrow> 'w agent_state" where
  "chan_send ms pc s =
     (if jobs_closed s then s\<lparr>panicked := True\<rparr>
      else s\<lparr>jobs := jobs s @ [ms], pushed := pushed s @ [ms], report_at := pc\<rparr>)"

text \<open>
  Kinds of steps: the signal that cancels the context, a ticker that fires, and a move of the
  program itself.
\<close>

datatype step_kind = Cancel | Tick | Move

inductive agent_step :: "'w Agent \<Rightarrow> 'w agent_state \<Rightarrow> step_kind \<Rightarrow> 'w agent_state \<Rightarrow> bool" for a where
  cancel: "\<not> cancelled s \<Longrightarrow> agent_step a s Cancel (s\<lparr>cancelled := True\<rparr>)"
| collect_start: "collect_at s = L_Start \<Longrightarrow>
    agent_step a s Move (if pollInterval a \<le> 0 then s\<lparr>panicked := True\<rparr>
                         else s\<lparr>col := Collect ms rnd (col s), collect_at := L_Select\<rparr>)"
| collect_tick: "collect_at s = L_Select \<Longrightarrow> agent_step a s Tick (s\<lparr>col := Collect ms rnd (col s)\<rparr>)"
| collect_stop: "collect_at s = L_Select \<Longrightarrow> cancelled s \<Longrightarrow> agent_step a s Move (s\<lparr>collect_at := L_Done\<rparr>)"
| extra_start: "extra_at s = L_Start \<Longrightarrow>
    agent_step a s Move (if pollInterval a \<le> 0 then s\<lparr>panicked := True\<rparr> else s\<lparr>extra_at := L_Select\<rparr>)"
| extra_tick: "extra_at s = L_Select \<Longrightarrow> agent_step a s Tick (s\<lparr>col := snd (CollectExtra vm cpu (col s))\<rparr>)"
| extra_stop: "extra_at s = L_Select \<Longrightarrow> cancelled s \<Longrightarrow> agent_step a s Move (s\<lparr>extra_at := L_Done\<rparr>)"
| report_start: "report_at s = R_Start \<Longrightarrow>
    agent_step a s Move (if reportInterval a \<le> 0 then s\<lparr>panicked := True\<rparr> else s\<lparr>report_at := R_Select\<rparr>)"
| report_tick: "report_at s = R_Select \<Longrightarrow>
    agent_step a s Tick (s\<lparr>report_at := R_Send (convertToModelMetrics om' (GetSnapshot om (col s)))\<rparr>)"
| report_send: "report_at s = R_Send ms \<Longrightarrow> can_send a s \<Longrightarrow> agent_step a s Move (chan_send ms R_Select s)"
| report_cancel: "report_at s = R_Send ms \<Longrightarrow> cancelled s \<Longrightarrow> agent_step a s Move (s\<lparr>report_at := R_Flush ms\<rparr>)"
| report_stop: "report_at s = R_Select \<Longrightarrow> cancelled s \<Longrightarrow>
    agent_step a s Move (s\<lparr>report_at := R_Flush (convertToModelMetrics om' (GetSnapshot om (col s)))\<rparr>)"
| report_flush: "report_at s = R_Flush ms \<Longrightarrow> can_send a s \<Longrightarrow> agent_step a s Move (chan_send ms R_Return s)"
| report_close: "report_at s = R_Return \<Longrightarrow> agent_step a s Move (s\<lparr>report_at := R_Closed, jobs_closed := True\<rparr>)"
| worker_take: "i < length (workers s) \<Longrightarrow> workers s ! i = W_Recv \<Longrightarrow> jobs s = ms # rest \<Longrightarrow>
    agent_step a s Move (s\<lparr>jobs := rest, workers := (workers s)[i := W_Busy ms]\<rparr>)"
| worker_send: "i < length (workers s) \<Longrightarrow> workers s ! i = W_Busy ms \<Longrightarrow> sender a ms (world s) = (err, w') \<Longrightarrow>
    agent_step a s Move (s\<lparr>workers := (workers s)[i := W_Recv], world := w', attempts := attempts s @ [ms]\<rparr>)"
| worker_exit: "i < length (workers s) \<Longrightarrow> workers s ! i = W_Recv \<Longrightarrow> jobs s = [] \<Longrightarrow> jobs_closed s \<Longrightarrow>
    agent_step a s Move (s\<lparr>workers := (workers s)[i := W_Done]\<rparr>)"

inductive reachable :: "'w Agent \<Rightarrow> Collector \<Rightarrow> 'w \<Rightarrow> 'w agent_state \<Rightarrow> bool" for a c w where
  init: "reachable a c w (Run_init a c w)"
| step: "reachable a c w s \<Longrightarrow> agent_step a s k t \<Longrightarrow> reachable a c w t"

text \<open>\<^verbatim>\<open>Run\<close> returns when every goroutine has.\<close>

definition Run_returned :: "'w agent_state \<Rightarrow> bool" where
  "Run_returned s \<longleftrightarrow> collect_at s = L_Done \<and> extra_at s = L_Done \<and> report_at s = R_Closed \<and>
     list_all (\<lambda>p. p = W_Done) (workers s)"

subsection \<open>The invariant\<close>

fun busy_job :: "worker_pc \<Rightarrow> Metrics list multiset" where
  "busy_job (W_Busy ms) = {#ms#}"
| "busy_job _ = {#}"

definition in_flight :: "'w agent_state \<Rightarrow> Metrics list multiset" where
  "in_flight s = sum_list (map busy_job (workers s))"

text \<open>
  The channel is never over its capacity, it is closed exactly when the reporter is done, a
  worker returns only from a closed and empty channel, the reporter does not end without a
  batch, nothing panics, and every batch sent to the channel is in it, with a worker, or
  attempted, exactly once.
\<close>

definition agent_inv :: "'w Agent \<Rightarrow> 'w agent_state \<Rightarrow> bool" where
  "agent_inv a s \<longleftrightarrow>
     length (workers s) = nat (rateLimit a) \<and>
     length (jobs s) \<le> nat (rateLimit a) \<and>
     (jobs_closed s \<longleftrightarrow> report_at s = R_Closed) \<and>
     (W_Done \<in> set (workers s) \<longrightarrow> jobs_closed s \<and> jobs s = []) \<and>
     (report_at s \<in> {R_Return, R_Closed} \<longrightarrow> pushed s \<noteq> []) \<and>
     mset (pushed s) = mset (attempts s) + mset (jobs s) + in_flight s \<and>
     \<not> panicked s"

lemma busy_update:
  "i < length ws \<Longrightarrow> sum_list (map busy_job (ws[i := p])) + busy_job (ws ! i) = sum_list (map busy_job ws) + busy_job p"
  by (induction ws arbitrary: i) (auto split: nat.splits simp: ac_simps)

lemma in_flight_update:
  assumes "i < length (workers s)" "workers t = (workers s)[i := p]"
  shows "in_flight t + busy_job (workers s ! i) = in_flight s + busy_job p"
  using busy_update [OF assms(1)] assms(2) by (simp add: in_flight_def)

lemma sum_list_empty_msets: "sum_list (replicate n {#}) = {#}"
  by (induction n) simp_all

lemma Run_init_inv: "agent_inv a (Run_init a c w)"
  by (simp add: agent_inv_def Run_init_def in_flight_def sum_list_empty_msets)

lemma chan_send_inv:
  assumes "agent_inv a s" and "can_send a s" and "\<not> jobs_closed s" and "pc \<noteq> R_Closed"
  shows "agent_inv a (chan_send ms pc s)"
  using assms by (auto simp: agent_inv_def can_send_def chan_send_def in_flight_def)

lemma agent_step_inv:
  assumes "agent_step a s k t" and "agent_inv a s" and "0 < pollInterval a" and "0 < reportInterval a"
  shows "agent_inv a t"
  using assms
proof (induction rule: agent_step.induct)
  case (report_send s ms)
  then show ?case by (intro chan_send_inv) (auto simp: agent_inv_def)
next
  case (report_flush s ms)
  then show ?case by (intro chan_send_inv) (auto simp: agent_inv_def)
next
  case (worker_take i s ms rest)
  let ?t = "s\<lparr>jobs := rest, workers := (workers s)[i := W_Busy ms]\<rparr>"
  have "in_flight ?t = in_flight s + {#ms#}" using in_flight_update [OF worker_take(1), of ?t "W_Busy ms"] worker_take(2) by simp
  moreover have "W_Done \<notin> set ((workers s)[i := W_Busy ms])"
    using worker_take(3,4) set_update_subset_insert [of "workers s" i "W_Busy ms"] by (auto simp: agent_inv_def)
  ultimately show ?case using worker_take(3,4) by (auto simp: agent_inv_def)
next
  case (worker_send i s ms err w')
  let ?t = "s\<lparr>workers := (workers s)[i := W_Recv], world := w', attempts := attempts s @ [ms]\<rparr>"
  have "in_flight ?t + {#ms#} = in_flight s" using in_flight_update [OF worker_send(1), of ?t W_Recv] worker_send(2) by simp
  moreover have "W_Done \<in> set ((workers s)[i := W_Recv]) \<Longrightarrow> W_Done \<in> set (workers s)"
    using set_update_subset_insert [of "workers s" i W_Recv] by auto
  ultimately show ?case using worker_send(4) by (auto simp: agent_inv_def)
next
  case (worker_exit i s)
  let ?t = "s\<lparr>workers := (workers s)[i := W_Done]\<rparr>"
  have "in_flight ?t = in_flight s" using in_flight_update [OF worker_exit(1), of ?t W_Done] worker_exit(2) by simp
  then show ?case using worker_exit(3-5) by (auto simp: agent_inv_def)
qed (auto simp: agent_inv_def in_flight_def)

lemma reachable_inv:
  assumes "reachable a c w s" and "0 < pollInterval a" and "0 < reportInterval a"
  shows "agent_inv a s"
  using assms(1) by (induction rule: reachable.induct) (auto intro: Run_init_inv agent_step_inv assms(2,3))

subsection \<open>Shutdown\<close>

text \<open>
  How many moves a state has left: a batch costs two, taking and delivering it, and a reporter
  that still has to push one pays for it.
\<close>

fun loop_work :: "loop_pc \<Rightarrow> nat" where
  "loop_work L_Start = 2" | "loop_work L_Select = 1" | "loop_work L_Done = 0"

fun report_work :: "report_pc \<Rightarrow> nat" where
  "report_work R_Start = 6"
| "report_work R_Select = 5"
| "report_work (R_Send ms) = 8"
| "report_work (R_Flush ms) = 4"
| "report_work R_Return = 1"
| "report_work R_Closed = 0"

fun worker_work :: "worker_pc \<Rightarrow> nat" where
  "worker_work W_Recv = 1" | "worker_work (W_Busy ms) = 2" | "worker_work W_Done = 0"

definition work :: "'w agent_state \<Rightarrow> nat" where
  "work s = loop_work (collect_at s) + loop_work (extra_at s) + report_work (report_at s) +
     2 * length (jobs s) + sum_list (map worker_work (workers s))"

lemma worker_work_update:
  "i < length ws \<Longrightarrow> sum_list (map worker_work (ws[i := p])) + worker_work (ws ! i) =
     sum_list (map worker_work ws) + worker_work p"
  by (induction ws arbitrary: i) (auto split: nat.splits)

lemma move_decreases:
  assumes "agent_step a s Move t" and "agent_inv a s" and "0 < pollInterval a" and "0 < reportInterval a"
  shows "work t < work s"
  using assms
proof (induction s Move t rule: agent_step.induct)
  case (worker_take i s ms rest)
  then show ?case using worker_work_update [of i "workers s" "W_Busy ms"] by (simp add: work_def)
next
  case (worker_send i s ms err w')
  then show ?case using worker_work_update [of i "workers s" W_Recv] by (simp add: work_def)
next
  case (worker_exit i s)
  then show ?case using worker_work_update [of i "workers s" W_Done] by (simp add: work_def)
qed (auto simp: work_def chan_send_def agent_inv_def)

lemma worker_work_bound: "sum_list (map worker_work ws) \<le> 2 * length ws"
proof (induction ws)
  case (Cons p ws)
  then show ?case by (cases p) simp_all
qed simp

lemma work_bound: "agent_inv a s \<Longrightarrow> work s \<le> 12 + 4 * nat (rateLimit a)"
proof -
  assume inv: "agent_inv a s"
  have "loop_work (collect_at s) \<le> 2" by (cases "collect_at s") simp_all
  moreover have "loop_work (extra_at s) \<le> 2" by (cases "extra_at s") simp_all
  moreover have "report_work (report_at s) \<le> 8" by (cases "report_at s") simp_all
  ultimately show ?thesis
    using inv worker_work_bound [of "workers s"] by (simp add: work_def agent_inv_def)
qed

text \<open>A worker can always move while there is a batch, and an idle one when the channel is closed.\<close>

lemma worker_moves:
  assumes "agent_inv a s" and "i < length (workers s)" and "workers s ! i \<noteq> W_Done"
    and "jobs s \<noteq> [] \<or> jobs_closed s"
  shows "\<exists>t. agent_step a s Move t"
proof (cases "workers s ! i")
  case W_Recv
  show ?thesis
  proof (cases "jobs s")
    case Nil
    then show ?thesis using W_Recv assms(2,4) by (blast intro: worker_exit)
  next
    case (Cons ms rest)
    then show ?thesis using W_Recv assms(2) by (blast intro: worker_take)
  qed
next
  case (W_Busy ms)
  obtain err w' where "sender a ms (world s) = (err, w')" by fastforce
  then show ?thesis using W_Busy assms(2) by (blast intro: worker_send)
qed (use assms in blast)

lemma flush_moves:
  assumes "agent_inv a s" and "report_at s = R_Flush ms" and "0 < rateLimit a"
  shows "\<exists>t. agent_step a s Move t"
proof (cases "can_send a s")
  case True
  then show ?thesis using assms(2) by (blast intro: report_flush)
next
  case False
  then have j: "jobs s \<noteq> []" using assms(3) by (auto simp: can_send_def)
  moreover have "0 < length (workers s)" using assms by (simp add: agent_inv_def)
  moreover have "workers s ! 0 \<noteq> W_Done" using assms(1) j calculation(2) by (metis agent_inv_def nth_mem)
  ultimately show ?thesis using worker_moves [OF assms(1)] by blast
qed

lemma shutdown_progress:
  assumes inv: "agent_inv a s" and "cancelled s" and "0 < rateLimit a" and "\<not> Run_returned s"
  shows "\<exists>t. agent_step a s Move t"
proof (cases "collect_at s = L_Done \<and> extra_at s = L_Done")
  case False
  then show ?thesis using assms(2)
    by (metis collect_start collect_stop extra_start extra_stop loop_pc.exhaust)
next
  case loops: True
  show ?thesis
  proof (cases "report_at s")
    case R_Closed
    then obtain i where "i < length (workers s)" "workers s ! i \<noteq> W_Done"
      using loops assms(4) by (auto simp: Run_returned_def list_all_length)
    then show ?thesis using worker_moves [OF inv] R_Closed inv by (auto simp: agent_inv_def)
  next
    case (R_Send ms)
    then show ?thesis using report_cancel [OF R_Send assms(2)] by blast
  next
    case (R_Flush ms)
    then show ?thesis using flush_moves [OF inv _ assms(3)] by blast
  qed (blast intro: report_start report_stop assms(2) report_close)+
qed

fun moves :: "'w Agent \<Rightarrow> nat \<Rightarrow> 'w agent_state \<Rightarrow> 'w agent_state \<Rightarrow> bool" where
  "moves a 0 s t = (s = t)"
| "moves a (Suc n) s t = (\<exists>u. agent_step a s Move u \<and> moves a n u t)"

inductive_cases agent_moveE: "agent_step a s Move t"

lemma move_cancelled: "agent_step a s Move t \<Longrightarrow> cancelled t = cancelled s"
  by (erule agent_moveE) (auto simp: chan_send_def)

lemma moves_keep:
  assumes "moves a n s t" and "agent_inv a s" and "0 < pollInterval a" and "0 < reportInterval a"
  shows "agent_inv a t \<and> cancelled t = cancelled s \<and> n + work t \<le> work s"
  using assms(1,2)
proof (induction n arbitrary: s)
  case (Suc n)
  then obtain u where u: "agent_step a s Move u" "moves a n u t" by auto
  have "agent_inv a u" by (rule agent_step_inv [OF u(1) Suc.prems(2) assms(3,4)])
  with Suc.IH [OF u(2)] move_decreases [OF u(1) Suc.prems(2) assms(3,4)] move_cancelled [OF u(1)]
  show ?case by auto
qed simp

lemma moves_finish:
  assumes "agent_inv a s" and "cancelled s" and "0 < rateLimit a" and "0 < pollInterval a" and "0 < reportInterval a"
  shows "\<exists>n t. moves a n s t \<and> Run_returned t"
  using assms(1,2)
proof (induction "work s" arbitrary: s rule: less_induct)
  case less
  show ?case
  proof (cases "Run_returned s")
    case True
    then show ?thesis using moves.simps(1) by blast
  next
    case False
    then obtain u where u: "agent_step a s Move u" using shutdown_progress less.prems assms(3) by blast
    have "\<exists>n t. moves a n u t \<and> Run_returned t"
      using less.hyps [OF move_decreases [OF u less.prems(1) assms(4,5)]]
        agent_step_inv [OF u less.prems(1) assms(4,5)] move_cancelled [OF u] less.prems(2) by simp
    then show ?thesis using u moves.simps(2) by blast
  qed
qed

lemma returned_delivered:
  assumes "agent_inv a s" and "Run_returned s" and "0 < rateLimit a"
  shows "mset (attempts s) = mset (pushed s)" and "pushed s \<noteq> []"
proof -
  have "workers s \<noteq> []" using assms by (auto simp: agent_inv_def)
  then have "W_Done \<in> set (workers s)" using assms(2) by (cases "workers s") (auto simp: Run_returned_def)
  then have "jobs s = []" using assms(1) by (simp add: agent_inv_def)
  moreover have "in_flight s = {#}"
  proof -
    have "map busy_job (workers s) = replicate (length (workers s)) {#}"
      using assms(2) by (auto simp: Run_returned_def list_all_length intro!: nth_equalityI)
    then show ?thesis by (simp add: in_flight_def sum_list_empty_msets)
  qed
  ultimately show "mset (attempts s) = mset (pushed s)" using assms(1) by (simp add: agent_inv_def)
  show "pushed s \<noteq> []" using assms by (simp add: agent_inv_def Run_returned_def)
qed

subsection \<open>Counting polls\<close>

text \<open>
  The agent as it is run: after \<open>n\<close> polls a report is delivered, and so on. With \<open>ack\<close> the counter
  would be acknowledged after every delivery; the program never does.
\<close>

fun polls :: "nat \<Rightarrow> MemStats \<Rightarrow> float64 \<Rightarrow> Collector \<Rightarrow> Collector" where
  "polls 0 ms rnd c = c"
| "polls (Suc n) ms rnd c = polls n ms rnd (Collect ms rnd c)"

fun report_rounds :: "bool \<Rightarrow> nat list \<Rightarrow> MemStats \<Rightarrow> float64 \<Rightarrow> Collector \<times> table \<Rightarrow> Collector \<times> table" where
  "report_rounds ack [] ms rnd ct = ct"
| "report_rounds ack (n # ns) ms rnd ct =
     (case ct of (c, t) \<Rightarrow>
        let c' = polls n ms rnd c;
            snap = GetSnapshot id c'
        in report_rounds ack ns ms rnd
             (if ack then AckCounter (Counter snap) c' else c',
              apply_batch (convertToModelMetrics id snap) t))"

text \<open>Every poll counted once for its own report and once for each later one.\<close>

fun counted :: "nat list \<Rightarrow> nat" where
  "counted [] = 0"
| "counted (n # ns) = n * (length ns + 1) + counted ns"

lemma polls_counter: "Counter (metrics (polls n ms rnd c)) = Counter (metrics c) + of_nat n"
  by (induction n arbitrary: c) (simp_all add: Collect_def)

lemma gauge_deltas: "batch_deltas n (map (\<lambda>(k, v). gauge_metric k v) kvs) = []"
  by (induction kvs) auto

lemma report_total:
  "counter_total (apply_batch (convertToModelMetrics om snap) t) ''PollCount'' =
     counter_total t ''PollCount'' + Counter snap"
  by (simp add: convertToModelMetrics_def apply_batch_append apply_batch_total gauge_deltas)

lemma report_rounds_plain:
  "counter_total (snd (report_rounds False ns ms rnd (c, t))) ''PollCount'' =
     counter_total t ''PollCount'' + of_nat (length ns) * Counter (metrics c) + of_nat (counted ns)"
proof (induction ns arbitrary: c t)
  case (Cons n ns)
  show ?case
    by (simp add: Let_def Cons.IH report_total polls_counter GetSnapshot_def ring_distribs)
qed simp

lemma report_rounds_ack:
  "Counter (metrics c) = 0 \<Longrightarrow>
   counter_total (snd (report_rounds True ns ms rnd (c, t))) ''PollCount'' =
     counter_total t ''PollCount'' + of_nat (sum_list ns)"
proof (induction ns arbitrary: c t)
  case (Cons n ns)
  have "Counter (metrics (AckCounter (Counter (GetSnapshot id (polls n ms rnd c))) (polls n ms rnd c))) = 0"
    by (simp add: AckCounter_def GetSnapshot_def)
  then show ?case
    using Cons.prems by (simp add: Let_def Cons.IH report_total polls_counter) (simp add: GetSnapshot_def polls_counter)
qed simp

lemma counted_more: "list_all (\<lambda>n. 0 < n) ns \<Longrightarrow> 2 \<le> length ns \<Longrightarrow> sum_list ns < counted ns"
proof -
  have le: "sum_list ns \<le> counted ns" for ns by (induction ns) auto
  assume "list_all (\<lambda>n. 0 < n) ns" "2 \<le> length ns"
  then obtain n m r where "ns = n # m # r" "0 < n" by (cases ns; cases "tl ns") auto
  then show ?thesis using le [of "m # r"] by simp
qed

subsection \<open>Properties\<close>

text \<open>
  C3. The agent's goroutines keep their invariant (agent.go Run, runCollect, runCollectExtra,
  runReport, worker): in every interleaving, with positive intervals, no goroutine panics (the
  channel is never sent to after it was closed), the channel holds at most \<^verbatim>\<open>rateLimit\<close> batches and
  at most \<^verbatim>\<open>rateLimit\<close> deliveries run at once, and every batch the reporter pushed is in the
  channel, being delivered, or has been attempted, and never twice.
\<close>

theorem agent_invariant:
  assumes "reachable a c w s" and "0 < pollInterval a" and "0 < reportInterval a"
  shows "\<not> panicked s \<and> length (jobs s) \<le> nat (rateLimit a) \<and> size (in_flight s) \<le> nat (rateLimit a) \<and>
    mset (pushed s) = mset (attempts s) + mset (jobs s) + in_flight s"
proof -
  have inv: "agent_inv a s" by (rule reachable_inv [OF assms])
  have "size (sum_list (map busy_job ws)) \<le> length ws" for ws
  proof (induction ws)
    case (Cons p ws)
    then show ?case by (cases p) simp_all
  qed simp
  then have "size (in_flight s) \<le> nat (rateLimit a)" using inv by (simp add: in_flight_def agent_inv_def) metis
  with inv show ?thesis by (simp add: agent_inv_def)
qed

text \<open>An agent of the examples: its sender records the batches it is given.\<close>

definition sample_agent :: "Metrics list list Agent" where
  "sample_agent = \<lparr>sender = (\<lambda>ms w. (None, w @ [ms])), pollInterval = 2, reportInterval = 10, rateLimit = 1\<rparr>"

lemma sample_agent_fields [simp]:
  "pollInterval sample_agent = 2" "reportInterval sample_agent = 10" "rateLimit sample_agent = 1"
  by (simp_all add: sample_agent_def)

lemma sample_cancelled: "reachable sample_agent NewCollector [] ((Run_init sample_agent NewCollector [])\<lparr>cancelled := True\<rparr>)"
  by (rule reachable.step [OF reachable.init], rule agent_step.cancel) (simp add: Run_init_def)

theorem agent_invariant_witness:
  "\<exists>s. reachable sample_agent NewCollector [] s \<and> size (in_flight s) = 1 \<and> \<not> panicked s \<and>
     mset (pushed s) = mset (attempts s) + mset (jobs s) + in_flight s"
proof -
  let ?R = "reachable sample_agent NewCollector []"
  let ?ms = "convertToModelMetrics id (GetSnapshot id NewCollector)"
  define s0 where "s0 = Run_init sample_agent NewCollector []"
  define s1 where "s1 = s0\<lparr>report_at := R_Select\<rparr>"
  define s2 where "s2 = s1\<lparr>report_at := R_Send ?ms\<rparr>"
  define s3 where "s3 = chan_send ?ms R_Select s2"
  define s4 where "s4 = s3\<lparr>jobs := [], workers := (workers s3)[0 := W_Busy ?ms]\<rparr>"
  note defs = s0_def s1_def s2_def s3_def s4_def Run_init_def chan_send_def can_send_def
  have "?R s0" unfolding s0_def by (rule reachable.init)
  moreover have "agent_step sample_agent s0 Move s1"
    using report_start [of s0 sample_agent] by (simp add: defs)
  moreover have "agent_step sample_agent s1 Tick s2"
    using report_tick [of s1 sample_agent id id] by (simp add: defs)
  moreover have "agent_step sample_agent s2 Move s3"
    using report_send [of s2 ?ms sample_agent] by (simp add: defs)
  moreover have "agent_step sample_agent s3 Move s4"
    using worker_take [of 0 s3 ?ms "[]" sample_agent] by (simp add: defs)
  ultimately have r: "?R s4" by (blast intro: reachable.step)
  have "size (in_flight s4) = 1" by (simp add: defs in_flight_def)
  with r agent_invariant [OF r] show ?thesis by auto
qed





end
