(* ===== verification/Config_Agent.thy ===== *)
theory Config_Agent
  imports Config_File
begin

section \<open>Agent configuration\<close>

text \<open>
  \<^verbatim>\<open>internal/config/agent.go\<close>, with the same layers as the server's configuration, and how an
  interval of the file becomes whole seconds.
\<close>

record AgentConfig =
  Addr :: string
  PollInterval :: int64
  ReportInterval :: int64
  Key :: string
  RateLimit :: int64
  CryptoKey :: string
  GRPCAddr :: string

record agentFile =
  fc_Address :: "string option"
  fc_GRPCAddress :: "string option"
  fc_ReportInterval :: "string option"
  fc_PollInterval :: "string option"
  fc_CryptoKey :: "string option"

definition agentFile_zero :: agentFile where
  "agentFile_zero =
     \<lparr>fc_Address = None, fc_GRPCAddress = None, fc_ReportInterval = None, fc_PollInterval = None, fc_CryptoKey = None\<rparr>"

definition agentFile_member :: "agentFile \<Rightarrow> bytes \<times> json \<Rightarrow> agentFile option" where
  "agentFile_member f kv =
     (case kv of (k, v) \<Rightarrow>
        let n = fold_name k; str = decode_ptr_string v
        in if n = ''ADDRESS'' then map_option (\<lambda>x. f\<lparr>fc_Address := x\<rparr>) str
           else if n = ''GRPC_ADDRESS'' then map_option (\<lambda>x. f\<lparr>fc_GRPCAddress := x\<rparr>) str
           else if n = ''REPORT_INTERVAL'' then map_option (\<lambda>x. f\<lparr>fc_ReportInterval := x\<rparr>) str
           else if n = ''POLL_INTERVAL'' then map_option (\<lambda>x. f\<lparr>fc_PollInterval := x\<rparr>) str
           else if n = ''CRYPTO_KEY'' then map_option (\<lambda>x. f\<lparr>fc_CryptoKey := x\<rparr>) str
           else Some f)"

definition loadAgentFile :: "reader \<Rightarrow> string \<Rightarrow> error + agentFile" where
  "loadAgentFile read path = load_struct agentFile_member agentFile_zero read path"

definition agent_defaults :: AgentConfig where
  "agent_defaults =
     \<lparr>Addr = ''localhost:8080'', PollInterval = 2, ReportInterval = 10, Key = '''', RateLimit = 1,
      CryptoKey = '''', GRPCAddr = ''''\<rparr>"

definition agent_file_steps :: "string \<Rightarrow> agentFile \<Rightarrow> AgentConfig config_step list" where
  "agent_file_steps path fc =
     [file_value (fc_Address fc) (\<lambda>v c. c\<lparr>Addr := v\<rparr>),
      file_seconds path ''poll_interval'' (fc_PollInterval fc) (\<lambda>v c. c\<lparr>PollInterval := v\<rparr>),
      file_seconds path ''report_interval'' (fc_ReportInterval fc) (\<lambda>v c. c\<lparr>ReportInterval := v\<rparr>),
      file_value (fc_CryptoKey fc) (\<lambda>v c. c\<lparr>CryptoKey := v\<rparr>),
      file_value (fc_GRPCAddress fc) (\<lambda>v c. c\<lparr>GRPCAddr := v\<rparr>)]"

definition agent_flags :: "string \<Rightarrow> flag_kind option" where
  "agent_flags f =
     (if f = ''r'' \<or> f = ''p'' \<or> f = ''l'' then Some IntFlag
      else if f \<in> set [''a'', ''k'', ''crypto-key'', ''grpc-address'', ''c'', ''config''] then Some StringFlag
      else None)"

definition agent_flag_values :: "(string \<times> string) list \<Rightarrow> AgentConfig \<Rightarrow> AgentConfig" where
  "agent_flag_values sets d =
     \<lparr>Addr = flag_string ''a'' sets (Addr d),
      PollInterval = flag_int ''p'' sets (PollInterval d),
      ReportInterval = flag_int ''r'' sets (ReportInterval d),
      Key = flag_string ''k'' sets '''',
      RateLimit = flag_int ''l'' sets 1,
      CryptoKey = flag_string ''crypto-key'' sets (CryptoKey d),
      GRPCAddr = flag_string ''grpc-address'' sets (GRPCAddr d)\<rparr>"

definition agent_env_steps :: "env \<Rightarrow> AgentConfig config_step list" where
  "agent_env_steps env =
     [env_string env ''ADDRESS'' (\<lambda>v c. c\<lparr>Addr := v\<rparr>),
      env_parsed Atoi env ''REPORT_INTERVAL'' (\<lambda>v c. c\<lparr>ReportInterval := v\<rparr>),
      env_parsed Atoi env ''POLL_INTERVAL'' (\<lambda>v c. c\<lparr>PollInterval := v\<rparr>),
      env_string env ''KEY'' (\<lambda>v c. c\<lparr>Key := v\<rparr>),
      env_parsed Atoi env ''RATE_LIMIT'' (\<lambda>v c. c\<lparr>RateLimit := v\<rparr>),
      env_string env ''CRYPTO_KEY'' (\<lambda>v c. c\<lparr>CryptoKey := v\<rparr>),
      env_string env ''GRPC_ADDRESS'' (\<lambda>v c. c\<lparr>GRPCAddr := v\<rparr>)]"

definition agent_file_layer :: "env \<Rightarrow> reader \<Rightarrow> string list \<Rightarrow> error + AgentConfig" where
  "agent_file_layer env read args =
     (let path = extractConfigPath env args
      in if path = '''' then Inr agent_defaults
         else case loadAgentFile read path of
                Inl e \<Rightarrow> Inl e
              | Inr fc \<Rightarrow> run_steps (agent_file_steps path fc) agent_defaults)"

definition ParseAgentConfig :: "env \<Rightarrow> reader \<Rightarrow> string list \<Rightarrow> AgentConfig parsed" where
  "ParseAgentConfig env read args =
     (case agent_file_layer env read args of
        Inl e \<Rightarrow> Failed e
      | Inr defaults \<Rightarrow>
          (case flag_Parse agent_flags args of
             Inl x \<Rightarrow> Exit x
           | Inr sets \<Rightarrow>
               (case run_steps (agent_env_steps env) (agent_flag_values sets defaults) of
                  Inl e \<Rightarrow> Failed e
                | Inr cfg \<Rightarrow> Parsed cfg)))"

subsection \<open>Precedence\<close>

definition agent_file :: "env \<Rightarrow> reader \<Rightarrow> string list \<Rightarrow> agentFile" where
  "agent_file env read args =
     (if extractConfigPath env args = '''' then agentFile_zero
      else case loadAgentFile read (extractConfigPath env args) of Inl _ \<Rightarrow> agentFile_zero | Inr fc \<Rightarrow> fc)"

definition agent_file_ok :: "env \<Rightarrow> reader \<Rightarrow> string list \<Rightarrow> bool" where
  "agent_file_ok env read args =
     (extractConfigPath env args = '''' \<or>
      (case loadAgentFile read (extractConfigPath env args) of
         Inl _ \<Rightarrow> False
       | Inr fc \<Rightarrow> readable ParseSeconds (fc_PollInterval fc) \<and> readable ParseSeconds (fc_ReportInterval fc)))"

definition agent_env_ok :: "env \<Rightarrow> bool" where
  "agent_env_ok env =
     (readable Atoi (env ''REPORT_INTERVAL'') \<and> readable Atoi (env ''POLL_INTERVAL'') \<and> readable Atoi (env ''RATE_LIMIT''))"

text \<open>Every setting as the documented precedence gives it.\<close>

definition agent_layers :: "env \<Rightarrow> agentFile \<Rightarrow> (string \<times> string) list \<Rightarrow> AgentConfig" where
  "agent_layers env fc sets =
     \<lparr>Addr = layered (env ''ADDRESS'') (last_flag ''a'' sets) (fc_Address fc) ''localhost:8080'',
      PollInterval = layered (parsed_text Atoi (env ''POLL_INTERVAL''))
        (parsed_text ParseInt0 (last_flag ''p'' sets)) (parsed_text ParseSeconds (fc_PollInterval fc)) 2,
      ReportInterval = layered (parsed_text Atoi (env ''REPORT_INTERVAL''))
        (parsed_text ParseInt0 (last_flag ''r'' sets)) (parsed_text ParseSeconds (fc_ReportInterval fc)) 10,
      Key = layered (env ''KEY'') (last_flag ''k'' sets) None '''',
      RateLimit = layered (parsed_text Atoi (env ''RATE_LIMIT'')) (parsed_text ParseInt0 (last_flag ''l'' sets)) None 1,
      CryptoKey = layered (env ''CRYPTO_KEY'') (last_flag ''crypto-key'' sets) (fc_CryptoKey fc) '''',
      GRPCAddr = layered (env ''GRPC_ADDRESS'') (last_flag ''grpc-address'' sets) (fc_GRPCAddress fc) ''''\<rparr>"

lemma agent_flag_values_eq:
  assumes "flag_Parse agent_flags args = Inr sets"
  shows "agent_flag_values sets d =
     \<lparr>Addr = layered None (last_flag ''a'' sets) None (Addr d),
      PollInterval = layered None (parsed_text ParseInt0 (last_flag ''p'' sets)) None (PollInterval d),
      ReportInterval = layered None (parsed_text ParseInt0 (last_flag ''r'' sets)) None (ReportInterval d),
      Key = layered None (last_flag ''k'' sets) None '''',
      RateLimit = layered None (parsed_text ParseInt0 (last_flag ''l'' sets)) None 1,
      CryptoKey = layered None (last_flag ''crypto-key'' sets) None (CryptoKey d),
      GRPCAddr = layered None (last_flag ''grpc-address'' sets) None (GRPCAddr d)\<rparr>"
  using flag_int_last [OF assms, of "''p''"] flag_int_last [OF assms, of "''r''"] flag_int_last [OF assms, of "''l''"]
  by (simp add: agent_flag_values_def flag_string_last agent_flags_def)

text \<open>An optional assignment is one update of its field.\<close>

lemma agent_updates:
  "(case x of None \<Rightarrow> c | Some v \<Rightarrow> c\<lparr>Addr := v\<rparr>) = Addr_update (\<lambda>a. case x of None \<Rightarrow> a | Some v \<Rightarrow> v) c"
  "(case y of None \<Rightarrow> c | Some v \<Rightarrow> c\<lparr>PollInterval := v\<rparr>) = PollInterval_update (\<lambda>a. case y of None \<Rightarrow> a | Some v \<Rightarrow> v) c"
  "(case y of None \<Rightarrow> c | Some v \<Rightarrow> c\<lparr>ReportInterval := v\<rparr>) = ReportInterval_update (\<lambda>a. case y of None \<Rightarrow> a | Some v \<Rightarrow> v) c"
  "(case x of None \<Rightarrow> c | Some v \<Rightarrow> c\<lparr>Key := v\<rparr>) = Key_update (\<lambda>a. case x of None \<Rightarrow> a | Some v \<Rightarrow> v) c"
  "(case y of None \<Rightarrow> c | Some v \<Rightarrow> c\<lparr>RateLimit := v\<rparr>) = RateLimit_update (\<lambda>a. case y of None \<Rightarrow> a | Some v \<Rightarrow> v) c"
  "(case x of None \<Rightarrow> c | Some v \<Rightarrow> c\<lparr>CryptoKey := v\<rparr>) = CryptoKey_update (\<lambda>a. case x of None \<Rightarrow> a | Some v \<Rightarrow> v) c"
  "(case x of None \<Rightarrow> c | Some v \<Rightarrow> c\<lparr>GRPCAddr := v\<rparr>) = GRPCAddr_update (\<lambda>a. case x of None \<Rightarrow> a | Some v \<Rightarrow> v) c"
  by (cases x; cases y; simp)+

lemma agent_file_layer_eq:
  "agent_file_layer env read args = Inr c \<longleftrightarrow>
     agent_file_ok env read args \<and> c = agent_layers Map.empty (agent_file env read args) []"
proof (cases "extractConfigPath env args = ''''")
  case True
  then show ?thesis
    by (auto simp: agent_file_layer_def agent_file_def agentFile_zero_def agent_layers_def agent_defaults_def
        last_flag_def agent_file_ok_def)
next
  case False
  have steps: "run_steps (agent_file_steps p fc) agent_defaults = Inr c \<longleftrightarrow>
      readable ParseSeconds (fc_PollInterval fc) \<and> readable ParseSeconds (fc_ReportInterval fc) \<and>
      c = agent_layers Map.empty fc []" for p fc
    by (simp add: agent_file_steps_def step_Inr agent_updates agent_layers_def last_flag_def layered_default
        agent_defaults_def)
  from False show ?thesis
    by (auto simp: agent_file_layer_def Let_def agent_file_def agent_file_ok_def steps split: sum.splits)
qed

lemma agent_env_layer_eq:
  "run_steps (agent_env_steps env) c = Inr c' \<longleftrightarrow>
     agent_env_ok env \<and>
     c' =
     \<lparr>Addr = layered (env ''ADDRESS'') None None (Addr c),
      PollInterval = layered (parsed_text Atoi (env ''POLL_INTERVAL'')) None None (PollInterval c),
      ReportInterval = layered (parsed_text Atoi (env ''REPORT_INTERVAL'')) None None (ReportInterval c),
      Key = layered (env ''KEY'') None None (Key c),
      RateLimit = layered (parsed_text Atoi (env ''RATE_LIMIT'')) None None (RateLimit c),
      CryptoKey = layered (env ''CRYPTO_KEY'') None None (CryptoKey c),
      GRPCAddr = layered (env ''GRPC_ADDRESS'') None None (GRPCAddr c)\<rparr>"
  by (cases c) (simp add: agent_env_steps_def step_Inr agent_updates layered_env agent_env_ok_def)

text \<open>The agent's settings follow the same precedence.\<close>

lemma agent_config_layers:
  "ParseAgentConfig env read args = Parsed cfg \<longleftrightarrow>
     agent_file_ok env read args \<and> agent_env_ok env \<and>
     (\<exists>sets. flag_Parse agent_flags args = Inr sets \<and> cfg = agent_layers env (agent_file env read args) sets)"
proof -
  have layers: "run_steps (agent_env_steps env)
        (agent_flag_values sets (agent_layers Map.empty (agent_file env read args) [])) = Inr cfg \<longleftrightarrow>
      agent_env_ok env \<and> cfg = agent_layers env (agent_file env read args) sets"
    if "flag_Parse agent_flags args = Inr sets" for sets
    by (simp add: agent_env_layer_eq agent_flag_values_eq [OF that] agent_layers_def layered_nest last_flag_def)
  have "ParseAgentConfig env read args = Parsed cfg \<longleftrightarrow>
      (\<exists>d sets. agent_file_layer env read args = Inr d \<and> flag_Parse agent_flags args = Inr sets \<and>
        run_steps (agent_env_steps env) (agent_flag_values sets d) = Inr cfg)"
    by (auto simp: ParseAgentConfig_def split: sum.splits)
  then show ?thesis unfolding agent_file_layer_eq using layers by blast
qed

end
