(* ===== verification/AgentMain.thy ===== *)
theory AgentMain
  imports Grpc Agent Config_Agent
begin

section \<open>The agent process\<close>

text \<open>
  \<^verbatim>\<open>cmd/agent/main.go\<close>: from the configuration to a running agent over HTTP or gRPC. Key loading,
  the dialing of a gRPC connection and the transports are parameters.
\<close>

datatype 'w agent_started =
    Left_process flag_exit
  | Fatal string error
  | Running AgentConfig "'w Agent" Collector

text \<open>\<^verbatim>\<open>time.Duration(n)*time.Second\<close>, in nanoseconds; the product wraps around.\<close>

definition seconds :: "int64 \<Rightarrow> int" where
  "seconds n = sint (n * 1000000000)"

definition agent_rate_limit :: error where
  "agent_rate_limit = Opaque ''rateLimit must be > 0''"

definition agent_start ::
    "env \<Rightarrow> reader \<Rightarrow> error option \<Rightarrow> (string \<Rightarrow> error + 'pub) \<Rightarrow> (string \<Rightarrow> error option) \<Rightarrow>
     error + iface_addr list \<Rightarrow> 'w retry_go \<Rightarrow> ('pub, 'priv, 'w) sender_env \<Rightarrow>
     (metadata \<Rightarrow> pb_Metric list \<Rightarrow> 'w \<Rightarrow> rpc_status option \<times> 'w) \<Rightarrow> string list \<Rightarrow> 'w agent_started" where
  "agent_start env read zap_fault load_key dial addrs rg senv conn args =
     (case ParseAgentConfig env read args of
        Exit x \<Rightarrow> Left_process x
      | Failed err \<Rightarrow> Fatal ''invalid config: %v'' err
      | Parsed cfg \<Rightarrow>
          (case zap_fault of
             Some err \<Rightarrow> Fatal ''failed to init logger: %v'' err
           | None \<Rightarrow>
               (case (if CryptoKey cfg \<noteq> '''' then map_sum id Some (load_key (CryptoKey cfg)) else Inr None) of
                  Inl err \<Rightarrow> Fatal ''load crypto public key: %v'' err
                | Inr pub \<Rightarrow>
                    (case (if GRPCAddr cfg \<noteq> ''''
                           then map_sum id (GRPCSender_SendBatch conn) (NewGRPCSender (dial (GRPCAddr cfg)) addrs (GRPCAddr cfg))
                           else Inr (SendBatch rg senv (NewSender addrs (''http://'' @ Addr cfg) (Key cfg) pub))) of
                       Inl err \<Rightarrow> Fatal ''grpc sender: %v'' err
                     | Inr snd_batch \<Rightarrow>
                         (case NewWithSender snd_batch (seconds (PollInterval cfg)) (seconds (ReportInterval cfg))
                                 (sint (RateLimit cfg)) of
                            None \<Rightarrow> Fatal ''rateLimit must be > 0'' agent_rate_limit
                          | Some (a, c) \<Rightarrow> Running cfg a c)))))"

text \<open>What a running agent was built from.\<close>

lemma agent_start_running:
  assumes "agent_start env read zap_fault load_key dial addrs rg senv conn args = Running cfg a c"
  shows "ParseAgentConfig env read args = Parsed cfg" "c = NewCollector"
    "pollInterval a = seconds (PollInterval cfg)" "reportInterval a = seconds (ReportInterval cfg)"
    "rateLimit a = sint (RateLimit cfg)" "0 < rateLimit a"
  using assms
  by (auto simp: agent_start_def NewWithSender_def split: parsed.splits option.splits sum.splits prod.splits if_splits)

subsection \<open>Intervals\<close>

text \<open>Whole seconds up to about 292 years are exact.\<close>

lemma seconds_exact:
  assumes "\<bar>sint n\<bar> \<le> 9223372036"
  shows "seconds n = sint n * 1000000000"
proof -
  have "n * 1000000000 = word_of_int (sint n * 1000000000)" by (simp add: wi_hom_syms)
  moreover have "sint (word_of_int (sint n * 1000000000) :: int64) = sint n * 1000000000"
    unfolding sint_sbintrunc' by (rule signed_take_bit_int_eq_self) (use assms in auto)
  ultimately show ?thesis by (simp add: seconds_def)
qed

text \<open>An agent whose tickers cannot be created never collects anything.\<close>

lemma never_collects:
  assumes "reachable a c w s" and "pollInterval a \<le> 0"
  shows "col s = c \<and> collect_at s = L_Start \<and> extra_at s = L_Start"
  using assms(1)
proof (induction rule: reachable.induct)
  case (step s k t)
  from step.hyps(2) step.IH assms(2) show ?case
    by (cases rule: agent_step.cases) (auto simp: chan_send_def)
qed (simp add: Run_init_def)


subsection \<open>A configuration file with a sub-second interval\<close>

text \<open>The file's only setting is a poll interval of half a second.\<close>

definition subsecond_file :: bytes where
  "subsecond_file = ''{'' @ json_string ''poll_interval'' @ '':'' @ json_string ''500ms'' @ ''}''"

definition subsecond_reader :: reader where
  "subsecond_reader p = (if p = ''agent.json'' then Inr subsecond_file else Inl (Opaque ''no such file''))"

definition no_env :: env where
  "no_env k = None"

definition idle_senv :: "(unit, unit, unit) sender_env" where
  "idle_senv = \<lparr>gz = sample_gzip, clib = plain_lib, rand_of = (\<lambda>_. plain_rnd), url_fault = (\<lambda>_. None),
     http_Do = (\<lambda>r w. (Inr 200, w)), remote_addr = '''', server_now = 0\<rparr>"

definition subsecond_start :: "unit agent_started" where
  "subsecond_start =
     agent_start no_env subsecond_reader None (\<lambda>_. Inr ()) (\<lambda>_. None) (Inr []) sample_retry_go idle_senv
       (\<lambda>_ _ w. (None, w)) [''-c'', ''agent.json'']"

lemma bit_len_simps: "bit_len 0 = 0" "bit_len (Suc 0) = 1" "bit_len (numeral k) = Suc (bit_len (numeral k div 2))"
  by (simp_all add: bit_len.simps [of "numeral k"] bit_len.simps [of 0] bit_len.simps [of "Suc 0"])

lemmas fl_eval = fl_def round_mag_def round_exp_def scale_def bit_len_simps Let_def round_half_even_def
  f64_sig_def f64_pow_def f64_exp_def f64_mag_def f64_frac_def

lemma half_second_floats:
  "fl 0 1 = (0, 2 ^ 1074)"
  "fl 500000000 1 = (8388608000000000 , 16777216)"
  "fl_div (8388608000000000 , 16777216) (1000000000, 1) = (4503599627370496, 9007199254740992)"
  "fl_add (0, 2 ^ 1074) (4503599627370496, 9007199254740992) = (4503599627370496, 9007199254740992)"
  unfolding fl_div_def fl_add_def by (simp_all add: fl_eval)

lemma half_second: "ParseSeconds ''500ms'' = Inr 0"
proof -
  have "ParseDuration ''500ms'' = Inr 500000000"
    by (simp add: ParseDuration_def strip_sign_def Let_def duration_loop.simps duration_term_def leadingInt_def
        is_digit_def digits_val_def digit_val_def unit_ns_def)
  moreover have "int_Seconds 500000000 = 0" using half_second_floats by (simp add: int_Seconds_def)
  ultimately show ?thesis by (simp add: ParseSeconds_def)
qed

lemma subsecond_parsed:
  "ParseAgentConfig no_env subsecond_reader [''-c'', ''agent.json''] = Parsed (agent_defaults\<lparr>PollInterval := 0\<rparr>)"
proof -
  let ?fc = "agentFile_zero\<lparr>fc_PollInterval := Some ''500ms''\<rparr>"
  have "extractConfigPath no_env [''-c'', ''agent.json''] = ''agent.json''"
    by (simp add: extractConfigPath_def no_env_def)
  moreover have "loadAgentFile subsecond_reader ''agent.json'' = Inr ?fc" by code_simp
  moreover have "flag_Parse agent_flags [''-c'', ''agent.json''] = Inr [(''c'', ''agent.json'')]" by code_simp
  ultimately show ?thesis
    unfolding agent_config_layers
    by (simp add: agent_file_ok_def agent_file_def agent_env_ok_def no_env_def readable_def half_second
        agent_layers_def agent_defaults_def agentFile_zero_def last_flag_def)
qed


end
