(* ===== verification/Linter.thy ===== *)
theory Linter
  imports GoText
begin

section \<open>The noexit analyzer\<close>

text \<open>
  \<^verbatim>\<open>cmd/linter/analyzer.go\<close>: a static check over the syntax trees of a package. The trees are those
  of \<^verbatim>\<open>go/ast\<close> as far as the analyzer looks at them: calls with their position, identifiers,
  selectors, and every other node with its children.
\<close>

datatype node =
    CallExpr nat node "node list"
  | SelectorExpr node string
  | Ident string
  | OtherNode "node list"

datatype decl =
    FuncDecl bool "string option" "node option"
  | GenDecl "node list"

record ast_file =
  Filename :: string
  Comments :: "string list list"
  Decls :: "decl list"

record pass =
  PkgName :: string
  Files :: "ast_file list"

datatype diagnostic = PanicCall nat | FatalCall nat string | ExitCall nat

text \<open>The strings of the diagnostics, with their position.\<close>

fun message :: "diagnostic \<Rightarrow> string" where
  "message (PanicCall p) = ''panic call is forbidden''"
| "message (FatalCall p sel) = ''log.'' @ sel @ '' is forbidden outside main() of package main''"
| "message (ExitCall p) = ''os.Exit is forbidden outside main() of package main''"

definition checkCall :: "nat \<Rightarrow> node \<Rightarrow> bool \<Rightarrow> diagnostic list" where
  "checkCall pos fun inMainFunc =
     (case fun of
        Ident name \<Rightarrow> if name = ''panic'' then [PanicCall pos] else []
      | SelectorExpr (Ident pkg) sel \<Rightarrow>
          if pkg = ''log'' \<and> strings_HasPrefix sel ''Fatal'' then (if \<not> inMainFunc then [FatalCall pos sel] else [])
          else if pkg = ''os'' \<and> sel = ''Exit'' then (if \<not> inMainFunc then [ExitCall pos] else [])
          else []
      | _ \<Rightarrow> [])"

text \<open>\<^verbatim>\<open>ast.Inspect\<close> with a function that always goes on: every node, a parent before its children.\<close>

fun Inspect :: "(node \<Rightarrow> 'a list) \<Rightarrow> node \<Rightarrow> 'a list" where
  "Inspect f (CallExpr p g as) = f (CallExpr p g as) @ Inspect f g @ concat (map (Inspect f) as)"
| "Inspect f (SelectorExpr x sel) = f (SelectorExpr x sel) @ Inspect f x @ f (Ident sel)"
| "Inspect f (Ident n) = f (Ident n)"
| "Inspect f (OtherNode ns) = f (OtherNode ns) @ concat (map (Inspect f) ns)"

definition isGenerated :: "ast_file \<Rightarrow> bool" where
  "isGenerated f =
     list_ex (list_ex (\<lambda>c. strings_HasPrefix c ''// Code generated'' \<and> strings_Contains c ''DO NOT EDIT'')) (Comments f)"

definition inspect_call :: "bool \<Rightarrow> node \<Rightarrow> diagnostic list" where
  "inspect_call inMainFunc n = (case n of CallExpr p g as \<Rightarrow> checkCall p g inMainFunc | _ \<Rightarrow> [])"

definition check_decl :: "bool \<Rightarrow> decl \<Rightarrow> diagnostic list" where
  "check_decl isMainPkg d =
     (case d of
        FuncDecl recv name (Some body) \<Rightarrow>
          Inspect (inspect_call (isMainPkg \<and> \<not> recv \<and> name = Some ''main'')) body
      | _ \<Rightarrow> [])"

definition runNoExit :: "pass \<Rightarrow> diagnostic list" where
  "runNoExit p =
     (let isMainPkg = (PkgName p = ''main'')
      in concat (map (\<lambda>file.
           if isGenerated file then []
           else if strings_HasSuffix (Filename file) ''_test.go'' then []
           else concat (map (check_decl isMainPkg) (Decls file))) (Files p)))"

subsection \<open>What is reported\<close>

text \<open>A call anywhere inside a node.\<close>

inductive calls :: "node \<Rightarrow> nat \<Rightarrow> node \<Rightarrow> bool" where
  here: "calls (CallExpr p g as) p g"
| callee: "calls g p f \<Longrightarrow> calls (CallExpr q g as) p f"
| argument: "a \<in> set as \<Longrightarrow> calls a p f \<Longrightarrow> calls (CallExpr q g as) p f"
| selected: "calls x p f \<Longrightarrow> calls (SelectorExpr x sel) p f"
| child: "n \<in> set ns \<Longrightarrow> calls n p f \<Longrightarrow> calls (OtherNode ns) p f"

inductive_simps calls_simps [simp]:
  "calls (CallExpr q g as) p f" "calls (SelectorExpr x sel) p f" "calls (Ident i) p f" "calls (OtherNode ns) p f"

text \<open>The rule the analyzer documents, for one call; \<open>in_main\<close> is the exception of the main function.\<close>

fun forbidden :: "bool \<Rightarrow> node \<Rightarrow> nat \<Rightarrow> diagnostic \<Rightarrow> bool" where
  "forbidden in_main f p (PanicCall q) \<longleftrightarrow> q = p \<and> f = Ident ''panic''"
| "forbidden in_main f p (FatalCall q sel) \<longleftrightarrow>
     q = p \<and> \<not> in_main \<and> f = SelectorExpr (Ident ''log'') sel \<and> strings_HasPrefix sel ''Fatal''"
| "forbidden in_main f p (ExitCall q) \<longleftrightarrow> q = p \<and> \<not> in_main \<and> f = SelectorExpr (Ident ''os'') ''Exit''"

lemma checkCall_forbidden: "d \<in> set (checkCall p f in_main) \<longleftrightarrow> forbidden in_main f p d"
proof (cases f)
  case (SelectorExpr x sel)
  have "strings_HasPrefix ''Exit'' ''Fatal'' = False" by (simp add: strings_HasPrefix_def)
  then show ?thesis
    unfolding SelectorExpr by (cases x; cases d) (auto simp: checkCall_def)
qed (cases d; auto simp: checkCall_def)+

lemma Inspect_calls:
  "d \<in> set (Inspect (inspect_call in_main) n) \<longleftrightarrow> (\<exists>p f. calls n p f \<and> forbidden in_main f p d)"
proof (induction n)
  case (CallExpr q g as)
  then show ?case
    by (simp add: inspect_call_def checkCall_forbidden) blast
qed (auto simp: inspect_call_def)

text \<open>
  C39. The analyzer reports exactly what it documents inside function bodies (cmd/linter/analyzer.go
  runNoExit): a diagnostic is reported if and only if some function or method with a body, in a
  file that is neither generated nor a test, contains at any depth a call of \<^verbatim>\<open>panic\<close>, of
  \<^verbatim>\<open>log.Fatal*\<close> or of \<^verbatim>\<open>os.Exit\<close>, the last two not in the main function of package main. Calls
  outside function declarations, such as in the initializer of a package variable, are never
  reported.
\<close>

theorem noexit_exact:
  "d \<in> set (runNoExit p) \<longleftrightarrow>
     (\<exists>file recv name body pos f.
        file \<in> set (Files p) \<and> \<not> isGenerated file \<and> \<not> strings_HasSuffix (Filename file) ''_test.go'' \<and>
        FuncDecl recv name (Some body) \<in> set (Decls file) \<and> calls body pos f \<and>
        forbidden (PkgName p = ''main'' \<and> \<not> recv \<and> name = Some ''main'') f pos d)"
proof -
  have "d \<in> set (check_decl isMain dc) \<longleftrightarrow>
      (\<exists>recv name body pos f. dc = FuncDecl recv name (Some body) \<and> calls body pos f \<and>
         forbidden (isMain \<and> \<not> recv \<and> name = Some ''main'') f pos d)" for isMain dc
    unfolding check_decl_def
    by (cases dc) (simp_all add: Inspect_calls split: option.split, blast)
  then show ?thesis by (simp add: runNoExit_def Let_def) blast
qed

end
