(* ===== verification/ResetGen.thy ===== *)
theory ResetGen
  imports Json
begin

section \<open>The generator of Reset methods\<close>

text \<open>
  \<^verbatim>\<open>cmd/reset/generate/generate.go\<close>: it looks for structs marked with a comment and writes a method
  that resets their fields. The loader of packages (\<^verbatim>\<open>golang.org/x/tools/go/packages\<close>), the formatter
  and the file system are parameters; types are those of \<^verbatim>\<open>go/types\<close> as far as the generator
  distinguishes them.
\<close>

subsection \<open>Types\<close>

datatype basic_kind =
    Bool_kind
  | String_kind
  | Numeric_kind
  | UntypedBool_kind
  | UntypedString_kind
  | UnsafePointer_kind

text \<open>
  A named type is its package path (\<open>None\<close> for the universe) and its name. \<open>OtherT\<close> is every type
  the generator has no case for: arrays, interfaces, channels, functions and type parameters.
\<close>

datatype gotype =
    Basic basic_kind
  | Slice gotype
  | MapT gotype gotype
  | Pointer gotype
  | Named "string option" string
  | AliasT gotype
  | StructT "(string \<times> gotype) list"
  | OtherT

text \<open>
  What the type checker knows: the underlying type of a named type and the method set of a type,
  each method with its name and the numbers of its parameters and results.
\<close>

record tenv =
  under :: "string option \<Rightarrow> string \<Rightarrow> gotype"
  method_set :: "gotype \<Rightarrow> (string \<times> nat \<times> nat) list"

fun Underlying :: "tenv \<Rightarrow> gotype \<Rightarrow> gotype" where
  "Underlying env (Named p n) = under env p n"
| "Underlying env (AliasT t) = Underlying env t"
| "Underlying env t = t"

subsection \<open>One field\<close>

definition hasResetMethod :: "tenv \<Rightarrow> gotype \<Rightarrow> bool" where
  "hasResetMethod env t = list_ex (\<lambda>(n, ps, rs). n = ''Reset'' \<and> ps = 0 \<and> rs = 0) (method_set env t)"

definition hasOrWillHaveReset :: "tenv \<Rightarrow> gotype \<Rightarrow> string set \<Rightarrow> string \<Rightarrow> bool" where
  "hasOrWillHaveReset env t markedSet pkgPath =
     (let probe = (case t of Pointer _ \<Rightarrow> t | _ \<Rightarrow> Pointer t)
      in if hasResetMethod env probe then True
         else (case (case t of Pointer e \<Rightarrow> e | _ \<Rightarrow> t) of
                 Named p n \<Rightarrow> if p \<noteq> Some pkgPath then False else n \<in> markedSet
               | _ \<Rightarrow> False))"

definition quotes :: string where
  "quotes = [CHR 0x22, CHR 0x22]"

definition basicZero :: "basic_kind \<Rightarrow> string" where
  "basicZero b =
     (if b = Bool_kind \<or> b = UntypedBool_kind then ''false''
      else if b = String_kind \<or> b = UntypedString_kind then quotes
      else ''0'')"

text \<open>The statements the generator writes for a field, and their text.\<close>

datatype reset_op =
    Call_Reset
  | Call_Reset_nonnil
  | Assign_zero string
  | Truncate
  | Clear
  | Deref_zero string

fun op_lines :: "string \<Rightarrow> reset_op \<Rightarrow> string list" where
  "op_lines e Call_Reset = [e @ ''.Reset()'']"
| "op_lines e Call_Reset_nonnil = [''if '' @ e @ '' != nil {'', CHR 0x09 # e @ ''.Reset()'', ''}'']"
| "op_lines e (Assign_zero z) = [e @ '' = '' @ z]"
| "op_lines e Truncate = [e @ '' = '' @ e @ ''[:0]'']"
| "op_lines e Clear = [''clear('' @ e @ '')'']"
| "op_lines e (Deref_zero z) = [''if '' @ e @ '' != nil {'', CHR 0x09 # CHR ''*'' # e @ '' = '' @ z, ''}'']"

definition reset_op_of :: "tenv \<Rightarrow> gotype \<Rightarrow> string set \<Rightarrow> string \<Rightarrow> reset_op option" where
  "reset_op_of env t markedSet pkgPath =
     (if hasOrWillHaveReset env t markedSet pkgPath then
        Some (case t of Pointer _ \<Rightarrow> Call_Reset_nonnil | _ \<Rightarrow> Call_Reset)
      else case t of
             Basic b \<Rightarrow> Some (Assign_zero (basicZero b))
           | Slice _ \<Rightarrow> Some Truncate
           | MapT _ _ \<Rightarrow> Some Clear
           | Pointer e \<Rightarrow> (case Underlying env e of Basic b \<Rightarrow> Some (Deref_zero (basicZero b)) | _ \<Rightarrow> None)
           | Named _ _ \<Rightarrow>
               (case Underlying env t of
                  Basic b \<Rightarrow> Some (Assign_zero (basicZero b))
                | Slice _ \<Rightarrow> Some Truncate
                | MapT _ _ \<Rightarrow> Some Clear
                | _ \<Rightarrow> None)
           | _ \<Rightarrow> None)"

definition resetField :: "tenv \<Rightarrow> string \<Rightarrow> string \<Rightarrow> gotype \<Rightarrow> string set \<Rightarrow> string \<Rightarrow> string list" where
  "resetField env recv name t markedSet pkgPath =
     (case reset_op_of env t markedSet pkgPath of
        None \<Rightarrow> []
      | Some op \<Rightarrow> op_lines (recv @ ''.'' @ name) op)"

subsection \<open>Marked structs\<close>

definition Marker :: string where "Marker = ''generate:reset''"
definition GeneratedFile :: string where "GeneratedFile = ''reset.gen.go''"
definition generatedHeader :: string where "generatedHeader = ''// Code generated by cmd/reset; DO NOT EDIT.''"

definition marker_line :: "string \<Rightarrow> string" where
  "marker_line c =
     strings_TrimSpace (strings_TrimSuffix (strings_TrimSpace (strings_TrimPrefix
       (strings_TrimSpace (strings_TrimPrefix c ''//'')) ''/*'')) ''*/'')"

definition hasMarker :: "string list option \<Rightarrow> bool" where
  "hasMarker cg = (case cg of None \<Rightarrow> False | Some cs \<Rightarrow> list_ex (\<lambda>c. marker_line c = Marker) cs)"

record type_spec =
  ts_name :: string
  ts_doc :: "string list option"
  ts_struct :: bool

datatype top_decl = TypeDecl "string list option" "type_spec list" | OtherDecl

text \<open>\<open>scope_type\<close> is the type of a package-level object.\<close>

record package =
  pkg_name :: string
  pkg_path :: string
  pkg_errors :: "error list"
  pkg_syntax :: "top_decl list list"
  scope_type :: "string \<Rightarrow> gotype option"
  pkg_types :: tenv

record markedStruct =
  ms_name :: string
  ms_fields :: "(string \<times> gotype) list"

definition marked_spec :: "string list option \<Rightarrow> type_spec list \<Rightarrow> type_spec \<Rightarrow> bool" where
  "marked_spec gdoc specs ts =
     (hasMarker (if ts_doc ts = None \<and> length specs = 1 then gdoc else ts_doc ts) \<and> ts_struct ts)"

definition marked_names :: "package \<Rightarrow> string list" where
  "marked_names pkg =
     concat (map (\<lambda>d. case d of
         TypeDecl gdoc specs \<Rightarrow> map ts_name (filter (marked_spec gdoc specs) specs)
       | OtherDecl \<Rightarrow> []) (concat (pkg_syntax pkg)))"

definition marked_struct :: "package \<Rightarrow> string \<Rightarrow> markedStruct option" where
  "marked_struct pkg name =
     (case scope_type pkg name of
        Some (Named p n) \<Rightarrow>
          (case Underlying (pkg_types pkg) (Named p n) of
             StructT fs \<Rightarrow> Some \<lparr>ms_name = name, ms_fields = fs\<rparr>
           | _ \<Rightarrow> None)
      | _ \<Rightarrow> None)"

text \<open>The names are ranged over in any order and the result is sorted by name.\<close>

definition findMarked :: "(string, bool) map_order \<Rightarrow> package \<Rightarrow> markedStruct list" where
  "findMarked om pkg =
     (let names = foldl (\<lambda>m n. map_set m n True) make_map (marked_names pkg)
      in sort_key ms_name (List.map_filter (\<lambda>(n, _). marked_struct pkg n) (go_range om names)))"

subsection \<open>The file\<close>

text \<open>The receiver is the first letter in lower case; \<open>ulow\<close> gives it for a letter outside ASCII.\<close>

definition receiverName :: "(string \<Rightarrow> string) \<Rightarrow> string \<Rightarrow> string" where
  "receiverName ulow n =
     (case n of
        [] \<Rightarrow> ''r''
      | c # _ \<Rightarrow> if (of_char c :: nat) < 128 then [lower c] else ulow (take (utf8_size n) n))"

definition newline :: string where "newline = [CHR 0x0A]"

definition reset_method :: "(string \<Rightarrow> string) \<Rightarrow> package \<Rightarrow> string set \<Rightarrow> markedStruct \<Rightarrow> string" where
  "reset_method ulow pkg markedSet m =
     (let recv = receiverName ulow (ms_name m)
      in ''// Reset zeros the fields of '' @ ms_name m @ ''; safe to call on a nil receiver.'' @ newline @
         ''func ('' @ recv @ '' *'' @ ms_name m @ '') Reset() {'' @ newline @
         CHR 0x09 # ''if '' @ recv @ '' == nil {'' @ newline @ [CHR 0x09, CHR 0x09] @ ''return'' @ newline @ CHR 0x09 # ''}'' @ newline @
         concat (map (\<lambda>(n, t). concat (map (\<lambda>line. CHR 0x09 # line @ newline)
           (resetField (pkg_types pkg) recv n t markedSet (pkg_path pkg)))) (ms_fields m)) @
         ''}'' @ newline @ newline)"

definition buildFile ::
    "(string \<Rightarrow> error + string) \<Rightarrow> (string \<Rightarrow> string) \<Rightarrow> package \<Rightarrow> markedStruct list \<Rightarrow> error + string" where
  "buildFile fmt ulow pkg marked =
     (let markedSet = set (map ms_name marked);
          buf = generatedHeader @ newline @ newline @ ''package '' @ pkg_name pkg @ newline @ newline @
                concat (map (reset_method ulow pkg markedSet) marked)
      in case fmt buf of Inl err \<Rightarrow> Inl (Wrapf ''format: %w'' [] err) | Inr out \<Rightarrow> Inr out)"

definition generatePackage ::
    "(string \<Rightarrow> error + package list) \<Rightarrow> (string, bool) map_order \<Rightarrow> (string \<Rightarrow> error + string) \<Rightarrow> (string \<Rightarrow> string) \<Rightarrow>
     string \<Rightarrow> error + string option" where
  "generatePackage load om fmt ulow dir =
     (case load dir of
        Inl err \<Rightarrow> Inl err
      | Inr [] \<Rightarrow> Inr None
      | Inr (pkg # _) \<Rightarrow>
          if pkg_errors pkg \<noteq> [] then Inl (Wrapf ''load %s: %v'' [pkg_path pkg] (hd (pkg_errors pkg)))
          else (let marked = findMarked om pkg
                in if marked = [] then Inr None else map_sum id Some (buildFile fmt ulow pkg marked)))"

subsection \<open>Directories\<close>

text \<open>A directory that cannot be read has no list of entries.\<close>

datatype entry = FileEntry string | DirEntry string "(entry list) option"

definition join_path :: "string \<Rightarrow> string \<Rightarrow> string" where
  "join_path d n = (if d = ''.'' then n else d @ ''/'' @ n)"

definition skipped_dir :: "string \<Rightarrow> bool" where
  "skipped_dir base = (strings_HasPrefix base ''.'' \<or> base = ''vendor'' \<or> base = ''testdata'' \<or> base = ''node_modules'')"

definition go_source :: "string \<Rightarrow> bool" where
  "go_source n = (strings_HasSuffix n ''.go'' \<and> \<not> strings_HasSuffix n ''_test.go'')"

definition read_dir_error :: error where
  "read_dir_error = Opaque ''open directory''"

text \<open>\<^verbatim>\<open>filepath.WalkDir\<close> below a directory: the directories of the Go sources it meets.\<close>

fun walk_entry :: "string \<Rightarrow> entry \<Rightarrow> error + string list" and
    walk_entries :: "string \<Rightarrow> entry list \<Rightarrow> error + string list" where
  "walk_entry d (FileEntry n) = Inr (if go_source n then [d] else [])"
| "walk_entry d (DirEntry n es) =
     (if skipped_dir n then Inr []
      else case es of
             None \<Rightarrow> Inl read_dir_error
           | Some es' \<Rightarrow> walk_entries (join_path d n) es')"
| "walk_entries d [] = Inr []"
| "walk_entries d (e # es) =
     (case walk_entry d e of
        Inl err \<Rightarrow> Inl err
      | Inr ds \<Rightarrow> map_sum id (\<lambda>ds'. ds @ ds') (walk_entries d es))"

definition goDirs :: "string \<Rightarrow> error + entry list \<Rightarrow> error + string list" where
  "goDirs root es =
     (case es of
        Inl err \<Rightarrow> Inl err
      | Inr es' \<Rightarrow> map_sum id (\<lambda>ds. sort (remdups ds)) (walk_entries root es'))"

text \<open>\<^verbatim>\<open>Run\<close>: the files are written in the order of the directories, up to the first error.\<close>

fun run_dirs ::
    "(string \<Rightarrow> error + string option) \<Rightarrow> (string \<Rightarrow> string \<Rightarrow> error option) \<Rightarrow> string list \<Rightarrow> (string, string) gomap \<Rightarrow>
     (string, string) gomap eff" where
  "run_dirs gen write_fault [] fs = (None, fs)"
| "run_dirs gen write_fault (dir # dirs) fs =
     (case gen dir of
        Inl err \<Rightarrow> (Some (Wrapf ''%s: %w'' [dir] err), fs)
      | Inr None \<Rightarrow> run_dirs gen write_fault dirs fs
      | Inr (Some data) \<Rightarrow>
          (case write_fault (join_path dir GeneratedFile) data of
             Some err \<Rightarrow> (Some (Wrapf ''write %s: %w'' [join_path dir GeneratedFile] err), fs)
           | None \<Rightarrow> run_dirs gen write_fault dirs (map_set fs (join_path dir GeneratedFile) data)))"

definition Run ::
    "(string \<Rightarrow> error + string option) \<Rightarrow> (string \<Rightarrow> string \<Rightarrow> error option) \<Rightarrow> string \<Rightarrow> error + entry list \<Rightarrow>
     (string, string) gomap \<Rightarrow> (string, string) gomap eff" where
  "Run gen write_fault root es fs =
     (case goDirs root es of
        Inl err \<Rightarrow> (Some err, fs)
      | Inr dirs \<Rightarrow> run_dirs gen write_fault dirs fs)"

text \<open>\<^verbatim>\<open>cmd/reset/main.go\<close>: the root is the first argument or the current directory; an error is fatal.\<close>

definition reset_main ::
    "(string \<Rightarrow> error + string option) \<Rightarrow> (string \<Rightarrow> string \<Rightarrow> error option) \<Rightarrow> (string \<Rightarrow> error + entry list) \<Rightarrow>
     string list \<Rightarrow> (string, string) gomap \<Rightarrow> (error + string) \<times> (string, string) gomap" where
  "reset_main gen write_fault tree args fs =
     (let root = (case args of _ # r # _ \<Rightarrow> r | _ \<Rightarrow> ''.'')
      in case Run gen write_fault root (tree root) fs of
           (Some err, fs') \<Rightarrow> (Inl (Wrapf ''reset: %v'' [] err), fs')
         | (None, fs') \<Rightarrow> (Inr (''reset: done'' @ newline), fs'))"

subsection \<open>Values\<close>

text \<open>
  Values of the types above. A slice is its backing array and its length, a pointer is nil or the
  value it points to.
\<close>

datatype gval =
    BoolV bool
  | StrV string
  | NumV int
  | SliceV "gval list" nat
  | MapV "(gval \<times> gval) list"
  | PtrV "gval option"
  | StructV "gval list"
  | OtherV nat

fun has_type :: "tenv \<Rightarrow> gval \<Rightarrow> gotype \<Rightarrow> bool" where
  "has_type env (BoolV b) t = (Underlying env t = Basic Bool_kind)"
| "has_type env (StrV s) t = (Underlying env t = Basic String_kind)"
| "has_type env (NumV i) t = (Underlying env t = Basic Numeric_kind)"
| "has_type env (SliceV xs n) t =
     (case Underlying env t of Slice e \<Rightarrow> n \<le> length xs \<and> (\<forall>x \<in> set xs. has_type env x e) | _ \<Rightarrow> False)"
| "has_type env (MapV kvs) t =
     (case Underlying env t of MapT k e \<Rightarrow> (\<forall>(x, y) \<in> set kvs. has_type env x k \<and> has_type env y e) | _ \<Rightarrow> False)"
| "has_type env (PtrV p) t =
     (case Underlying env t of
        Pointer e \<Rightarrow> (case p of None \<Rightarrow> True | Some v \<Rightarrow> has_type env v e)
      | Basic b \<Rightarrow> b = UnsafePointer_kind
      | _ \<Rightarrow> False)"
| "has_type env (StructV vs) t =
     (case Underlying env t of
        StructT fs \<Rightarrow> list_all2 (has_type env) vs (map snd fs)
      | _ \<Rightarrow> False)"
| "has_type env (OtherV i) t = (Underlying env t = OtherT)"

text \<open>The value of a literal the generator writes.\<close>

definition literal_value :: "string \<Rightarrow> gval" where
  "literal_value z = (if z = ''false'' then BoolV False else if z = quotes then StrV [] else NumV 0)"

text \<open>What a statement does to the field; \<open>call\<close> is the Reset method of a type.\<close>

fun exec_op :: "(gotype \<Rightarrow> gval \<Rightarrow> gval) \<Rightarrow> gotype \<Rightarrow> reset_op \<Rightarrow> gval \<Rightarrow> gval" where
  "exec_op call t Call_Reset v = call t v"
| "exec_op call t Call_Reset_nonnil v =
     (case (t, v) of (Pointer e, PtrV p) \<Rightarrow> PtrV (map_option (call e) p) | _ \<Rightarrow> v)"
| "exec_op call t (Assign_zero z) v = literal_value z"
| "exec_op call t Truncate v = (case v of SliceV xs n \<Rightarrow> SliceV xs 0 | _ \<Rightarrow> v)"
| "exec_op call t Clear v = (case v of MapV kvs \<Rightarrow> MapV [] | _ \<Rightarrow> v)"
| "exec_op call t (Deref_zero z) v = (case v of PtrV p \<Rightarrow> PtrV (map_option (\<lambda>_. literal_value z) p) | _ \<Rightarrow> v)"

definition exec_field :: "tenv \<Rightarrow> (gotype \<Rightarrow> gval \<Rightarrow> gval) \<Rightarrow> string set \<Rightarrow> string \<Rightarrow> gotype \<Rightarrow> gval \<Rightarrow> gval" where
  "exec_field env call markedSet pkgPath t v =
     (case reset_op_of env t markedSet pkgPath of None \<Rightarrow> v | Some op \<Rightarrow> exec_op call t op v)"

definition exec_Reset ::
    "tenv \<Rightarrow> (gotype \<Rightarrow> gval \<Rightarrow> gval) \<Rightarrow> string set \<Rightarrow> string \<Rightarrow> markedStruct \<Rightarrow> gval list \<Rightarrow> gval list" where
  "exec_Reset env call markedSet pkgPath m vs =
     map2 (\<lambda>(n, t) v. exec_field env call markedSet pkgPath t v) (ms_fields m) vs"

text \<open>The kinds a struct field can have; unsafe pointers are left out.\<close>

definition plain_kind :: "basic_kind \<Rightarrow> bool" where
  "plain_kind b \<longleftrightarrow> b \<in> {Bool_kind, String_kind, Numeric_kind}"

definition plain_type :: "tenv \<Rightarrow> gotype \<Rightarrow> bool" where
  "plain_type env t \<longleftrightarrow>
     (\<forall>b. Underlying env t = Basic b \<longrightarrow> plain_kind b) \<and>
     (\<forall>e b. t = Pointer e \<and> Underlying env e = Basic b \<longrightarrow> plain_kind b)"

definition zero_of :: "basic_kind \<Rightarrow> gval" where
  "zero_of b = literal_value (basicZero b)"

lemma zero_of_kinds [simp]:
  "zero_of Bool_kind = BoolV False" "zero_of String_kind = StrV []" "zero_of Numeric_kind = NumV 0"
  by (simp_all add: zero_of_def literal_value_def basicZero_def quotes_def)

lemma zero_typed: "plain_kind b \<Longrightarrow> Underlying env t = Basic b \<Longrightarrow> has_type env (zero_of b) t"
  by (auto simp: plain_kind_def)

text \<open>What a field of type \<open>t\<close> becomes, by the underlying type alone.\<close>

definition field_spec :: "tenv \<Rightarrow> (gotype \<Rightarrow> gval \<Rightarrow> gval) \<Rightarrow> bool \<Rightarrow> gotype \<Rightarrow> gval \<Rightarrow> gval \<Rightarrow> bool" where
  "field_spec env call has_reset t v v' \<longleftrightarrow>
     (if has_reset then
        (case t of Pointer e \<Rightarrow> (case v of PtrV (Some w) \<Rightarrow> v' = PtrV (Some (call e w)) | _ \<Rightarrow> v' = v) | _ \<Rightarrow> v' = call t v)
      else if (\<exists>u. t = AliasT u) then v' = v
      else case Underlying env t of
             Basic b \<Rightarrow> v' = zero_of b
           | Slice _ \<Rightarrow> (\<exists>xs n. v = SliceV xs n \<and> v' = SliceV xs 0)
           | MapT _ _ \<Rightarrow> v' = MapV []
           | Pointer e \<Rightarrow>
               (case (t, Underlying env e) of
                  (Pointer _, Basic b) \<Rightarrow> v' = (if v = PtrV None then v else PtrV (Some (zero_of b)))
                | _ \<Rightarrow> v' = v)
           | _ \<Rightarrow> v' = v)"

text \<open>The shape of a value by the underlying type.\<close>

lemma has_type_Slice: "has_type env v t \<Longrightarrow> Underlying env t = Slice e \<Longrightarrow> \<exists>xs n. v = SliceV xs n"
  by (cases v) simp_all

lemma has_type_Map: "has_type env v t \<Longrightarrow> Underlying env t = MapT k e \<Longrightarrow> \<exists>kvs. v = MapV kvs"
  by (cases v) simp_all

lemma has_type_Pointer: "has_type env v t \<Longrightarrow> Underlying env t = Pointer e \<Longrightarrow> \<exists>p. v = PtrV p"
  by (cases v) simp_all

definition op_fits :: "tenv \<Rightarrow> gotype \<Rightarrow> reset_op \<Rightarrow> bool" where
  "op_fits env t op =
     (case op of
        Call_Reset \<Rightarrow> \<not> (\<exists>e. t = Pointer e)
      | Call_Reset_nonnil \<Rightarrow> (\<exists>e. t = Pointer e)
      | Assign_zero z \<Rightarrow> (\<exists>b. Underlying env t = Basic b \<and> plain_kind b \<and> z = basicZero b)
      | Truncate \<Rightarrow> (\<exists>e. Underlying env t = Slice e)
      | Clear \<Rightarrow> (\<exists>k e. Underlying env t = MapT k e)
      | Deref_zero z \<Rightarrow> (\<exists>e b. t = Pointer e \<and> Underlying env e = Basic b \<and> plain_kind b \<and> z = basicZero b))"

text \<open>Every statement fits the type of its field.\<close>

lemma reset_op_fits: "reset_op_of env t ms p = Some op \<Longrightarrow> plain_type env t \<Longrightarrow> op_fits env t op"
  by (auto simp: reset_op_of_def op_fits_def plain_type_def split: gotype.splits if_splits)

lemma fitting_op_typed:
  assumes "has_type env v t" and "\<And>t v. has_type env v t \<Longrightarrow> has_type env (call t v) t" and "op_fits env t op"
  shows "has_type env (exec_op call t op v) t"
proof (cases op)
  case (Assign_zero z)
  then show ?thesis using assms(3) zero_typed by (auto simp: op_fits_def zero_of_def)
next
  case Truncate
  then show ?thesis using assms(1,3) has_type_Slice [OF assms(1)] by (auto simp: op_fits_def)
next
  case Clear
  then show ?thesis using assms(1,3) has_type_Map [OF assms(1)] by (auto simp: op_fits_def)
next
  case (Deref_zero z)
  then obtain e b where e: "t = Pointer e" "Underlying env e = Basic b" "plain_kind b" "z = basicZero b"
    using assms(3) by (auto simp: op_fits_def)
  then show ?thesis
    using has_type_Pointer [OF assms(1)] zero_typed [OF e(3,2)] Deref_zero
    by (auto simp: zero_of_def split: option.split)
next
  case Call_Reset_nonnil
  then obtain e where e: "t = Pointer e" using assms(3) by (auto simp: op_fits_def)
  then obtain q where "v = PtrV q" using has_type_Pointer [OF assms(1)] by auto
  then show ?thesis using assms(1,2) e Call_Reset_nonnil by (auto split: option.splits)
qed (use assms in simp)

lemma exec_field_spec:
  assumes ty: "has_type env v t"
  shows "field_spec env call (hasOrWillHaveReset env t ms p) t v (exec_field env call ms p t v)"
proof (cases "hasOrWillHaveReset env t ms p")
  case True
  then show ?thesis
    using has_type_Pointer [OF ty]
    by (cases t) (auto simp: field_spec_def exec_field_def reset_op_of_def split: option.splits)
next
  case False
  then show ?thesis
    using has_type_Pointer [OF ty] has_type_Slice [OF ty] has_type_Map [OF ty]
    by (cases t) (auto simp: field_spec_def exec_field_def reset_op_of_def zero_of_def
        split: gotype.splits option.splits)
qed


text \<open>A struct with a number, a slice, a pointer to a string and a map.\<close>

definition sample_tenv :: tenv where
  "sample_tenv = \<lparr>under = (\<lambda>p n. OtherT), method_set = (\<lambda>t. [])\<rparr>"

definition sample_struct :: markedStruct where
  "sample_struct = \<lparr>ms_name = ''Sample'', ms_fields =
     [(''n'', Basic Numeric_kind), (''xs'', Slice (Basic Numeric_kind)), (''s'', Pointer (Basic String_kind)),
      (''m'', MapT (Basic String_kind) (Basic Numeric_kind))]\<rparr>"

definition sample_values :: "gval list" where
  "sample_values = [NumV 7, SliceV [NumV 1, NumV 2] 2, PtrV (Some (StrV ''x'')), MapV [(StrV ''k'', NumV 3)]]"


text \<open>For an unsafe pointer the generator writes the literal 0, which is no value of its type.\<close>

lemma unsafe_pointer_ill_typed:
  assumes "\<not> hasResetMethod env (Pointer (Basic UnsafePointer_kind))"
  shows "resetField env r n (Basic UnsafePointer_kind) ms p = [r @ ''.'' @ n @ '' = 0'']"
    and "\<not> has_type env (literal_value ''0'') (Basic UnsafePointer_kind)"
  using assms
  by (simp_all add: resetField_def reset_op_of_def hasOrWillHaveReset_def basicZero_def literal_value_def quotes_def)

subsection \<open>Which directories are visited\<close>

text \<open>A directory is listed once, in order, when it holds a Go source and no skipped name leads to it.\<close>

inductive sources_in :: "string \<Rightarrow> entry list \<Rightarrow> string \<Rightarrow> bool" where
  source: "FileEntry n \<in> set es \<Longrightarrow> go_source n \<Longrightarrow> sources_in d es d"
| below: "DirEntry n (Some es') \<in> set es \<Longrightarrow> \<not> skipped_dir n \<Longrightarrow> sources_in (join_path d n) es' x \<Longrightarrow> sources_in d es x"

lemma sources_in_mono: "sources_in d es x \<Longrightarrow> set es \<subseteq> set es' \<Longrightarrow> sources_in d es' x"
  by (induction arbitrary: es' rule: sources_in.induct) (blast intro: sources_in.intros)+

lemma walk_sound:
  "walk_entry d e = Inr ds \<Longrightarrow> x \<in> set ds \<Longrightarrow> sources_in d [e] x"
  "walk_entries d es = Inr ds \<Longrightarrow> x \<in> set ds \<Longrightarrow> sources_in d es x"
proof (induction d e and d es arbitrary: ds and ds rule: walk_entry_walk_entries.induct)
  case (2 d n es)
  then show ?case by (auto split: if_splits option.splits intro: below)
next
  case (4 d e es)
  then obtain ds1 ds2 where w: "walk_entry d e = Inr ds1" "walk_entries d es = Inr ds2" "ds = ds1 @ ds2"
    by (cases "walk_entry d e"; cases "walk_entries d es") auto
  then consider "sources_in d [e] x" | "sources_in d es x" using 4 by auto
  then show ?case by cases (auto intro: sources_in_mono)
qed (auto split: if_splits intro: source)

lemma walk_entries_member:
  "walk_entries d es = Inr ds \<Longrightarrow> e \<in> set es \<Longrightarrow> \<exists>ds1. walk_entry d e = Inr ds1 \<and> set ds1 \<subseteq> set ds"
proof (induction es arbitrary: ds)
  case (Cons a es)
  then obtain ds1 ds2 where "walk_entry d a = Inr ds1" "walk_entries d es = Inr ds2" "ds = ds1 @ ds2"
    by (cases "walk_entry d a"; cases "walk_entries d es") auto
  then show ?case using Cons by fastforce
qed simp

lemma walk_complete: "sources_in d es x \<Longrightarrow> walk_entries d es = Inr ds \<Longrightarrow> x \<in> set ds"
proof (induction arbitrary: ds rule: sources_in.induct)
  case (source n es d)
  then show ?case using walk_entries_member [OF source(3,1)] by auto
next
  case (below n es' es d x)
  then show ?case using walk_entries_member [OF below.prems below.hyps(1)] by auto
qed

lemma goDirs_exact:
  "goDirs root (Inr es) = Inr ds \<Longrightarrow> sorted ds \<and> distinct ds \<and> (x \<in> set ds \<longleftrightarrow> sources_in root es x)"
  using walk_sound(2) [of root es] walk_complete [of root es x]
  by (cases "walk_entries root es") (auto simp: goDirs_def)

end
