(* ===== verification/Pool.thy ===== *)
theory Pool
  imports ResetGen "HOL-Library.Multiset"
begin

section \<open>Object pool and build information\<close>

text \<open>
  \<^verbatim>\<open>pkg/pool/pool.go\<close> and \<^verbatim>\<open>pkg/buildinfo/buildinfo.go\<close>. What \<^verbatim>\<open>sync.Pool\<close> hands out is left open by
  its documentation: any of the stored values, or none; stored values may disappear. The choice is
  an argument.
\<close>

subsection \<open>pkg/pool/pool.go\<close>

type_synonym 'a pick = "'a list \<Rightarrow> ('a \<times> 'a list) option"

definition pool_pick :: "'a pick \<Rightarrow> bool" where
  "pool_pick pick \<longleftrightarrow> (\<forall>xs x r. pick xs = Some (x, r) \<longrightarrow> add_mset x (mset r) \<subseteq># mset xs)"

record 'a Pool =
  items :: "'a list"
  factory :: 'a

definition Pool_New :: "'a \<Rightarrow> 'a Pool" where
  "Pool_New f = \<lparr>items = [], factory = f\<rparr>"

definition Pool_Get :: "'a pick \<Rightarrow> 'a Pool \<Rightarrow> 'a \<times> 'a Pool" where
  "Pool_Get pick p =
     (case pick (items p) of
        Some (x, r) \<Rightarrow> (x, p\<lparr>items := r\<rparr>)
      | None \<Rightarrow> (factory p, p))"

definition Pool_Put :: "('a \<Rightarrow> 'a) \<Rightarrow> 'a \<Rightarrow> 'a Pool \<Rightarrow> 'a Pool" where
  "Pool_Put reset v p = p\<lparr>items := reset v # items p\<rparr>"

text \<open>A history of calls and the values it got.\<close>

datatype 'a pool_call = Get | Put 'a

fun pool_run :: "'a pick \<Rightarrow> ('a \<Rightarrow> 'a) \<Rightarrow> 'a pool_call list \<Rightarrow> 'a Pool \<Rightarrow> 'a list" where
  "pool_run pick reset [] p = []"
| "pool_run pick reset (Get # cs) p = (case Pool_Get pick p of (v, p') \<Rightarrow> v # pool_run pick reset cs p')"
| "pool_run pick reset (Put v # cs) p = pool_run pick reset cs (Pool_Put reset v p)"

text \<open>What the pool asks of the type: \<^verbatim>\<open>Reset\<close> leaves a clean value.\<close>

locale resetter =
  fixes reset :: "'a \<Rightarrow> 'a" and clean :: "'a \<Rightarrow> bool"
  assumes reset_clean: "clean (reset v)"
begin

lemma get_clean:
  assumes "pool_pick pick" and "list_all clean (items p)" and "Pool_Get pick p = (v, p')"
  shows "(clean v \<or> v = factory p) \<and> list_all clean (items p') \<and> factory p' = factory p"
proof (cases "pick (items p)")
  case (Some xr)
  then obtain x r where x: "pick (items p) = Some (x, r)" by (cases xr) auto
  then have "add_mset x (mset r) \<subseteq># mset (items p)" using assms(1) by (auto simp: pool_pick_def)
  then have "set (x # r) \<subseteq> set (items p)" by (metis mset.simps(2) set_mset_mono set_mset_mset)
  then show ?thesis using x assms(2,3) by (auto simp: Pool_Get_def list_all_iff)
qed (use assms in \<open>auto simp: Pool_Get_def\<close>)

lemma run_clean:
  "pool_pick pick \<Longrightarrow> list_all clean (items p) \<Longrightarrow> v \<in> set (pool_run pick reset cs p) \<Longrightarrow> clean v \<or> v = factory p"
proof (induction cs arbitrary: p)
  case (Cons c cs)
  show ?case
  proof (cases c)
    case Get
    obtain u p' where u: "Pool_Get pick p = (u, p')" by fastforce
    from get_clean [OF Cons.prems(1,2) u] Cons.IH [OF Cons.prems(1), of p'] Cons.prems(3) Get u show ?thesis by auto
  next
    case (Put w)
    then show ?thesis using Cons.IH [of "Pool_Put reset w p"] Cons.prems by (simp add: Pool_Put_def reset_clean)
  qed
qed simp

end

text \<open>
  The generated Reset methods are such a reset: the basic fields without a Reset method of their
  own hold their zero value afterwards.
\<close>

definition zeroed :: "tenv \<Rightarrow> string set \<Rightarrow> string \<Rightarrow> markedStruct \<Rightarrow> gval list \<Rightarrow> bool" where
  "zeroed env markedSet pkgPath m vs \<longleftrightarrow>
     (\<forall>(f, v) \<in> set (zip (ms_fields m) vs). \<forall>b.
        snd f = Basic b \<and> \<not> hasOrWillHaveReset env (Basic b) markedSet pkgPath \<longrightarrow> v = zero_of b)"

interpretation generated: resetter "exec_Reset env call markedSet pkgPath m" "zeroed env markedSet pkgPath m"
  for env call markedSet pkgPath m
proof
  fix vs
  have "v' = zero_of b" if "((n, t), v') \<in> set (zip (ms_fields m) (exec_Reset env call markedSet pkgPath m vs))"
    "t = Basic b" "\<not> hasOrWillHaveReset env (Basic b) markedSet pkgPath" for n t v' b
    using that
    by (auto simp: exec_Reset_def in_set_zip exec_field_def reset_op_of_def zero_of_def split: prod.splits)
  then show "zeroed env markedSet pkgPath m (exec_Reset env call markedSet pkgPath m vs)"
    by (auto simp: zeroed_def)
qed

text \<open>
  A pool of structs with a generated Reset hands out factory values and zeroed ones only, whatever
  was put into it.
\<close>

lemma pool_hands_out_zeroed:
  "pool_pick pick \<Longrightarrow> v \<in> set (pool_run pick (exec_Reset env call ms p m) cs (Pool_New f)) \<Longrightarrow>
     zeroed env ms p m v \<or> v = f"
  using generated.run_clean [where p = "Pool_New f"] by (simp add: Pool_New_def)

subsection \<open>pkg/buildinfo/buildinfo.go\<close>

definition Placeholder :: string where "Placeholder = ''N/A''"

definition orPlaceholder :: "string \<Rightarrow> string" where
  "orPlaceholder s = (if s = '''' then Placeholder else s)"

definition buildinfo_Print :: "string \<Rightarrow> string \<Rightarrow> string \<Rightarrow> string" where
  "buildinfo_Print version date commit =
     ''Build version: '' @ orPlaceholder version @ newline @
     ''Build date: '' @ orPlaceholder date @ newline @
     ''Build commit: '' @ orPlaceholder commit @ newline"

end
