(* ===== verification/Spec2Isabelle.thy ===== *)
theory Spec2Isabelle
  imports ServerShutdown AgentMain Linter Pool
begin

text \<open>
  \<^bold>\<open>A metrics server and its agent\<close>

  The repository holds an agent that samples runtime and host metrics, a server that stores them,
  and two development tools. The agent (\<^verbatim>\<open>internal/agent\<close>) polls a collector, turns its snapshots into
  batches and delivers them over HTTP or gRPC. The server (\<^verbatim>\<open>internal/handler\<close>, \<^verbatim>\<open>internal/grpcserver\<close>)
  accepts single metrics and batches behind a chain of middleware, applies them through a service
  to one of three storages and answers queries. Both are configured from a JSON file, flags and the
  environment.

  \<^bold>\<open>Theories and sources\<close>

  \<^item> \<open>Prelude\<close>: machine types, error values, Go maps with an arbitrary iteration order, the
    collections \<open>gomap_simps\<close> and \<open>wf_intros\<close>. \<open>GoText\<close>, \<open>Float64\<close>, \<open>Float64_Text\<close>: the packages
    strings and strconv as the program uses them, with IEEE 754 numbers as bit patterns and the
    shortest decimal that reads back. \<open>Json\<close>, \<open>Json_Number\<close>, \<open>MetricsJson\<close>: encoding/json as a stack
    machine and a printer, and the struct tags of \<^verbatim>\<open>model.Metrics\<close>. \<open>GoFlag\<close>: package flag and
    \<^verbatim>\<open>time.ParseDuration\<close>.
  \<^item> \<open>Storage\<close>: the interface \<^verbatim>\<open>repository.Storage\<close> and its contract, the locales \<open>storage_queries\<close>
    and \<open>storage_contract\<close> over an abstract table. \<open>MemStorage\<close> (\<^verbatim>\<open>storage.go\<close>), \<open>FileStorage\<close>
    (\<^verbatim>\<open>filestorage.go\<close>) and \<open>DBStorage\<close> (\<^verbatim>\<open>db.go\<close>, \<^verbatim>\<open>config/db\<close>) implement it; each is an interpretation.
  \<^item> \<open>Service\<close> (\<^verbatim>\<open>internal/service\<close>): locale \<open>service_contract\<close>. \<open>Http\<close>, \<open>Net\<close>: net/http and net as
    far as used. \<open>Handler\<close> (\<^verbatim>\<open>internal/handler\<close>): locale \<open>handler_contract\<close>, every endpoint.
    \<open>Auditing\<close> (\<^verbatim>\<open>internal/audit\<close>). \<open>Hash\<close> (\<^verbatim>\<open>pkg/hash\<close>, with SHA-256 itself), \<open>Crypto\<close>
    (\<^verbatim>\<open>pkg/crypto\<close>), \<open>Middleware\<close> (\<^verbatim>\<open>internal/middleware\<close> and \<^verbatim>\<open>newRouter\<close>).
  \<^item> \<open>Retry\<close> (\<^verbatim>\<open>pkg/retry\<close>), \<open>Sender\<close> (\<^verbatim>\<open>internal/agent/sender.go\<close>, \<^verbatim>\<open>pkg/compress\<close>), \<open>Pipeline\<close> and
    \<open>EndToEnd\<close>: a request from the sender through every middleware to the endpoint. \<open>Grpc\<close>
    (\<^verbatim>\<open>internal/grpcserver\<close>, \<^verbatim>\<open>grpc_sender.go\<close>).
  \<^item> \<open>Collector\<close> and \<open>Agent\<close> (\<^verbatim>\<open>collector.go\<close>, \<^verbatim>\<open>agent.go\<close>): the goroutines and the channel as the step
    relation \<open>agent_step\<close>.
  \<^item> \<open>Config_File\<close>, \<open>Config_Server\<close>, \<open>Config_Agent\<close> (\<^verbatim>\<open>internal/config\<close>), \<open>ServerMain\<close> and
    \<open>ServerShutdown\<close> (\<^verbatim>\<open>cmd/server/main.go\<close>, the second with the process as a step relation),
    \<open>AgentMain\<close> (\<^verbatim>\<open>cmd/agent/main.go\<close>).
  \<^item> \<open>Linter\<close> (\<^verbatim>\<open>cmd/linter\<close>), \<open>ResetGen\<close> (\<^verbatim>\<open>cmd/reset\<close>), \<open>Pool\<close> (\<^verbatim>\<open>pkg/pool\<close>, \<^verbatim>\<open>pkg/buildinfo\<close>).

  \<^bold>\<open>State and operations\<close>

  A struct is a record with the source's field names, an operation takes the state and returns it
  updated together with its error (\<open>eff\<close>). A method of a type behind a lock is one atomic step. A
  handler returns the list of calls it makes on the response writer, so that the wrappers of the
  middleware transform that list as the Go writers transform the calls. Strings are byte strings;
  \<^verbatim>\<open>int64\<close> is a 64-bit word and wraps around.

  \<^bold>\<open>What is shown\<close>

  \<^item> Storage: each backend implements the abstract table; batches add up counters and keep the last
    gauge; snapshots, saves and loads round-trip bit for bit; a database batch is atomic.
  \<^item> Endpoints and transports: every route keeps the storage well formed, refused requests change
    nothing, texts returned by the server can be sent back, HTTP and gRPC leave the same metrics,
    the guards for signature and subnet pass exactly what they should.
  \<^item> Composition: a batch handed to the sender is applied once per request the server gets, through
    compression, encryption and signing; a server that is stopped and started again has its metrics.
  \<^item> Processes: the agent's invariant in every interleaving and its shutdown; the server's shutdown
    within a bounded number of steps; which intervals make the agent panic; the precedence of the
    configuration's layers.
  \<^item> Tools: the linter reports exactly the calls its rule names; the generated Reset methods are type
    correct and reset the fields they should.

  \<^bold>\<open>Bounds and fuel\<close>

  The search for the shortest decimal has fuel 1400, more than the digits of any float64; that it
  is enough is proved (\<open>Float64_Text\<close>). The fuel of TrimSpace is the length of the string. All other
  loops are structural or have a termination proof. The bound \<open>12 + 4 * rateLimit\<close> of the agent's
  shutdown and \<open>13\<close> plus the open requests of the server's are values of explicit measures.

  \<^bold>\<open>Parameters\<close>

  Arguments of the definitions stand for code outside the repository: the map iteration order, the
  operating system's files and environment, the network and the gRPC connection, gzip, RSA and
  AES-GCM, PEM parsing, chi's dispatch, \<^verbatim>\<open>avast/retry-go\<close>, \<^verbatim>\<open>database/sql\<close> with PostgreSQL and
  golang-migrate, the HTML template engine, gopsutil and \<^verbatim>\<open>runtime\<close> samples, package loading and
  formatting for the generator, the choice of \<^verbatim>\<open>sync.Pool\<close>. What the proofs rely on is a named
  predicate (\<open>gzip_ok\<close>, \<open>key_pair\<close>, \<open>gcm_opens\<close>, \<open>serves_static\<close>, \<open>routes_only\<close>, \<open>retry_go_spec\<close>,
  \<open>pg_spec\<close>, \<open>faultless\<close>, \<open>pool_pick\<close>), and the witnesses give instances.

  \<^bold>\<open>Not modelled\<close>

  The protobuf messages and stubs are generated code; the HTML template is text, its execution a
  parameter; the embedded migrations are SQL files; the linter's entry point is one library call.
  Sockets, clocks and contexts appear as steps of the environment. Data races are outside the model:
  an access under a lock is one step, and a request is handled as a whole.
\<close>

end
